(* ===== verification/Net_Prelude.thy ===== *)
theory Net_Prelude
  imports Main "HOL-Library.Word"
begin

text \<open>
  Shared vocabulary of the development: the machine integers of \<^verbatim>\<open>stdint.h\<close>, the error codes of
  \<^verbatim>\<open>esp_err.h\<close>, the result of running a piece of C code (\<open>exec\<close>), byte buffers with checked
  accesses, first-match array searches, and the lemma collections that the component theories use.
\<close>

unbundle bit_operations_syntax

section \<open>Lemma collections\<close>

named_theorems exec_simps \<open>rewrite rules for sequencing C statements\<close>
named_theorems word_nat \<open>reading word operations as natural-number arithmetic\<close>

section \<open>Machine integers and error codes\<close>

type_synonym u8 = "8 word"
type_synonym u16 = "16 word"
type_synonym u32 = "32 word"

text \<open>\<^verbatim>\<open>TickType_t\<close> is an unsigned 32-bit counter on the ESP8266 port.\<close>

type_synonym tick = u32

datatype esp_err = ESP_OK | ESP_FAIL | ESP_ERR_NO_MEM | ESP_ERR_INVALID_ARG | ESP_ERR_TIMEOUT
  | ESP_ERR_OTHER nat

section \<open>Running C code\<close>

text \<open>
  A C function either returns (\<open>Inr\<close>), or stops its task: \<open>Blocked\<close> when it waits in the
  kernel with nothing in this task's own state to wake it, \<open>Fault\<close> when the C program has undefined
  behaviour (an access outside a buffer, a call through a null pointer, an invalid \<^verbatim>\<open>free\<close>),
  \<open>Abort\<close> when a failed \<^verbatim>\<open>ESP_ERROR_CHECK\<close> ends the program.
  Statements are sequenced by \<open>rbind\<close>.
\<close>

datatype stop = Blocked | Fault | Abort

type_synonym 'a exec = "stop + 'a"

definition rbind :: "'a exec \<Rightarrow> ('a \<Rightarrow> 'b exec) \<Rightarrow> 'b exec" where
  "rbind m f = (case m of Inl e \<Rightarrow> Inl e | Inr x \<Rightarrow> f x)"

lemma rbind_simps [simp, exec_simps]:
  "rbind (Inl e) f = Inl e"
  "rbind (Inr x) f = f x"
  by (simp_all add: rbind_def)

lemma rbind_eq_Inr [exec_simps]:
  "rbind m f = Inr y \<longleftrightarrow> (\<exists>x. m = Inr x \<and> f x = Inr y)"
  by (auto simp: rbind_def split: sum.splits)

lemma rbind_eq_Inl:
  "rbind m f = Inl e \<longleftrightarrow> m = Inl e \<or> (\<exists>x. m = Inr x \<and> f x = Inl e)"
  by (auto simp: rbind_def split: sum.splits)

lemma rbind_assoc: "rbind (rbind m f) g = rbind m (\<lambda>x. rbind (f x) g)"
  by (simp add: rbind_def split: sum.splits)

lemma rbind_cong [fundef_cong]:
  "m = m' \<Longrightarrow> (\<And>x. m' = Inr x \<Longrightarrow> f x = f' x) \<Longrightarrow> rbind m f = rbind m' f'"
  by (simp add: rbind_def split: sum.splits)

definition guard :: "bool \<Rightarrow> unit exec" where
  "guard b = (if b then Inr () else Inl Fault)"

lemma guard_simps [simp, exec_simps]:
  "guard True = Inr ()"
  "guard False = Inl Fault"
  by (simp_all add: guard_def)

lemma guard_eq_Inr [simp]: "guard b = Inr u \<longleftrightarrow> b"
  by (simp add: guard_def)

text \<open>A \<^verbatim>\<open>for\<close> loop over the elements of an array, threading the state.\<close>

fun for_each :: "('a \<Rightarrow> 's \<Rightarrow> 's exec) \<Rightarrow> 'a list \<Rightarrow> 's \<Rightarrow> 's exec" where
  "for_each f [] s = Inr s"
| "for_each f (x # xs) s = rbind (f x s) (for_each f xs)"

lemma for_each_append:
  "for_each f (xs @ ys) s = rbind (for_each f xs s) (for_each f ys)"
  by (induction xs arbitrary: s) (simp_all add: rbind_def split: sum.splits)

lemma for_each_invariant:
  assumes "\<And>x s s'. x \<in> set xs \<Longrightarrow> P s \<Longrightarrow> f x s = Inr s' \<Longrightarrow> P s'"
    and "P s" and "for_each f xs s = Inr s'"
  shows "P s'"
  using assms
proof (induction xs arbitrary: s)
  case Nil
  then show ?case by simp
next
  case (Cons x xs)
  from Cons.prems(3) obtain t where t: "f x s = Inr t" and rest: "for_each f xs t = Inr s'"
    by (auto simp: rbind_eq_Inr)
  from Cons.prems(1,2) t have "P t" by auto
  then show ?case using Cons.IH Cons.prems(1) rest by auto
qed

lemma for_each_total:
  assumes "\<And>x s. x \<in> set xs \<Longrightarrow> P s \<Longrightarrow> \<exists>s'. f x s = Inr s' \<and> P s'" and "P s"
  shows "\<exists>s'. for_each f xs s = Inr s' \<and> P s'"
  using assms
proof (induction xs arbitrary: s)
  case Nil
  then show ?case by simp
next
  case (Cons x xs)
  from Cons.prems obtain t where "f x s = Inr t" and "P t" by (meson list.set_intros(1))
  moreover from \<open>P t\<close> obtain s' where "for_each f xs t = Inr s'" and "P s'"
    using Cons.IH[of t] Cons.prems(1) by auto
  ultimately show ?case by simp
qed

section \<open>Byte buffers\<close>

type_synonym bytes = "u8 list"

text \<open>
  A \<^verbatim>\<open>uint8_t*\<close> argument is the list of the bytes that really lie behind the pointer; reading past
  its end is a \<open>Fault\<close>.
\<close>

definition read_bytes :: "bytes \<Rightarrow> nat \<Rightarrow> nat \<Rightarrow> bytes exec" where
  "read_bytes buf off n =
     (if off + n \<le> length buf then Inr (take n (drop off buf)) else Inl Fault)"

lemma read_bytes_ok [simp]:
  "off + n \<le> length buf \<Longrightarrow> read_bytes buf off n = Inr (take n (drop off buf))"
  by (simp add: read_bytes_def)

lemma read_bytes_fault [simp]:
  "length buf < off + n \<Longrightarrow> read_bytes buf off n = Inl Fault"
  by (simp add: read_bytes_def)

lemma read_bytes_eq_Inr:
  "read_bytes buf off n = Inr bs \<longleftrightarrow> off + n \<le> length buf \<and> bs = take n (drop off buf)"
  by (auto simp: read_bytes_def)

text \<open>Overwriting \<open>length bs\<close> bytes at an offset, as \<^verbatim>\<open>memcpy(buf + off, bs, n)\<close> does.\<close>

definition write_bytes :: "nat \<Rightarrow> bytes \<Rightarrow> bytes \<Rightarrow> bytes exec" where
  "write_bytes off bs buf =
     (if off + length bs \<le> length buf
      then Inr (take off buf @ bs @ drop (off + length bs) buf) else Inl Fault)"

lemma write_bytes_length:
  "write_bytes off bs buf = Inr buf' \<Longrightarrow> length buf' = length buf"
  by (auto simp: write_bytes_def split: if_splits)

section \<open>Array searches\<close>

text \<open>\<^verbatim>\<open>for (i = 0; i < n; i++) if (P(a[i])) return &a[i]; return NULL;\<close>\<close>

fun find_index :: "('a \<Rightarrow> bool) \<Rightarrow> 'a list \<Rightarrow> nat option" where
  "find_index P [] = None"
| "find_index P (x # xs) = (if P x then Some 0 else map_option Suc (find_index P xs))"

lemma find_index_None: "find_index P xs = None \<longleftrightarrow> (\<forall>x\<in>set xs. \<not> P x)"
  by (induction xs) auto

lemma find_index_Some:
  "find_index P xs = Some i \<longleftrightarrow> i < length xs \<and> P (xs ! i) \<and> (\<forall>j<i. \<not> P (xs ! j))"
proof (induction xs arbitrary: i)
  case Nil
  then show ?case by simp
next
  case (Cons x xs)
  show ?case
    by (cases i) (auto simp: Cons.IH nth_Cons' all_conj_distrib less_Suc_eq_0_disj)
qed

lemma find_index_SomeD:
  assumes "find_index P xs = Some i"
  shows "i < length xs" and "P (xs ! i)"
  using assms by (simp_all add: find_index_Some)

lemma find_index_cong:
  assumes "length xs = length ys" and "\<And>i. i < length xs \<Longrightarrow> P (xs ! i) = Q (ys ! i)"
  shows "find_index P xs = find_index Q ys"
  using assms
proof (induction xs ys rule: list_induct2)
  case Nil
  then show ?case by simp
next
  case (Cons x xs y ys)
  from Cons.prems[of 0] have "P x = Q y" by simp
  moreover have "find_index P xs = find_index Q ys"
    by (rule Cons.IH) (use Cons.prems[of "Suc _"] in simp)
  ultimately show ?case by simp
qed

definition count :: "('a \<Rightarrow> bool) \<Rightarrow> 'a list \<Rightarrow> nat" where
  "count P xs = length (filter P xs)"

lemma count_simps [simp]:
  "count P [] = 0"
  "count P (x # xs) = (if P x then Suc (count P xs) else count P xs)"
  by (simp_all add: count_def)

lemma count_append [simp]: "count P (xs @ ys) = count P xs + count P ys"
  by (simp add: count_def)

lemma count_le_length: "count P xs \<le> length xs"
  by (simp add: count_def)

lemma count_list_update:
  "i < length xs \<Longrightarrow>
   count P (xs[i := v]) + (if P (xs ! i) then 1 else 0) = count P xs + (if P v then 1 else 0)"
proof (induction xs arbitrary: i)
  case Nil
  then show ?case by simp
next
  case (Cons x xs)
  show ?case
  proof (cases i)
    case 0
    then show ?thesis by simp
  next
    case (Suc k)
    with Cons.IH[of k] Cons.prems show ?thesis by (auto split: if_splits)
  qed
qed

lemma count_eq_length_iff: "count P xs = length xs \<longleftrightarrow> (\<forall>x\<in>set xs. P x)"
proof (induction xs)
  case Nil
  then show ?case by simp
next
  case (Cons x xs)
  then show ?case using count_le_length[of P xs] by auto
qed

lemma sum_list_map_update:
  fixes f :: "'a \<Rightarrow> nat"
  shows "i < length xs \<Longrightarrow>
    sum_list (map f (xs[i := v])) + f (xs ! i) = sum_list (map f xs) + f v"
proof (induction xs arbitrary: i)
  case Nil
  then show ?case by simp
next
  case (Cons x xs)
  then show ?case by (cases i) (auto simp: add.commute add.left_commute)
qed

text \<open>A search for a key in an array of pairs is a lookup in the association list.\<close>

lemma find_index_map_of:
  "map_of xs k = map_option (\<lambda>i. snd (xs ! i)) (find_index (\<lambda>r. fst r = k) xs)"
  by (induction xs) (auto simp: option.map_comp comp_def)

lemma map_of_update_hit:
  "find_index (\<lambda>r. fst r = k) xs = Some i \<Longrightarrow> map_of (xs[i := (k, v)]) = (map_of xs)(k \<mapsto> v)"
  by (induction xs arbitrary: i) (auto split: if_splits)

lemma map_of_update_other:
  "i < length xs \<Longrightarrow> k' \<noteq> k \<Longrightarrow> fst (xs ! i) \<noteq> k' \<Longrightarrow> map_of (xs[i := (k, v)]) k' = map_of xs k'"
proof (induction xs arbitrary: i)
  case Nil
  then show ?case by simp
next
  case (Cons x xs)
  then show ?case by (cases i; cases x) auto
qed

lemma map_of_update_new:
  "k \<notin> fst ` set xs \<Longrightarrow> i < length xs \<Longrightarrow> map_of (xs[i := (k, v)]) k = Some v"
proof (induction xs arbitrary: i)
  case Nil
  then show ?case by simp
next
  case (Cons x xs)
  then show ?case by (cases i; cases x) auto
qed

lemma map_of_update_gone:
  assumes "i < length xs" and "k' \<noteq> k" and "\<And>j. j < length xs \<Longrightarrow> j \<noteq> i \<Longrightarrow> fst (xs ! j) \<noteq> k'"
  shows "map_of (xs[i := (k, v)]) k' = None"
proof -
  have "fst r \<noteq> k'" if "r \<in> set (xs[i := (k, v)])" for r
  proof -
    from that obtain j where "j < length xs" and "r = xs[i := (k, v)] ! j"
      by (auto simp: in_set_conv_nth)
    with assms show ?thesis by (cases "j = i") auto
  qed
  then show ?thesis by (auto simp: map_of_eq_None_iff)
qed

section \<open>Word lemmas\<close>

lemma unat_less_256 [simp]: "unat (b :: u8) < 256"
  using unsigned_less[of b] by simp

lemma unat_less_65536 [simp]: "unat (w :: u16) < 65536"
  using unsigned_less[of w] by simp

lemma unat_ucast_u8_u16 [simp, word_nat]: "unat (ucast (b :: u8) :: u16) = unat b"
  unfolding unsigned_ucast_eq by (rule take_bit_nat_eq_self, rule less_trans, rule unat_less_256) simp

lemma unat_ucast_u8_u32 [simp, word_nat]: "unat (ucast (b :: u8) :: u32) = unat b"
  unfolding unsigned_ucast_eq by (rule take_bit_nat_eq_self, rule less_trans, rule unat_less_256) simp

lemma unat_ucast_u16_u32 [simp, word_nat]: "unat (ucast (w :: u16) :: u32) = unat w"
  unfolding unsigned_ucast_eq by (rule take_bit_nat_eq_self, rule less_trans, rule unat_less_65536) simp

lemma unat_ucast_u16_u8 [simp, word_nat]: "unat (ucast (w :: u16) :: u8) = unat w mod 256"
  by (simp add: unsigned_ucast_eq take_bit_eq_mod)

lemma unat_drop_bit [word_nat]: "unat (drop_bit n w) = unat w div 2 ^ n"
  unfolding unsigned_drop_bit_eq by (simp add: drop_bit_eq_div take_bit_nat_eq_self)

lemma u16_eqI: "unat (a :: u16) = unat b \<Longrightarrow> a = b"
  by (simp add: word_unat_eq_iff)

lemma unat_plus_u16:
  "unat (a + b :: u16) =
     (if unat a + unat b < 65536 then unat a + unat b else unat a + unat b - 65536)"
proof -
  have "unat a + unat b - 65536 < 65536"
    using unat_less_65536[of a] unat_less_65536[of b] by linarith
  moreover have "unat (a + b) = (unat a + unat b) mod 65536" by (simp add: unat_word_ariths)
  ultimately show ?thesis by (simp add: le_mod_geq)
qed

lemma unat_minus_u16:
  "unat (a - b :: u16) =
     (if unat b \<le> unat a then unat a - unat b else unat a + 65536 - unat b)"
  by (simp add: unat_sub_if')

end
