(* ===== verification/Endian.thy ===== *)
theory Endian
  imports Net_Prelude
begin

text \<open>
  Byte order (\<^verbatim>\<open>utility/endian.h\<close>). The Xtensa core is little-endian: \<open>load16\<close>, \<open>store16\<close>,
  \<open>load32\<close> and \<open>store32\<close> are what a struct field access or a \<^verbatim>\<open>memcpy\<close> of a \<^verbatim>\<open>uint16_t\<close> or
  \<^verbatim>\<open>uint32_t\<close> does to memory. The conversions of the source are then shown to put the most
  significant byte first on the wire and to be inverse to each other.
\<close>

section \<open>Little-endian memory\<close>

definition load16 :: "u8 \<Rightarrow> u8 \<Rightarrow> u16" where
  "load16 b0 b1 = ucast b0 OR push_bit 8 (ucast b1)"

definition store16 :: "u16 \<Rightarrow> bytes" where
  "store16 w = [ucast w, ucast (drop_bit 8 w)]"

definition load32 :: "u8 \<Rightarrow> u8 \<Rightarrow> u8 \<Rightarrow> u8 \<Rightarrow> u32" where
  "load32 b0 b1 b2 b3 =
     ucast b0 OR push_bit 8 (ucast b1) OR push_bit 16 (ucast b2) OR push_bit 24 (ucast b3)"

definition store32 :: "u32 \<Rightarrow> bytes" where
  "store32 w = [ucast w, ucast (drop_bit 8 w), ucast (drop_bit 16 w), ucast (drop_bit 24 w)]"

lemma length_store16 [simp]: "length (store16 w) = 2"
  by (simp add: store16_def)

lemma length_store32 [simp]: "length (store32 w) = 4"
  by (simp add: store32_def)

section \<open>Conversions\<close>

definition ntohs :: "u16 \<Rightarrow> u16" where
  "ntohs net_value = push_bit 8 (net_value AND 0xFF) OR (drop_bit 8 net_value AND 0xFF)"

definition ntohl :: "u32 \<Rightarrow> u32" where
  "ntohl net_value =
     push_bit 24 (net_value AND 0xFF) OR
     push_bit 16 (drop_bit 8 net_value AND 0xFF) OR
     push_bit 8 (drop_bit 16 net_value AND 0xFF) OR
     (drop_bit 24 net_value AND 0xFF)"

definition htons :: "u16 \<Rightarrow> u16" where
  "htons host_value = ntohs host_value"

definition htonl :: "u32 \<Rightarrow> u32" where
  "htonl host_value = ntohl host_value"

section \<open>Bit-level laws\<close>

lemma mask8_eq: "0xFF = (mask 8 :: 'a::len word)"
  by (simp add: mask_numeral)

lemmas bytewise = bit_eq_iff bit_or_iff bit_and_iff bit_push_bit_iff bit_drop_bit_eq bit_mask_iff
  bit_ucast_iff mask8_eq

text \<open>Which bit of the argument each bit of the result is.\<close>

lemma bit_ntohs: "bit (ntohs w) n \<longleftrightarrow> n < 16 \<and> bit w (if n < 8 then n + 8 else n - 8)"
  unfolding ntohs_def by (auto simp: bytewise add.commute dest: bit_imp_le_length)

lemma bit_ntohl:
  "bit (ntohl w) n \<longleftrightarrow> n < 32 \<and>
     bit w (if n < 8 then n + 24 else if n < 16 then n + 8 else if n < 24 then n - 8 else n - 24)"
proof -
  consider "n < 8" | "8 \<le> n" "n < 16" | "16 \<le> n" "n < 24" | "24 \<le> n" "n < 32" | "32 \<le> n"
    by linarith
  then show ?thesis
    unfolding ntohl_def
    by cases (auto simp: bit_or_iff bit_and_iff bit_push_bit_iff bit_drop_bit_eq bit_mask_iff
        mask8_eq add.commute dest: bit_imp_le_length)
qed

lemma bit_load16:
  "bit (load16 b0 b1) n \<longleftrightarrow> n < 16 \<and> (if n < 8 then bit b0 n else bit b1 (n - 8))"
  unfolding load16_def by (auto simp: bytewise dest: bit_imp_le_length)

lemma bit_load32:
  "bit (load32 b0 b1 b2 b3) n \<longleftrightarrow> n < 32 \<and>
     (if n < 8 then bit b0 n else if n < 16 then bit b1 (n - 8)
      else if n < 24 then bit b2 (n - 16) else bit b3 (n - 24))"
proof -
  consider "n < 8" | "8 \<le> n" "n < 16" | "16 \<le> n" "n < 24" | "24 \<le> n" "n < 32" | "32 \<le> n"
    by linarith
  then show ?thesis
    unfolding load32_def
    by cases (auto simp: bit_or_iff bit_push_bit_iff bit_ucast_iff dest: bit_imp_le_length)
qed

lemma ntohs_involutive [simp]: "ntohs (ntohs w) = w"
  by (auto simp: bit_eq_iff bit_ntohs dest: bit_imp_le_length)

lemma ntohl_involutive [simp]: "ntohl (ntohl w) = w"
  by (auto simp: bit_eq_iff bit_ntohl dest: bit_imp_le_length)

lemma load16_store16 [simp]: "load16 (ucast w) (ucast (drop_bit 8 w)) = w"
  by (auto simp: bit_eq_iff bit_load16 bit_ucast_iff bit_drop_bit_eq dest: bit_imp_le_length)

lemma load32_store32 [simp]:
  "load32 (ucast w) (ucast (drop_bit 8 w)) (ucast (drop_bit 16 w)) (ucast (drop_bit 24 w)) = w"
  by (auto simp: bit_eq_iff bit_load32 bit_ucast_iff bit_drop_bit_eq dest: bit_imp_le_length)

lemma ntohs_load16 [simp]: "ntohs (load16 b0 b1) = load16 b1 b0"
  by (auto simp: bit_eq_iff bit_ntohs bit_load16 dest: bit_imp_le_length)

lemma ntohl_load32 [simp]: "ntohl (load32 b0 b1 b2 b3) = load32 b3 b2 b1 b0"
  by (auto simp: bit_eq_iff bit_ntohl bit_load32 dest: bit_imp_le_length)

lemma store16_load16 [simp]: "store16 (load16 b0 b1) = [b0, b1]"
  by (auto simp: store16_def bit_eq_iff bit_load16 bit_ucast_iff bit_drop_bit_eq
      dest: bit_imp_le_length)

lemma store32_load32 [simp]: "store32 (load32 b0 b1 b2 b3) = [b0, b1, b2, b3]"
  by (auto simp: store32_def bit_eq_iff bit_load32 bit_ucast_iff bit_drop_bit_eq
      dest: bit_imp_le_length)

lemma unat_load16 [word_nat]: "unat (load16 b0 b1) = unat b0 + 256 * unat b1"
proof -
  have "load16 b0 b1 = ucast b0 + push_bit 8 (ucast b1)"
    unfolding load16_def
    by (rule disjunctive_add [symmetric]) (auto simp: bytewise dest: bit_imp_le_length)
  also have "unat \<dots> = (unat b0 + unat b1 * 256) mod 65536"
    by (simp add: unat_word_ariths push_bit_eq_mult mod_simps)
  also have "\<dots> = unat b0 + 256 * unat b1"
    using unat_less_256[of b0] unat_less_256[of b1] by (subst mod_less) linarith+
  finally show ?thesis .
qed

section \<open>The wire format\<close>

text \<open>The value of a big-endian 16-bit field.\<close>

definition be16 :: "u8 \<Rightarrow> u8 \<Rightarrow> u16" where
  "be16 b0 b1 = of_nat (256 * unat b0 + unat b1)"

lemma unat_be16 [word_nat]: "unat (be16 b0 b1) = 256 * unat b0 + unat b1"
proof -
  have "256 * unat b0 + unat b1 < 65536"
    using unat_less_256[of b0] unat_less_256[of b1] by linarith
  then show ?thesis
    unfolding be16_def unat_of_nat by simp
qed

lemma ntohs_load16_be16: "ntohs (load16 b0 b1) = be16 b0 b1"
  by (rule u16_eqI) (simp add: word_nat)

lemma store16_htons: "store16 (htons w) = [ucast (drop_bit 8 w), ucast w]"
proof -
  have "htons w = htons (load16 (ucast w) (ucast (drop_bit 8 w)))" by simp
  then show ?thesis by (simp only: htons_def ntohs_load16 store16_load16)
qed

lemma store32_htonl:
  "store32 (htonl w) =
     [ucast (drop_bit 24 w), ucast (drop_bit 16 w), ucast (drop_bit 8 w), ucast w]"
proof -
  have "htonl w = htonl (load32 (ucast w) (ucast (drop_bit 8 w))
      (ucast (drop_bit 16 w)) (ucast (drop_bit 24 w)))" by simp
  then show ?thesis by (simp only: htonl_def ntohl_load32 store32_load32)
qed

section \<open>The interface of a byte-order conversion\<close>

text \<open>
  Protocol code only relies on this: what one side writes through \<open>hton\<close> and stores, the other
  side reads back through \<open>load\<close> and \<open>ntoh\<close>.
\<close>

locale byte_order =
  fixes hton :: "'w \<Rightarrow> 'w" and ntoh :: "'w \<Rightarrow> 'w"
    and store :: "'w \<Rightarrow> bytes" and load :: "bytes \<Rightarrow> 'w"
  assumes ntoh_hton [simp]: "ntoh (hton w) = w"
    and hton_ntoh [simp]: "hton (ntoh w) = w"
    and load_store [simp]: "load (store w) = w"
begin

lemma wire_roundtrip: "ntoh (load (store (hton w))) = w"
  by simp

lemma wire_inj: "store (hton v) = store (hton w) \<longleftrightarrow> v = w"
  by (metis wire_roundtrip)

end

definition load16_of :: "bytes \<Rightarrow> u16" where
  "load16_of bs = load16 (bs ! 0) (bs ! 1)"

definition load32_of :: "bytes \<Rightarrow> u32" where
  "load32_of bs = load32 (bs ! 0) (bs ! 1) (bs ! 2) (bs ! 3)"

interpretation net16: byte_order htons ntohs store16 load16_of
  by unfold_locales (simp_all add: htons_def load16_of_def store16_def)

interpretation net32: byte_order htonl ntohl store32 load32_of
  by unfold_locales (simp_all add: htonl_def load32_of_def store32_def)

end
