(* ===== verification/Net_Types.thy ===== *)
theory Net_Types
  imports Endian
begin

text \<open>
  The data types of the stack: addresses (\<^verbatim>\<open>utility/net_types.h\<close>), the structs that travel through
  the FreeRTOS queues (\<^verbatim>\<open>ipv4.h\<close>, \<^verbatim>\<open>arp.h\<close>, \<^verbatim>\<open>udp.h\<close>, \<^verbatim>\<open>tcp.h\<close>, \<^verbatim>\<open>tcp.c\<close>) and the constants
  of the headers. A fixed-size byte array is a datatype with one argument per byte, a data pointer is
  an optional heap address (\<open>None\<close> is \<^verbatim>\<open>NULL\<close>), a function pointer an optional identifier.
\<close>

section \<open>Addresses\<close>

datatype mac_addr = MAC u8 u8 u8 u8 u8 u8

datatype ipv4_addr = IPv4 u8 u8 u8 u8

fun mac_bytes :: "mac_addr \<Rightarrow> bytes" where
  "mac_bytes (MAC a b c d e f) = [a, b, c, d, e, f]"

fun ip_bytes :: "ipv4_addr \<Rightarrow> bytes" where
  "ip_bytes (IPv4 a b c d) = [a, b, c, d]"

definition mac_of_bytes :: "bytes \<Rightarrow> mac_addr" where
  "mac_of_bytes bs = MAC (bs ! 0) (bs ! 1) (bs ! 2) (bs ! 3) (bs ! 4) (bs ! 5)"

definition ip_of_bytes :: "bytes \<Rightarrow> ipv4_addr" where
  "ip_of_bytes bs = IPv4 (bs ! 0) (bs ! 1) (bs ! 2) (bs ! 3)"

lemma length_mac_bytes [simp]: "length (mac_bytes m) = 6"
  by (cases m) simp

lemma length_ip_bytes [simp]: "length (ip_bytes a) = 4"
  by (cases a) simp

lemma mac_of_bytes_inverse [simp]: "mac_of_bytes (mac_bytes m @ bs) = m"
  by (cases m) (simp add: mac_of_bytes_def)

lemma ip_of_bytes_inverse [simp]: "ip_of_bytes (ip_bytes a @ bs) = a"
  by (cases a) (simp add: ip_of_bytes_def)

lemma mac_of_mac_bytes [simp]: "mac_of_bytes (mac_bytes m) = m"
  using mac_of_bytes_inverse[of m "[]"] by simp

lemma ip_of_ip_bytes [simp]: "ip_of_bytes (ip_bytes a) = a"
  using ip_of_bytes_inverse[of a "[]"] by simp

lemma ip_bytes_inj [simp]: "ip_bytes a = ip_bytes b \<longleftrightarrow> a = b"
  by (cases a; cases b) simp

lemma mac_bytes_inj [simp]: "mac_bytes a = mac_bytes b \<longleftrightarrow> a = b"
  by (cases a; cases b) simp

text \<open>Static storage is zero-initialised.\<close>

instantiation mac_addr :: zero
begin

definition zero_mac_addr :: mac_addr where
  "zero_mac_addr = MAC 0 0 0 0 0 0"

instance ..

end

instantiation ipv4_addr :: zero
begin

definition zero_ipv4_addr :: ipv4_addr where
  "zero_ipv4_addr = IPv4 0 0 0 0"

instance ..

end

record net_context =
  nc_mac :: mac_addr
  nc_ip :: ipv4_addr

section \<open>Pointers and handles\<close>

type_synonym addr = nat
type_synonym ptr = "addr option"
type_synonym fptr = "nat option"
type_synonym qhandle = nat
type_synonym shandle = nat
type_synonym task = nat

section \<open>Queued structs\<close>

record ipv4_transmit_params =
  ip_src_ipv4_addr :: ipv4_addr
  ip_dst_ipv4_addr :: ipv4_addr
  ip_protocol :: u8
  ip_data :: ptr
  ip_data_len :: u16

record arp_request =
  rq_ip :: ipv4_addr
  rq_task :: task

record arp_entry =
  en_ip :: ipv4_addr
  en_mac :: mac_addr

record udp_transmit_params =
  utx_src_port :: u16
  utx_dst_port :: u16
  utx_dst_ipv4_addr :: ipv4_addr
  utx_data :: ptr
  utx_data_len :: u16

record udp_port =
  up_port_number :: u16
  up_callback :: fptr

record tcp_transmit_params =
  ttx_dst_ipv4_addr :: ipv4_addr
  ttx_src_port :: u16
  ttx_dst_port :: u16
  ttx_seq_num :: u32
  ttx_control :: u8
  ttx_isRetransmission :: bool
  ttx_data :: ptr
  ttx_data_len :: u16

record tcp_input_event =
  tin_buffer :: ptr
  tin_length :: u16
  tin_src_ipv4_addr :: ipv4_addr

datatype tcp_cmd_type = CMD_CREATE_AND_LISTEN | CMD_CREATE_AND_CONNECT | CMD_CLOSE

record tcp_port_cmd =
  cmd_type :: tcp_cmd_type
  cmd_self_port_num :: u16
  cmd_other_port_num :: u16
  cmd_other_ipv4_addr :: ipv4_addr
  cmd_on_receive :: fptr
  cmd_on_connect :: fptr
  cmd_on_disconnect :: fptr

text \<open>
  A FreeRTOS queue copies untyped items; every queue of the stack holds one of these structs.
\<close>

datatype msg =
    Ipv4Tx ipv4_transmit_params
  | ArpRequest arp_request
  | ArpEntry arp_entry
  | UdpPort udp_port
  | UdpTx udp_transmit_params
  | TcpTx tcp_transmit_params
  | TcpInput tcp_input_event
  | TcpCmd tcp_port_cmd

section \<open>Constants\<close>

abbreviation (input) IPV4_ETHERTYPE :: u16 where "IPV4_ETHERTYPE \<equiv> 0x800"
abbreviation (input) ARP_ETHERTYPE :: u16 where "ARP_ETHERTYPE \<equiv> 0x0806"
abbreviation (input) ICMP_PROTOCOL_NUMBER :: u8 where "ICMP_PROTOCOL_NUMBER \<equiv> 1"
abbreviation (input) TCP_PROTOCOL_NUMBER :: u8 where "TCP_PROTOCOL_NUMBER \<equiv> 6"
abbreviation (input) UDP_PROTOCOL_NUMBER :: u8 where "UDP_PROTOCOL_NUMBER \<equiv> 17"
abbreviation (input) portMAX_DELAY :: tick where "portMAX_DELAY \<equiv> 0xFFFFFFFF"

end
