(* ===== verification/Rtos.thy ===== *)
theory Rtos
  imports Net_Types
begin

text \<open>
  The FreeRTOS kernel and the Wi-Fi driver are not part of the repository. Every operation that uses
  them takes an argument \<open>R\<close> of type \<open>'k rtos\<close>: one function per kernel call, over an opaque kernel
  state \<open>'k\<close>. What the code relies on is the documented behaviour of those calls, stated once as the
  locale \<open>rtos_contract\<close>: seen through a \<open>view\<close> of the kernel objects, the calls behave like the
  operations \<open>kq_send\<close>, \<open>kq_receive\<close>, \<open>ks_take\<close>, \<open>ks_give\<close>, \<open>kt_notify\<close> and \<open>kt_take\<close> on bounded
  first-in-first-out queues, counting semaphores and task notifications, and none of them touches what
  the program has set up in the Wi-Fi driver or the receive buffers the driver has lent out.
\<close>

section \<open>Kernel calls\<close>

record 'k rtos =
  xQueueCreate :: "nat \<Rightarrow> 'k \<Rightarrow> qhandle option \<times> 'k"
  xQueueSend :: "qhandle \<Rightarrow> msg \<Rightarrow> tick \<Rightarrow> 'k \<Rightarrow> (bool \<times> 'k) exec"
  xQueueReceive :: "qhandle \<Rightarrow> tick \<Rightarrow> 'k \<Rightarrow> (msg option \<times> 'k) exec"
  xQueueCreateSet :: "nat \<Rightarrow> 'k \<Rightarrow> qhandle option \<times> 'k"
  xQueueAddToSet :: "qhandle \<Rightarrow> qhandle \<Rightarrow> 'k \<Rightarrow> 'k"
  xSemaphoreCreateCounting :: "nat \<Rightarrow> nat \<Rightarrow> 'k \<Rightarrow> shandle option \<times> 'k"
  xSemaphoreTake :: "shandle \<Rightarrow> tick \<Rightarrow> 'k \<Rightarrow> (bool \<times> 'k) exec"
  xSemaphoreGive :: "shandle \<Rightarrow> 'k \<Rightarrow> 'k exec"
  uxSemaphoreGetCount :: "shandle \<Rightarrow> 'k \<Rightarrow> nat exec"
  vSemaphoreDelete :: "shandle \<Rightarrow> 'k \<Rightarrow> 'k exec"
  xTaskCreate :: "string \<Rightarrow> 'k \<Rightarrow> bool \<times> 'k"
  xTaskGetTickCount :: "'k \<Rightarrow> tick"
  pdMS_TO_TICKS :: "u32 \<Rightarrow> tick"
  xTaskGetCurrentTaskHandle :: "'k \<Rightarrow> task"
  xTaskNotifyGive :: "task \<Rightarrow> 'k \<Rightarrow> 'k"
  ulTaskNotifyTake :: "bool \<Rightarrow> tick \<Rightarrow> 'k \<Rightarrow> (nat \<times> 'k) exec"
  esp_wifi_internal_tx :: "bytes \<Rightarrow> 'k \<Rightarrow> esp_err \<times> 'k"

section \<open>The documented behaviour\<close>

text \<open>The events of the Wi-Fi driver, as far as the program names them.\<close>

datatype event_base = WIFI_EVENT | EVENT_BASE_OTHER string
datatype wifi_event = WIFI_EVENT_STA_START | WIFI_EVENT_STA_CONNECTED | WIFI_EVENT_STA_DISCONNECTED
  | WIFI_EVENT_OTHER int
datatype event_id = ESP_EVENT_ANY_ID | Event_id wifi_event

text \<open>
  What the program relies on in the Wi-Fi driver: the hardware address of the station, how often
  each receive buffer has been handed to the callback and not been given back, and the functions that are registered for
  the frames received by the station and for events, by their C names.
\<close>

record wifi_driver =
  wd_mac :: mac_addr
  wd_rx_buffers :: "nat \<Rightarrow> nat"
  wd_rxcb :: "string option"
  wd_event_handlers :: "(event_base \<times> event_id \<times> string) set"

text \<open>
  Queues with their capacity and contents, semaphores with their maximum and count, the pending
  notifications of each task, the driver, and the names of the tasks in the order they were created.
\<close>

record kview =
  kv_queues :: "qhandle \<Rightarrow> (nat \<times> msg list) option"
  kv_sems :: "shandle \<Rightarrow> (nat \<times> nat) option"
  kv_notify :: "task \<Rightarrow> nat"
  kv_driver :: wifi_driver
  kv_tasks :: "string list"

definition kq_send :: "qhandle \<Rightarrow> msg \<Rightarrow> tick \<Rightarrow> 'z kview_scheme \<Rightarrow> (bool \<times> 'z kview_scheme) exec" where
  "kq_send q m t v =
     (case kv_queues v q of
        None \<Rightarrow> Inl Fault
      | Some (cap, ms) \<Rightarrow>
          if length ms < cap then Inr (True, v\<lparr>kv_queues := (kv_queues v)(q \<mapsto> (cap, ms @ [m]))\<rparr>)
          else if t = portMAX_DELAY then Inl Blocked else Inr (False, v))"

definition kq_receive :: "qhandle \<Rightarrow> tick \<Rightarrow> 'z kview_scheme \<Rightarrow> (msg option \<times> 'z kview_scheme) exec" where
  "kq_receive q t v =
     (case kv_queues v q of
        None \<Rightarrow> Inl Fault
      | Some (cap, []) \<Rightarrow> if t = portMAX_DELAY then Inl Blocked else Inr (None, v)
      | Some (cap, m # ms) \<Rightarrow> Inr (Some m, v\<lparr>kv_queues := (kv_queues v)(q \<mapsto> (cap, ms))\<rparr>))"

definition ks_take :: "shandle \<Rightarrow> tick \<Rightarrow> 'z kview_scheme \<Rightarrow> (bool \<times> 'z kview_scheme) exec" where
  "ks_take h t v =
     (case kv_sems v h of
        None \<Rightarrow> Inl Fault
      | Some (mx, n) \<Rightarrow>
          if 0 < n then Inr (True, v\<lparr>kv_sems := (kv_sems v)(h \<mapsto> (mx, n - 1))\<rparr>)
          else if t = portMAX_DELAY then Inl Blocked else Inr (False, v))"

definition ks_give :: "shandle \<Rightarrow> 'z kview_scheme \<Rightarrow> 'z kview_scheme exec" where
  "ks_give h v =
     (case kv_sems v h of
        None \<Rightarrow> Inl Fault
      | Some (mx, n) \<Rightarrow> Inr (if n < mx then v\<lparr>kv_sems := (kv_sems v)(h \<mapsto> (mx, n + 1))\<rparr> else v))"

definition ks_count :: "shandle \<Rightarrow> 'z kview_scheme \<Rightarrow> nat exec" where
  "ks_count h v = (case kv_sems v h of None \<Rightarrow> Inl Fault | Some (mx, n) \<Rightarrow> Inr n)"

definition ks_delete :: "shandle \<Rightarrow> 'z kview_scheme \<Rightarrow> 'z kview_scheme exec" where
  "ks_delete h v =
     (case kv_sems v h of None \<Rightarrow> Inl Fault
      | Some _ \<Rightarrow> Inr (v\<lparr>kv_sems := (kv_sems v)(h := None)\<rparr>))"

definition kt_notify :: "task \<Rightarrow> 'z kview_scheme \<Rightarrow> 'z kview_scheme" where
  "kt_notify t v = v\<lparr>kv_notify := (kv_notify v)(t := Suc (kv_notify v t))\<rparr>"

definition kt_create :: "string \<Rightarrow> 'z kview_scheme \<Rightarrow> 'z kview_scheme" where
  "kt_create name v = v\<lparr>kv_tasks := kv_tasks v @ [name]\<rparr>"

text \<open>
  The task itself waits for a notification; \<open>clear\<close> resets the count instead of decrementing it.
\<close>

definition kt_take :: "task \<Rightarrow> bool \<Rightarrow> tick \<Rightarrow> 'z kview_scheme \<Rightarrow> (nat \<times> 'z kview_scheme) exec" where
  "kt_take t clear timeout v =
     (if kv_notify v t = 0 then if timeout = portMAX_DELAY then Inl Blocked else Inr (0, v)
      else Inr (kv_notify v t, v\<lparr>kv_notify := (kv_notify v)(t := if clear then 0 else kv_notify v t - 1)\<rparr>))"

text \<open>
  Timeouts: the code waits either not at all (0) or without limit (\<^verbatim>\<open>portMAX_DELAY\<close>); only these two
  are specified. A call that waits without limit for an object that only the caller itself would
  release is \<open>Blocked\<close>.
\<close>

locale rtos_contract =
  fixes R :: "'k rtos" and view :: "'k \<Rightarrow> kview"
  assumes send: "t = 0 \<or> t = portMAX_DELAY \<Longrightarrow>
      map_sum id (map_prod id view) (xQueueSend R q m t k) = kq_send q m t (view k)"
    and receive: "t = 0 \<or> t = portMAX_DELAY \<Longrightarrow>
      map_sum id (map_prod id view) (xQueueReceive R q t k) = kq_receive q t (view k)"
    and take_sem: "t = 0 \<or> t = portMAX_DELAY \<Longrightarrow>
      map_sum id (map_prod id view) (xSemaphoreTake R h t k) = ks_take h t (view k)"
    and give_sem: "map_sum id view (xSemaphoreGive R h k) = ks_give h (view k)"
    and count_sem: "uxSemaphoreGetCount R h k = ks_count h (view k)"
    and delete_sem: "map_sum id view (vSemaphoreDelete R h k) = ks_delete h (view k)"
    and notify: "view (xTaskNotifyGive R tsk k) = kt_notify tsk (view k)"
    and take_notify: "t = 0 \<or> t = portMAX_DELAY \<Longrightarrow>
      map_sum id (map_prod id view) (ulTaskNotifyTake R clear t k) =
        kt_take (xTaskGetCurrentTaskHandle R k) clear t (view k)"
    and create_queue: "xQueueCreate R n k = (Some q, k') \<Longrightarrow> kv_queues (view k) q = None \<and>
      view k' = (view k)\<lparr>kv_queues := (kv_queues (view k))(q \<mapsto> (n, []))\<rparr>"
    and create_queue_fail: "xQueueCreate R n k = (None, k') \<Longrightarrow> view k' = view k"
    and create_sem: "xSemaphoreCreateCounting R mx n k = (Some h, k') \<Longrightarrow>
      kv_sems (view k) h = None \<and>
      view k' = (view k)\<lparr>kv_sems := (kv_sems (view k))(h \<mapsto> (mx, n))\<rparr>"
    and create_sem_fail: "xSemaphoreCreateCounting R mx n k = (None, k') \<Longrightarrow> view k' = view k"
    and create_set: "view (snd (xQueueCreateSet R n k)) = view k"
    and add_to_set: "view (xQueueAddToSet R q qs k) = view k"
    and create_task: "view (snd (xTaskCreate R name k)) =
      (if fst (xTaskCreate R name k) then kt_create name (view k) else view k)"
    and transmit: "view (snd (esp_wifi_internal_tx R bs k)) = view k"
begin

text \<open>What a caller learns from the result of each call.\<close>

lemma send_Inr:
  assumes "t = 0 \<or> t = portMAX_DELAY" and "xQueueSend R q m t k = Inr (ok, k')"
  shows "kq_send q m t (view k) = Inr (ok, view k')"
  using send[OF assms(1), of q m k] assms(2) by simp

lemma receive_Inr:
  assumes "t = 0 \<or> t = portMAX_DELAY" and "xQueueReceive R q t k = Inr (mo, k')"
  shows "kq_receive q t (view k) = Inr (mo, view k')"
  using receive[OF assms(1), of q k] assms(2) by simp

lemma take_Inr:
  assumes "t = 0 \<or> t = portMAX_DELAY" and "xSemaphoreTake R h t k = Inr (ok, k')"
  shows "ks_take h t (view k) = Inr (ok, view k')"
  using take_sem[OF assms(1), of h k] assms(2) by simp

lemma give_Inr: "xSemaphoreGive R h k = Inr k' \<Longrightarrow> ks_give h (view k) = Inr (view k')"
  using give_sem[of h k] by simp

lemma delete_Inr: "vSemaphoreDelete R h k = Inr k' \<Longrightarrow> ks_delete h (view k) = Inr (view k')"
  using delete_sem[of h k] by simp

lemma fold_notify:
  "view (fold (xTaskNotifyGive R) ts k) = fold kt_notify ts (view k)"
  by (induction ts arbitrary: k) (simp_all add: notify)

end

section \<open>Queues that hold one kind of item\<close>

definition queue_holds :: "(msg \<Rightarrow> bool) \<Rightarrow> kview \<Rightarrow> qhandle option \<Rightarrow> bool" where
  "queue_holds P v qo \<longleftrightarrow>
     (\<exists>q cap ms. qo = Some q \<and> kv_queues v q = Some (cap, ms) \<and> (\<forall>m\<in>set ms. P m))"

definition queue_items :: "kview \<Rightarrow> qhandle option \<Rightarrow> msg list" where
  "queue_items v qo =
     (case qo of None \<Rightarrow> []
      | Some q \<Rightarrow> (case kv_queues v q of None \<Rightarrow> [] | Some (cap, ms) \<Rightarrow> ms))"

definition queue_room :: "kview \<Rightarrow> qhandle option \<Rightarrow> bool" where
  "queue_room v qo =
     (case qo of None \<Rightarrow> False
      | Some q \<Rightarrow> (case kv_queues v q of None \<Rightarrow> False | Some (cap, ms) \<Rightarrow> length ms < cap))"

text \<open>The objects with one more item at the end of a queue, and with another count of a semaphore.\<close>

definition kv_push :: "qhandle option \<Rightarrow> msg \<Rightarrow> kview \<Rightarrow> kview" where
  "kv_push qo m v =
     (case qo of None \<Rightarrow> v
      | Some q \<Rightarrow> (case kv_queues v q of None \<Rightarrow> v
          | Some (cap, ms) \<Rightarrow> v\<lparr>kv_queues := (kv_queues v)(q \<mapsto> (cap, ms @ [m]))\<rparr>))"

definition kv_count :: "shandle \<Rightarrow> nat \<Rightarrow> kview \<Rightarrow> kview" where
  "kv_count h n v =
     v\<lparr>kv_sems := (kv_sems v)(h := (case kv_sems v h of None \<Rightarrow> None | Some (mx, _) \<Rightarrow> Some (mx, n)))\<rparr>"

lemma kv_count_sel [simp]:
  "kv_queues (kv_count h n v) = kv_queues v" "kv_notify (kv_count h n v) = kv_notify v"
  "kv_driver (kv_count h n v) = kv_driver v"
  by (simp_all add: kv_count_def)

lemma kv_count_twice [simp]: "kv_count h n (kv_count h m v) = kv_count h n v"
  by (simp add: kv_count_def split: option.splits)

lemma kv_count_same: "kv_sems v h = Some (mx, n) \<Longrightarrow> kv_count h n v = v"
  by (simp add: kv_count_def fun_upd_idem)

lemma kv_count_at: "kv_sems v h = Some (mx, m) \<Longrightarrow> kv_sems (kv_count h n v) h = Some (mx, n)"
  by (simp add: kv_count_def)

lemma kv_push_sel [simp]: "kv_sems (kv_push qo m v) = kv_sems v" "kv_notify (kv_push qo m v) = kv_notify v"
  "kv_driver (kv_push qo m v) = kv_driver v"
  by (simp_all add: kv_push_def split: option.splits)

lemma queue_items_push:
  "queue_room v qo \<Longrightarrow> queue_items (kv_push qo m v) qo = queue_items v qo @ [m]"
  by (auto simp: queue_room_def queue_items_def kv_push_def split: option.splits)

lemma queue_items_push_other:
  "qo \<noteq> qo' \<Longrightarrow> queue_items (kv_push qo m v) qo' = queue_items v qo'"
  by (auto simp: queue_items_def kv_push_def split: option.splits)

lemma queue_holds_push:
  "queue_holds P v qo \<Longrightarrow> (qo = qo' \<Longrightarrow> P m) \<Longrightarrow> queue_holds P (kv_push qo' m v) qo"
  by (cases "qo = qo'") (auto simp: queue_holds_def kv_push_def split: option.splits)

lemma queue_room_cong: "kv_queues v = kv_queues v' \<Longrightarrow> queue_room v qo = queue_room v' qo"
  by (cases qo) (simp_all add: queue_room_def)

lemma queue_items_cong: "kv_queues v = kv_queues v' \<Longrightarrow> queue_items v qo = queue_items v' qo"
  by (cases qo) (simp_all add: queue_items_def)

lemma kt_notify_sel [simp]:
  "kv_queues (kt_notify t v) = kv_queues v" "kv_sems (kt_notify t v) = kv_sems v"
  "kv_driver (kt_notify t v) = kv_driver v"
  by (simp_all add: kt_notify_def)

lemma kt_create_sel [simp]:
  "kv_queues (kt_create name v) = kv_queues v" "kv_sems (kt_create name v) = kv_sems v"
  "kv_notify (kt_create name v) = kv_notify v" "kv_driver (kt_create name v) = kv_driver v"
  "kv_tasks (kt_create name v) = kv_tasks v @ [name]"
  by (simp_all add: kt_create_def)

lemma kv_notify_fold:
  "kv_notify (fold kt_notify ts v) t = kv_notify v t + count_list ts t"
  by (induction ts arbitrary: v) (auto simp: kt_notify_def)

lemma kv_queues_fold [simp]: "kv_queues (fold kt_notify ts v) = kv_queues v"
  by (induction ts arbitrary: v) simp_all

lemma kv_sems_fold [simp]: "kv_sems (fold kt_notify ts v) = kv_sems v"
  by (induction ts arbitrary: v) simp_all

section \<open>A reference kernel\<close>

text \<open>
  The contract can be met: a kernel whose state is the view itself, with a supply of handles, a clock
  and the frames handed to the driver. The witnesses of the properties run on it.
\<close>

record refk = kview +
  rk_next :: nat
  rk_tick :: tick
  rk_task :: task
  rk_air :: "bytes list"

definition ref_rtos :: "refk rtos" where
  "ref_rtos = \<lparr>
     xQueueCreate = (\<lambda>n k. if kv_queues k (rk_next k) = None
        then (Some (rk_next k),
              k\<lparr>kv_queues := (kv_queues k)(rk_next k \<mapsto> (n, [])), rk_next := Suc (rk_next k)\<rparr>)
        else (None, k)),
     xQueueSend = kq_send,
     xQueueReceive = kq_receive,
     xQueueCreateSet = (\<lambda>n k. (Some (rk_next k), k\<lparr>rk_next := Suc (rk_next k)\<rparr>)),
     xQueueAddToSet = (\<lambda>q qs k. k),
     xSemaphoreCreateCounting = (\<lambda>mx n k. if kv_sems k (rk_next k) = None
        then (Some (rk_next k),
              k\<lparr>kv_sems := (kv_sems k)(rk_next k \<mapsto> (mx, n)), rk_next := Suc (rk_next k)\<rparr>)
        else (None, k)),
     xSemaphoreTake = ks_take,
     xSemaphoreGive = ks_give,
     uxSemaphoreGetCount = ks_count,
     vSemaphoreDelete = ks_delete,
     xTaskCreate = (\<lambda>name k. (True, kt_create name k)),
     xTaskGetTickCount = rk_tick,
     pdMS_TO_TICKS = (\<lambda>ms. ms div 10),
     xTaskGetCurrentTaskHandle = rk_task,
     xTaskNotifyGive = kt_notify,
     ulTaskNotifyTake = (\<lambda>clear t k. kt_take (rk_task k) clear t k),
     esp_wifi_internal_tx = (\<lambda>bs k. (ESP_OK, k\<lparr>rk_air := rk_air k @ [bs]\<rparr>))\<rparr>"

definition ref_init :: refk where
  "ref_init = \<lparr>kv_queues = (\<lambda>_. None), kv_sems = (\<lambda>_. None), kv_notify = (\<lambda>_. 0),
     kv_driver = \<lparr>wd_mac = MAC 0x30 0x83 0x98 0x94 0xEC 0x1B, wd_rx_buffers = (\<lambda>_. 0), wd_rxcb = None,
       wd_event_handlers = {}\<rparr>, kv_tasks = [],
     rk_next = 0, rk_tick = 0, rk_task = 0, rk_air = []\<rparr>"

lemma ref_rtos_sel [simp]:
  "xQueueSend ref_rtos = kq_send" "xQueueReceive ref_rtos = kq_receive"
  "xSemaphoreTake ref_rtos = ks_take" "xSemaphoreGive ref_rtos = ks_give"
  "uxSemaphoreGetCount ref_rtos = ks_count" "vSemaphoreDelete ref_rtos = ks_delete"
  "xTaskGetTickCount ref_rtos = rk_tick" "xTaskGetCurrentTaskHandle ref_rtos = rk_task"
  "xTaskNotifyGive ref_rtos = kt_notify"
  by (simp_all add: ref_rtos_def)

lemmas ref_defs = ref_rtos_def ref_init_def kq_send_def kq_receive_def ks_take_def ks_give_def
  ks_count_def ks_delete_def kt_notify_def kt_take_def
  kt_create_def

interpretation refk: rtos_contract ref_rtos kview.truncate
  by unfold_locales
     (auto simp: ref_rtos_def kq_send_def kq_receive_def ks_take_def ks_give_def ks_count_def
        ks_delete_def kt_notify_def kt_take_def kt_create_def kview.truncate_def split: option.splits list.splits if_splits)

end
