(* ===== verification/Net_State.thy ===== *)
theory Net_State
  imports Rtos
begin

text \<open>
  The part of the program state that every protocol uses: the kernel, the C heap, the address of this
  host (\<^verbatim>\<open>self_net\<close>, one common symbol shared by \<^verbatim>\<open>ipv4.c\<close>, \<^verbatim>\<open>icmpv4.c\<close>, \<^verbatim>\<open>udp.c\<close> and \<^verbatim>\<open>tcp.c\<close>) and
  the handle of the IPv4 transmit queue. The components extend this record with their own globals.
  The heap has explicit addresses, so that leaks, double frees and writes past the end of a block are
  visible: \<^verbatim>\<open>malloc\<close> may fail at any time (\<open>oom\<close>) and returns uninitialised bytes (\<open>junk\<close>).
\<close>

section \<open>The C heap\<close>

record cheap =
  cells :: "addr \<Rightarrow> bytes option"
  brk :: addr
  oom :: "addr \<Rightarrow> bool"
  junk :: "addr \<Rightarrow> nat \<Rightarrow> u8"

record 'k net_base =
  kern :: 'k
  heap :: cheap
  self_net :: net_context
  ipv4_transmit_queue :: "qhandle option"

type_synonym ('k, 'z) base = "('k, 'z) net_base_scheme"

definition malloc :: "nat \<Rightarrow> ('k, 'z) base \<Rightarrow> ptr \<times> ('k, 'z) base" where
  "malloc n s =
     (let h = heap s; a = brk h in
      if oom h a then (None, s\<lparr>heap := h\<lparr>brk := Suc a\<rparr>\<rparr>)
      else (Some a, s\<lparr>heap := h\<lparr>cells := (cells h)(a \<mapsto> map (junk h a) [0..<n]), brk := Suc a\<rparr>\<rparr>))"

definition free :: "ptr \<Rightarrow> ('k, 'z) base \<Rightarrow> ('k, 'z) base exec" where
  "free p s =
     (case p of
        None \<Rightarrow> Inr s
      | Some a \<Rightarrow>
          (case cells (heap s) a of
             None \<Rightarrow> Inl Fault
           | Some _ \<Rightarrow> Inr (s\<lparr>heap := (heap s)\<lparr>cells := (cells (heap s))(a := None)\<rparr>\<rparr>)))"

text \<open>Reading the first \<open>n\<close> bytes of a block, writing bytes at an offset of a block.\<close>

definition heap_read :: "ptr \<Rightarrow> nat \<Rightarrow> ('k, 'z) base \<Rightarrow> bytes exec" where
  "heap_read p n s =
     (if n = 0 then Inr []
      else case p of
        None \<Rightarrow> Inl Fault
      | Some a \<Rightarrow>
          (case cells (heap s) a of None \<Rightarrow> Inl Fault | Some bs \<Rightarrow> read_bytes bs 0 n))"

definition heap_write :: "ptr \<Rightarrow> nat \<Rightarrow> bytes \<Rightarrow> ('k, 'z) base \<Rightarrow> ('k, 'z) base exec" where
  "heap_write p off bs s =
     (case p of
        None \<Rightarrow> Inl Fault
      | Some a \<Rightarrow>
          (case cells (heap s) a of
             None \<Rightarrow> Inl Fault
           | Some blk \<Rightarrow> rbind (write_bytes off bs blk) (\<lambda>blk'.
               Inr (s\<lparr>heap := (heap s)\<lparr>cells := (cells (heap s))(a \<mapsto> blk')\<rparr>\<rparr>))))"

text \<open>Blocks are below the break, so a fresh block never aliases a live one.\<close>

definition heap_ok :: "('k, 'z) base \<Rightarrow> bool" where
  "heap_ok s \<longleftrightarrow> (\<forall>a. cells (heap s) a \<noteq> None \<longrightarrow> a < brk (heap s))"

text \<open>Two states with the same live blocks: nothing was leaked and nothing was lost in between.\<close>

definition same_cells :: "('k, 'z) base \<Rightarrow> ('k, 'y) base \<Rightarrow> bool" where
  "same_cells s t \<longleftrightarrow> cells (heap s) = cells (heap t)"

text \<open>One more address used up: what is left of a block that was allocated and freed again.\<close>

definition bump :: "('k, 'z) base \<Rightarrow> ('k, 'z) base" where
  "bump s = s\<lparr>heap := (heap s)\<lparr>brk := Suc (brk (heap s))\<rparr>\<rparr>"

lemma bump_sel [simp]:
  "kern (bump s) = kern s" "self_net (bump s) = self_net s"
  "ipv4_transmit_queue (bump s) = ipv4_transmit_queue s"
  "cells (heap (bump s)) = cells (heap s)" "net_base.more (bump s) = net_base.more s"
  "oom (heap (bump s)) = oom (heap s)" "junk (heap (bump s)) = junk (heap s)"
  "brk (heap (bump s)) = Suc (brk (heap s))"
  by (simp_all add: bump_def)

lemma heap_ok_bump [simp]: "heap_ok s \<Longrightarrow> heap_ok (bump s)"
  by (auto simp: heap_ok_def less_SucI)

lemma same_cells_bump [simp]: "same_cells (bump s) s"
  by (simp add: same_cells_def)

lemma heap_ok_kern [simp]: "heap_ok (s\<lparr>kern := k\<rparr>) = heap_ok s"
  by (simp add: heap_ok_def)

lemma bump_kern: "bump (s\<lparr>kern := k\<rparr>) = (bump s)\<lparr>kern := k\<rparr>"
  by (simp add: bump_def)

lemma heap_ok_fresh: "heap_ok s \<Longrightarrow> cells (heap s) (brk (heap s)) = None"
  by (auto simp: heap_ok_def)

lemma malloc_None: "malloc n s = (None, s') \<Longrightarrow> oom (heap s) (brk (heap s)) \<and>
    s' = s\<lparr>heap := (heap s)\<lparr>brk := Suc (brk (heap s))\<rparr>\<rparr>"
  by (auto simp: malloc_def Let_def split: if_splits)

lemma malloc_Some: "malloc n s = (Some a, s') \<Longrightarrow> \<not> oom (heap s) a \<and> a = brk (heap s) \<and>
    s' = s\<lparr>heap := (heap s)\<lparr>cells := (cells (heap s))(a \<mapsto> map (junk (heap s) a) [0..<n]),
                            brk := Suc a\<rparr>\<rparr>"
  by (auto simp: malloc_def Let_def split: if_splits)

lemma heap_ok_malloc: "heap_ok s \<Longrightarrow> malloc n s = (p, s') \<Longrightarrow> heap_ok s'"
  by (auto simp: heap_ok_def malloc_def Let_def less_Suc_eq split: if_splits)

lemma heap_ok_free: "heap_ok s \<Longrightarrow> free p s = Inr s' \<Longrightarrow> heap_ok s'"
  by (auto simp: heap_ok_def free_def split: option.splits if_splits)

lemma free_None [simp]: "free None s = Inr s"
  by (simp add: free_def)

lemma heap_read_0 [simp]: "heap_read p 0 s = Inr []"
  by (simp add: heap_read_def)

section \<open>Filling a fresh block\<close>

text \<open>The state with one more block at \<open>a\<close>, the next address.\<close>

definition with_block :: "addr \<Rightarrow> bytes \<Rightarrow> ('k, 'z) base \<Rightarrow> ('k, 'z) base" where
  "with_block a blk s = s\<lparr>heap := (heap s)\<lparr>brk := Suc (brk (heap s)), cells := (cells (heap s))(a \<mapsto> blk)\<rparr>\<rparr>"

lemma malloc_with_block:
  "malloc n s =
     (if oom (heap s) (brk (heap s)) then (None, bump s)
      else (Some (brk (heap s)),
            with_block (brk (heap s)) (map (junk (heap s) (brk (heap s))) [0..<n]) s))"
  by (simp add: malloc_def bump_def with_block_def Let_def)

lemma heap_write_with_block [simp]:
  "heap_write (Some a) off bs (with_block a blk s) =
     rbind (write_bytes off bs blk) (\<lambda>blk'. Inr (with_block a blk' s))"
  by (simp add: heap_write_def with_block_def)

lemma heap_read_with_block [simp]:
  "heap_read (Some a) n (with_block a blk s) = read_bytes blk 0 n"
  by (simp add: heap_read_def with_block_def)

lemma heap_read_other_block:
  assumes "heap_ok s" and "heap_read p n s = Inr bs"
  shows "heap_read p n (with_block (brk (heap s)) blk s) = Inr bs"
  using assms by (auto simp: heap_read_def with_block_def heap_ok_def split: option.splits if_splits)

lemma with_block_sel [simp]:
  "kern (with_block a blk s) = kern s" "self_net (with_block a blk s) = self_net s"
  "ipv4_transmit_queue (with_block a blk s) = ipv4_transmit_queue s"
  "brk (heap (with_block a blk s)) = Suc (brk (heap s))"
  "cells (heap (with_block a blk s)) = (cells (heap s))(a \<mapsto> blk)"
  "oom (heap (with_block a blk s)) = oom (heap s)" "junk (heap (with_block a blk s)) = junk (heap s)"
  by (simp_all add: with_block_def)

lemma heap_ok_with_block: "heap_ok s \<Longrightarrow> heap_ok (with_block (brk (heap s)) blk s)"
  by (auto simp: heap_ok_def less_SucI)

lemma free_with_block:
  "heap_ok s \<Longrightarrow> free (Some (brk (heap s))) (with_block (brk (heap s)) blk s) = Inr (bump s)"
  using heap_ok_fresh[of s] by (simp add: free_def with_block_def bump_def fun_upd_idem)

text \<open>The state without the block at \<open>a\<close>.\<close>

definition release :: "addr \<Rightarrow> ('k, 'z) base \<Rightarrow> ('k, 'z) base" where
  "release a s = s\<lparr>heap := (heap s)\<lparr>cells := (cells (heap s))(a := None)\<rparr>\<rparr>"

lemma free_release: "cells (heap s) a = Some b \<Longrightarrow> free (Some a) s = Inr (release a s)"
  by (simp add: free_def release_def)

lemma release_sel [simp]:
  "kern (release a s) = kern s" "self_net (release a s) = self_net s"
  "ipv4_transmit_queue (release a s) = ipv4_transmit_queue s"
  "cells (heap (release a s)) = (cells (heap s))(a := None)"
  "brk (heap (release a s)) = brk (heap s)" "oom (heap (release a s)) = oom (heap s)"
  "junk (heap (release a s)) = junk (heap s)"
  by (simp_all add: release_def)

lemma heap_ok_release [simp]: "heap_ok s \<Longrightarrow> heap_ok (release a s)"
  by (auto simp: heap_ok_def)

lemma release_kern: "release a (s\<lparr>kern := k\<rparr>) = (release a s)\<lparr>kern := k\<rparr>"
  by (simp add: release_def)

lemma heap_ok_live: "heap_ok s \<Longrightarrow> cells (heap s) a = Some b \<Longrightarrow> a < brk (heap s)"
  by (auto simp: heap_ok_def)

lemma write_bytes_front:
  "length xs \<le> length buf \<Longrightarrow> write_bytes 0 xs buf = Inr (xs @ drop (length xs) buf)"
  by (simp add: write_bytes_def)

lemma write_bytes_next:
  "n = length pre \<Longrightarrow> length ys \<le> length buf \<Longrightarrow>
   write_bytes n ys (pre @ buf) = Inr (pre @ ys @ drop (length ys) buf)"
  by (simp add: write_bytes_def)

lemma write_bytes_over:
  "length ys = length mid \<Longrightarrow> n = length pre \<Longrightarrow>
   write_bytes n ys (pre @ mid @ post) = Inr (pre @ ys @ post)"
  by (simp add: write_bytes_def)

text \<open>Writing a header and then a payload that together fill the block.\<close>

lemma write_header_payload:
  assumes "length blk = length hdr + length pl"
  shows "rbind (write_bytes 0 hdr blk) (write_bytes (length hdr) pl) = Inr (hdr @ pl)"
  using assms by (simp add: write_bytes_front write_bytes_next)

section \<open>Kernel calls on the program state\<close>

definition q_send ::
  "'k rtos \<Rightarrow> qhandle option \<Rightarrow> msg \<Rightarrow> tick \<Rightarrow> ('k, 'z) base \<Rightarrow> (bool \<times> ('k, 'z) base) exec" where
  "q_send R qo m t s =
     (case qo of
        None \<Rightarrow> Inl Fault
      | Some q \<Rightarrow> rbind (xQueueSend R q m t (kern s)) (\<lambda>(ok, k). Inr (ok, s\<lparr>kern := k\<rparr>)))"

definition q_receive ::
  "'k rtos \<Rightarrow> qhandle option \<Rightarrow> tick \<Rightarrow> ('k, 'z) base \<Rightarrow> (msg option \<times> ('k, 'z) base) exec" where
  "q_receive R qo t s =
     (case qo of
        None \<Rightarrow> Inl Fault
      | Some q \<Rightarrow> rbind (xQueueReceive R q t (kern s)) (\<lambda>(mo, k). Inr (mo, s\<lparr>kern := k\<rparr>)))"

definition task_notify :: "'k rtos \<Rightarrow> task \<Rightarrow> ('k, 'z) base \<Rightarrow> ('k, 'z) base" where
  "task_notify R t s = s\<lparr>kern := xTaskNotifyGive R t (kern s)\<rparr>"

definition notify_take :: "'k rtos \<Rightarrow> bool \<Rightarrow> tick \<Rightarrow> ('k, 'z) base \<Rightarrow> (nat \<times> ('k, 'z) base) exec" where
  "notify_take R clear t s =
     rbind (ulTaskNotifyTake R clear t (kern s)) (\<lambda>(n, k). Inr (n, s\<lparr>kern := k\<rparr>))"

definition q_create :: "'k rtos \<Rightarrow> nat \<Rightarrow> ('k, 'z) base \<Rightarrow> qhandle option \<times> ('k, 'z) base" where
  "q_create R n s = (let (qo, k) = xQueueCreate R n (kern s) in (qo, s\<lparr>kern := k\<rparr>))"

definition qset_create :: "'k rtos \<Rightarrow> nat \<Rightarrow> ('k, 'z) base \<Rightarrow> qhandle option \<times> ('k, 'z) base" where
  "qset_create R n s = (let (qo, k) = xQueueCreateSet R n (kern s) in (qo, s\<lparr>kern := k\<rparr>))"

definition qset_add :: "'k rtos \<Rightarrow> qhandle option \<Rightarrow> qhandle option \<Rightarrow> ('k, 'z) base \<Rightarrow> ('k, 'z) base exec" where
  "qset_add R qo so s =
     (case (qo, so) of
        (Some q, Some qs) \<Rightarrow> Inr (s\<lparr>kern := xQueueAddToSet R q qs (kern s)\<rparr>)
      | _ \<Rightarrow> Inl Fault)"

definition task_create :: "'k rtos \<Rightarrow> string \<Rightarrow> ('k, 'z) base \<Rightarrow> bool \<times> ('k, 'z) base" where
  "task_create R name s = (let (ok, k) = xTaskCreate R name (kern s) in (ok, s\<lparr>kern := k\<rparr>))"

definition tick_count :: "'k rtos \<Rightarrow> ('k, 'z) base \<Rightarrow> tick" where
  "tick_count R s = xTaskGetTickCount R (kern s)"

definition sem_create :: "'k rtos \<Rightarrow> nat \<Rightarrow> nat \<Rightarrow> ('k, 'z) base \<Rightarrow> shandle option \<times> ('k, 'z) base" where
  "sem_create R mx n s = (let (ho, k) = xSemaphoreCreateCounting R mx n (kern s) in (ho, s\<lparr>kern := k\<rparr>))"

definition sem_take ::
  "'k rtos \<Rightarrow> shandle option \<Rightarrow> tick \<Rightarrow> ('k, 'z) base \<Rightarrow> (bool \<times> ('k, 'z) base) exec" where
  "sem_take R ho t s =
     (case ho of
        None \<Rightarrow> Inl Fault
      | Some h \<Rightarrow> rbind (xSemaphoreTake R h t (kern s)) (\<lambda>(ok, k). Inr (ok, s\<lparr>kern := k\<rparr>)))"

definition sem_give :: "'k rtos \<Rightarrow> shandle option \<Rightarrow> ('k, 'z) base \<Rightarrow> ('k, 'z) base exec" where
  "sem_give R ho s =
     (case ho of
        None \<Rightarrow> Inl Fault
      | Some h \<Rightarrow> rbind (xSemaphoreGive R h (kern s)) (\<lambda>k. Inr (s\<lparr>kern := k\<rparr>)))"

definition sem_count :: "'k rtos \<Rightarrow> shandle option \<Rightarrow> ('k, 'z) base \<Rightarrow> nat exec" where
  "sem_count R ho s = (case ho of None \<Rightarrow> Inl Fault | Some h \<Rightarrow> uxSemaphoreGetCount R h (kern s))"

definition sem_delete :: "'k rtos \<Rightarrow> shandle option \<Rightarrow> ('k, 'z) base \<Rightarrow> ('k, 'z) base exec" where
  "sem_delete R ho s =
     (case ho of
        None \<Rightarrow> Inl Fault
      | Some h \<Rightarrow> rbind (vSemaphoreDelete R h (kern s)) (\<lambda>k. Inr (s\<lparr>kern := k\<rparr>)))"

lemmas kcall_defs = q_send_def q_receive_def task_notify_def q_create_def qset_create_def
  qset_add_def task_create_def tick_count_def

lemma q_send_Inr:
  "q_send R qo m t s = Inr (ok, s') \<longleftrightarrow>
   (\<exists>q k. qo = Some q \<and> xQueueSend R q m t (kern s) = Inr (ok, k) \<and> s' = s\<lparr>kern := k\<rparr>)"
  by (auto simp: q_send_def rbind_eq_Inr split: option.splits)

lemma q_receive_Inr:
  "q_receive R qo t s = Inr (mo, s') \<longleftrightarrow>
   (\<exists>q k. qo = Some q \<and> xQueueReceive R q t (kern s) = Inr (mo, k) \<and> s' = s\<lparr>kern := k\<rparr>)"
  by (auto simp: q_receive_def rbind_eq_Inr split: option.splits)

section \<open>Sending and receiving under the kernel contract\<close>

context rtos_contract
begin

lemma q_receive_cases:
  assumes "queue_holds P (view (kern s)) qo"
  obtains (empty) k where "q_receive R qo 0 s = Inr (None, s\<lparr>kern := k\<rparr>)" "view k = view (kern s)"
    | (item) k m q cap ms where "q_receive R qo 0 s = Inr (Some m, s\<lparr>kern := k\<rparr>)" "P m"
        "qo = Some q" "kv_queues (view (kern s)) q = Some (cap, m # ms)"
        "view k = (view (kern s))\<lparr>kv_queues := (kv_queues (view (kern s)))(q \<mapsto> (cap, ms))\<rparr>"
proof -
  from assms obtain q cap ms where q: "qo = Some q" "kv_queues (view (kern s)) q = Some (cap, ms)"
    and P: "\<forall>m\<in>set ms. P m" by (auto simp: queue_holds_def)
  have law: "map_sum id (map_prod id view) (xQueueReceive R q 0 (kern s)) = kq_receive q 0 (view (kern s))"
    by (rule receive) simp
  show thesis
  proof (cases ms)
    case Nil
    with law q obtain k where "xQueueReceive R q 0 (kern s) = Inr (None, k)" "view k = view (kern s)"
      by (cases "xQueueReceive R q 0 (kern s)") (auto simp: kq_receive_def)
    then show thesis using q by (intro empty[of k]) (simp_all add: q_receive_def)
  next
    case (Cons m ms')
    with law q obtain k where "xQueueReceive R q 0 (kern s) = Inr (Some m, k)"
      "view k = (view (kern s))\<lparr>kv_queues := (kv_queues (view (kern s)))(q \<mapsto> (cap, ms'))\<rparr>"
      by (cases "xQueueReceive R q 0 (kern s)") (auto simp: kq_receive_def)
    then show thesis using q P Cons by (intro item[of m k q cap ms']) (simp_all add: q_receive_def)
  qed
qed

lemma q_receive_first:
  assumes "queue_items (view (kern s)) qo = m # ms"
  obtains k where "q_receive R qo 0 s = Inr (Some m, s\<lparr>kern := k\<rparr>)" "queue_items (view k) qo = ms"
    "kv_sems (view k) = kv_sems (view (kern s))" "\<And>q. q \<noteq> qo \<Longrightarrow> queue_items (view k) q = queue_items (view (kern s)) q"
    "\<And>q. q \<noteq> qo \<Longrightarrow> queue_room (view k) q = queue_room (view (kern s)) q"
proof -
  from assms obtain q cap where q: "qo = Some q" "kv_queues (view (kern s)) q = Some (cap, m # ms)"
    by (auto simp: queue_items_def split: option.splits)
  have "map_sum id (map_prod id view) (xQueueReceive R q 0 (kern s)) = kq_receive q 0 (view (kern s))"
    by (rule receive) simp
  with q obtain k where "xQueueReceive R q 0 (kern s) = Inr (Some m, k)"
    "view k = (view (kern s))\<lparr>kv_queues := (kv_queues (view (kern s)))(q \<mapsto> (cap, ms))\<rparr>"
    by (cases "xQueueReceive R q 0 (kern s)") (auto simp: kq_receive_def)
  then show thesis
    using q by (intro that[of k]) (auto simp: q_receive_def queue_items_def queue_room_def split: option.splits)
qed

lemma q_send_cases:
  assumes "queue_holds P (view (kern s)) qo"
  obtains (full) k where "q_send R qo m 0 s = Inr (False, s\<lparr>kern := k\<rparr>)" "view k = view (kern s)"
        "\<not> queue_room (view (kern s)) qo"
    | (sent) k q cap ms where "q_send R qo m 0 s = Inr (True, s\<lparr>kern := k\<rparr>)"
        "qo = Some q" "kv_queues (view (kern s)) q = Some (cap, ms)" "queue_room (view (kern s)) qo"
        "view k = (view (kern s))\<lparr>kv_queues := (kv_queues (view (kern s)))(q \<mapsto> (cap, ms @ [m]))\<rparr>"
proof -
  from assms obtain q cap ms where q: "qo = Some q" "kv_queues (view (kern s)) q = Some (cap, ms)"
    by (auto simp: queue_holds_def)
  have law: "map_sum id (map_prod id view) (xQueueSend R q m 0 (kern s)) = kq_send q m 0 (view (kern s))"
    by (rule send) simp
  show thesis
  proof (cases "length ms < cap")
    case True
    with law q obtain k where "xQueueSend R q m 0 (kern s) = Inr (True, k)"
      "view k = (view (kern s))\<lparr>kv_queues := (kv_queues (view (kern s)))(q \<mapsto> (cap, ms @ [m]))\<rparr>"
      by (cases "xQueueSend R q m 0 (kern s)") (auto simp: kq_send_def)
    then show thesis using q True by (intro sent[of k q cap ms]) (simp_all add: q_send_def queue_room_def)
  next
    case False
    with law q obtain k where "xQueueSend R q m 0 (kern s) = Inr (False, k)" "view k = view (kern s)"
      by (cases "xQueueSend R q m 0 (kern s)") (auto simp: kq_send_def)
    then show thesis using q False by (intro full[of k]) (simp_all add: q_send_def queue_room_def)
  qed
qed

lemma q_send_room:
  assumes "queue_room (view (kern s)) qo" and "t = 0 \<or> t = portMAX_DELAY"
  obtains k where "q_send R qo m t s = Inr (True, s\<lparr>kern := k\<rparr>)" "view k = kv_push qo m (view (kern s))"
proof -
  from assms(1) obtain q cap ms where q: "qo = Some q" "kv_queues (view (kern s)) q = Some (cap, ms)"
    "length ms < cap" by (auto simp: queue_room_def split: option.splits)
  have "map_sum id (map_prod id view) (xQueueSend R q m t (kern s)) = kq_send q m t (view (kern s))"
    using assms(2) by (rule send)
  with q obtain k where "xQueueSend R q m t (kern s) = Inr (True, k)" "view k = kv_push qo m (view (kern s))"
    by (cases "xQueueSend R q m t (kern s)") (auto simp: kq_send_def kv_push_def)
  then show thesis using q(1) by (intro that[of k]) (simp_all add: q_send_def)
qed

text \<open>Waiting for a notification: it returns and clears the count, or sleeps when there is none.\<close>

lemma notify_take_cases:
  obtains (asleep) "notify_take R True portMAX_DELAY s = Inl Blocked"
      "kv_notify (view (kern s)) (xTaskGetCurrentTaskHandle R (kern s)) = 0"
    | (woken) n k where "notify_take R True portMAX_DELAY s = Inr (n, s\<lparr>kern := k\<rparr>)"
      "0 < kv_notify (view (kern s)) (xTaskGetCurrentTaskHandle R (kern s))"
      "view k = (view (kern s))\<lparr>kv_notify := (kv_notify (view (kern s)))(xTaskGetCurrentTaskHandle R (kern s) := 0)\<rparr>"
proof (cases "kv_notify (view (kern s)) (xTaskGetCurrentTaskHandle R (kern s))")
  case 0
  then have "ulTaskNotifyTake R True portMAX_DELAY (kern s) = Inl Blocked"
    using take_notify[of portMAX_DELAY True "kern s"]
    by (cases "ulTaskNotifyTake R True portMAX_DELAY (kern s)") (auto simp: kt_take_def)
  with 0 show thesis by (intro asleep) (simp_all add: notify_take_def)
next
  case (Suc n)
  then obtain m k where "ulTaskNotifyTake R True portMAX_DELAY (kern s) = Inr (m, k)"
    "view k = (view (kern s))\<lparr>kv_notify := (kv_notify (view (kern s)))(xTaskGetCurrentTaskHandle R (kern s) := 0)\<rparr>"
    using take_notify[of portMAX_DELAY True "kern s"]
    by (cases "ulTaskNotifyTake R True portMAX_DELAY (kern s)") (auto simp: kt_take_def)
  with Suc show thesis by (intro woken[of m k]) (simp_all add: notify_take_def)
qed

lemma sem_give_ok:
  assumes "kv_sems (view (kern s)) h = Some (mx, n)" and "n \<le> mx"
  obtains k where "sem_give R (Some h) s = Inr (s\<lparr>kern := k\<rparr>)"
    "view k = kv_count h (min mx (Suc n)) (view (kern s))"
proof -
  have "map_sum id view (xSemaphoreGive R h (kern s)) = ks_give h (view (kern s))" by (rule give_sem)
  moreover have "ks_give h (view (kern s)) = Inr (kv_count h (min mx (Suc n)) (view (kern s)))"
    using assms by (cases "n = mx") (simp_all add: ks_give_def kv_count_same, simp add: kv_count_def)
  ultimately obtain k where "xSemaphoreGive R h (kern s) = Inr k"
    "view k = kv_count h (min mx (Suc n)) (view (kern s))"
    by (cases "xSemaphoreGive R h (kern s)") auto
  then show thesis by (intro that[of k]) (simp_all add: sem_give_def)
qed

lemma sem_take_ok:
  assumes "kv_sems (view (kern s)) h = Some (mx, Suc n)" and "t = 0 \<or> t = portMAX_DELAY"
  obtains k where "sem_take R (Some h) t s = Inr (True, s\<lparr>kern := k\<rparr>)"
    "view k = kv_count h n (view (kern s))"
proof -
  have "map_sum id (map_prod id view) (xSemaphoreTake R h t (kern s)) = ks_take h t (view (kern s))"
    using assms(2) by (rule take_sem)
  with assms(1) obtain k where "xSemaphoreTake R h t (kern s) = Inr (True, k)"
    "view k = kv_count h n (view (kern s))"
    by (cases "xSemaphoreTake R h t (kern s)") (auto simp: ks_take_def kv_count_def)
  then show thesis by (intro that[of k]) (simp_all add: sem_take_def)
qed

lemma sem_delete_ok:
  assumes "kv_sems (view (kern s)) h = Some c"
  obtains k where "sem_delete R (Some h) s = Inr (s\<lparr>kern := k\<rparr>)"
    "view k = (view (kern s))\<lparr>kv_sems := (kv_sems (view (kern s)))(h := None)\<rparr>"
proof -
  have "map_sum id view (vSemaphoreDelete R h (kern s)) = ks_delete h (view (kern s))" by (rule delete_sem)
  with assms obtain k where "vSemaphoreDelete R h (kern s) = Inr k"
    "view k = (view (kern s))\<lparr>kv_sems := (kv_sems (view (kern s)))(h := None)\<rparr>"
    by (cases "vSemaphoreDelete R h (kern s)") (auto simp: ks_delete_def)
  then show thesis by (intro that[of k]) (simp_all add: sem_delete_def)
qed

lemma sem_count_ok: "kv_sems (view (kern s)) h = Some (mx, n) \<Longrightarrow> sem_count R (Some h) s = Inr n"
  by (simp add: sem_count_def count_sem ks_count_def)

end

section \<open>A concrete starting state\<close>

text \<open>
  An empty heap in which no allocation fails, over any kernel state: used by the witnesses.
\<close>

definition heap0 :: cheap where
  "heap0 = \<lparr>cells = (\<lambda>_. None), brk = 0, oom = (\<lambda>_. False), junk = (\<lambda>_ _. 0xAA)\<rparr>"

definition base0 :: "'k \<Rightarrow> 'k net_base" where
  "base0 k = \<lparr>kern = k, heap = heap0,
     self_net = \<lparr>nc_mac = MAC 0x30 0x83 0x98 0x94 0xEC 0x1B, nc_ip = IPv4 192 168 1 230\<rparr>,
     ipv4_transmit_queue = None\<rparr>"

lemma heap_ok_base0 [simp]: "heap_ok (base0 k)"
  by (simp add: heap_ok_def base0_def heap0_def)

end
