(* ===== verification/Eth.thy ===== *)
theory Eth
  imports Net_State
begin

text \<open>
  The Ethernet layer (\<^verbatim>\<open>protocols/eth.c\<close>) and the driver wrapper (\<^verbatim>\<open>utility/wifi_tx.c\<close>).
\<close>

definition wifi_tx_raw :: "'k rtos \<Rightarrow> ptr \<Rightarrow> u16 \<Rightarrow> ('k, 'z) base \<Rightarrow> (esp_err \<times> ('k, 'z) base) exec" where
  "wifi_tx_raw R data len s =
     rbind (heap_read data (unat len) s) (\<lambda>bs.
     (let (e, k) = esp_wifi_internal_tx R bs (kern s) in Inr (e, s\<lparr>kern := k\<rparr>)))"

definition eth_tx ::
  "'k rtos \<Rightarrow> mac_addr \<Rightarrow> mac_addr \<Rightarrow> u16 \<Rightarrow> bytes \<Rightarrow> u16 \<Rightarrow> ('k, 'z) base
    \<Rightarrow> (esp_err \<times> ('k, 'z) base) exec" where
  "eth_tx R dst_mac src_mac ethertype payload payload_len s =
     (let eth_frame_len = 14 + payload_len;
          (eth_frame, s) = malloc (unat eth_frame_len) s in
      if eth_frame = None then Inr (ESP_ERR_NO_MEM, s)
      else
        rbind (heap_write eth_frame 0 (mac_bytes dst_mac) s) (\<lambda>s.
        rbind (heap_write eth_frame 6 (mac_bytes src_mac) s) (\<lambda>s.
        rbind (heap_write eth_frame 12 (store16 ethertype) s) (\<lambda>s.
        rbind (read_bytes payload 0 (unat payload_len)) (\<lambda>pl.
        rbind (heap_write eth_frame 14 pl s) (\<lambda>s.
        rbind (wifi_tx_raw R eth_frame eth_frame_len s) (\<lambda>(result, s).
        rbind (free eth_frame s) (\<lambda>s.
        Inr (result, s)))))))))"

section \<open>The frame on the air\<close>

definition eth_frame_bytes :: "mac_addr \<Rightarrow> mac_addr \<Rightarrow> u16 \<Rightarrow> bytes \<Rightarrow> bytes" where
  "eth_frame_bytes dst src ethertype pl = mac_bytes dst @ mac_bytes src @ store16 ethertype @ pl"

lemma length_eth_frame_bytes [simp]: "length (eth_frame_bytes d s e pl) = 14 + length pl"
  by (simp add: eth_frame_bytes_def)

lemma write_bytes_fault: "length blk < off + length bs \<Longrightarrow> write_bytes off bs blk = Inl Fault"
  by (simp add: write_bytes_def)

text \<open>A block that is not exactly 14 bytes longer than the payload cannot be filled.\<close>

lemma unat_frame_len:
  "unat (14 + len :: u16) = (if unat len \<le> 65521 then 14 + unat len else unat len - 65522)"
  by (auto simp: unat_plus_u16)

lemma eth_tx_eq:
  assumes "heap_ok s"
  shows "eth_tx R d sr e payload len s =
     (if oom (heap s) (brk (heap s)) then Inr (ESP_ERR_NO_MEM, bump s)
      else if 65521 < unat len \<or> length payload < unat len then Inl Fault
      else let (result, k) = esp_wifi_internal_tx R
                 (eth_frame_bytes d sr e (take (unat len) payload)) (kern s)
           in Inr (result, (bump s)\<lparr>kern := k\<rparr>))"
proof -
  let ?a = "brk (heap s)" and ?n = "unat (14 + len)"
  have fresh: "cells (heap s) ?a = None" using assms by (rule heap_ok_fresh)
  then have undo: "(cells (heap s))(?a := None) = cells (heap s)" by auto
  show ?thesis
  proof (cases "65521 < unat len")
    case True
    then have "?n = unat len - 65522" by (simp add: unat_frame_len)
    then have "?n < 14" using unat_less_65536[of len] by linarith
    with True show ?thesis
      by (auto simp: eth_tx_def malloc_def bump_def Let_def heap_write_def rbind_def write_bytes_def
          split: sum.splits)
  next
    case False
    then have n: "?n = 14 + unat len" by (simp add: unat_frame_len)
    show ?thesis
      using False
      by (auto simp: eth_tx_def malloc_def bump_def Let_def heap_write_def n write_bytes_def
          wifi_tx_raw_def heap_read_def free_def undo read_bytes_def eth_frame_bytes_def min_def
          fun_upd_idem split: prod.splits)
  qed
qed

lemma eth_tx_Inr:
  assumes "heap_ok s" and "eth_tx R d sr e payload len s = Inr (result, s')"
  shows "s' = bump s \<or>
     (\<exists>fr. s' = (bump s)\<lparr>kern := snd (esp_wifi_internal_tx R fr (kern s))\<rparr>)"
  using assms(2) unfolding eth_tx_eq[OF assms(1)]
  by (simp add: Let_def split: if_splits prod.splits) (metis snd_conv)

section \<open>Properties\<close>

text \<open>
  C21: \<^verbatim>\<open>eth_tx\<close> hands the driver exactly one frame, destination address, source address, EtherType
  and payload in that order, returns the driver's result, and leaves no block behind; when the
  allocation fails it transmits nothing and returns \<open>ESP_ERR_NO_MEM\<close>. A payload of more than 65521
  bytes makes the 16-bit frame length wrap and the copy overruns the block.
\<close>

theorem eth_tx_correct:
  assumes "heap_ok s"
  shows "eth_tx R dst src ethertype payload len s =
     (if oom (heap s) (brk (heap s)) then Inr (ESP_ERR_NO_MEM, bump s)
      else if 65521 < unat len \<or> length payload < unat len then Inl Fault
      else let (result, k) = esp_wifi_internal_tx R
                 (mac_bytes dst @ mac_bytes src @ store16 ethertype @ take (unat len) payload) (kern s)
           in Inr (result, (bump s)\<lparr>kern := k\<rparr>))"
  using eth_tx_eq[OF assms] by (simp add: eth_frame_bytes_def)

theorem eth_tx_correct_witness:
  "heap_ok (base0 ref_init) \<and>
   eth_tx ref_rtos (MAC 1 2 3 4 5 6) (MAC 7 8 9 10 11 12) (htons 0x806) [42, 43, 99] 2 (base0 ref_init) =
     Inr (ESP_OK, (bump (base0 ref_init))
       \<lparr>kern := ref_init\<lparr>rk_air := [[1, 2, 3, 4, 5, 6, 7, 8, 9, 10, 11, 12, 8, 6, 42, 43]]\<rparr>\<rparr>)"
  using eth_tx_correct[OF heap_ok_base0, of ref_rtos "MAC 1 2 3 4 5 6" "MAC 7 8 9 10 11 12"
      "htons 0x806" "[42, 43, 99]" 2 ref_init]
  by (intro conjI heap_ok_base0)
     (simp add: base0_def heap0_def ref_rtos_def ref_init_def store16_def htons_def ntohs_def)

end
