(* ===== verification/Arp.thy ===== *)
theory Arp
  imports Eth
begin

text \<open>
  Address resolution (\<^verbatim>\<open>protocols/arp.c\<close>, \<^verbatim>\<open>protocols/arp.h\<close>): the cache of 16 address pairs, the
  table of 8 pending requests with up to 8 waiting tasks each, the packet encoders, the input
  handler, one iteration of \<^verbatim>\<open>arp_task\<close>, initialisation and the blocking lookup. A pointer into a
  static array is the index of the element.
\<close>

section \<open>State\<close>

record arp_pending =
  pd_expiration_tick :: tick
  pd_waiting_tasks :: "task list"
  pd_ip :: ipv4_addr
  pd_waiting_task_count :: u8

type_synonym cache_row = "ipv4_addr \<times> mac_addr"

record 'k arp_net = "'k net_base" +
  self_ip_addr :: ipv4_addr
  self_mac_addr :: mac_addr
  ip_mac_cache :: "cache_row list"
  ip_mac_cache_top :: u8
  arp_pending_tasks :: "arp_pending list"
  arp_queue_set :: "qhandle option"
  arp_request_queue :: "qhandle option"
  arp_input_queue :: "qhandle option"

type_synonym ('k, 'z) arp = "('k, 'z) arp_net_scheme"

definition BROADCAST_MAC :: mac_addr where
  "BROADCAST_MAC = MAC 0xFF 0xFF 0xFF 0xFF 0xFF 0xFF"

abbreviation (input) IP_MAC_CACHE_LENGTH :: nat where "IP_MAC_CACHE_LENGTH \<equiv> 16"
abbreviation (input) MAX_PENDING_IPS :: nat where "MAX_PENDING_IPS \<equiv> 8"
abbreviation (input) MAX_PENDING_PER_IP :: nat where "MAX_PENDING_PER_IP \<equiv> 8"

definition ARP_TIMEOUT_TICKS :: "'k rtos \<Rightarrow> tick" where
  "ARP_TIMEOUT_TICKS R = pdMS_TO_TICKS R (1 * 1000)"

section \<open>Pending requests\<close>

definition find_pending :: "ipv4_addr \<Rightarrow> ('k, 'z) arp \<Rightarrow> nat option" where
  "find_pending ip s =
     find_index (\<lambda>p. \<not> pd_waiting_task_count p = 0 \<and> pd_ip p = ip) (arp_pending_tasks s)"

definition alloc_pending :: "'k rtos \<Rightarrow> ipv4_addr \<Rightarrow> ('k, 'z) arp \<Rightarrow> nat option \<times> ('k, 'z) arp" where
  "alloc_pending R ip s =
     (case find_index (\<lambda>p. pd_waiting_task_count p = 0) (arp_pending_tasks s) of
        None \<Rightarrow> (None, s)
      | Some free_index \<Rightarrow>
          (let pending = \<lparr>pd_expiration_tick = tick_count R s + ARP_TIMEOUT_TICKS R,
                          pd_waiting_tasks = replicate MAX_PENDING_PER_IP 0, pd_ip = ip,
                          pd_waiting_task_count = 0\<rparr>
           in (Some free_index,
               s\<lparr>arp_pending_tasks := (arp_pending_tasks s)[free_index := pending]\<rparr>)))"

definition free_pending :: "nat \<Rightarrow> ('k, 'z) arp \<Rightarrow> ('k, 'z) arp" where
  "free_pending p s = s\<lparr>arp_pending_tasks :=
     (arp_pending_tasks s)[p := (arp_pending_tasks s ! p)\<lparr>pd_waiting_task_count := 0\<rparr>]\<rparr>"

text \<open>
  \<^verbatim>\<open>for (i = 0; i < p->waiting_task_count; i++) xTaskNotifyGive(p->waiting_tasks[i]);\<close> reads outside
  the array when the count exceeds it.
\<close>

definition notify_waiting :: "'k rtos \<Rightarrow> arp_pending \<Rightarrow> ('k, 'z) arp \<Rightarrow> ('k, 'z) arp exec" where
  "notify_waiting R p s =
     (if unat (pd_waiting_task_count p) \<le> length (pd_waiting_tasks p)
      then Inr (fold (task_notify R) (take (unat (pd_waiting_task_count p)) (pd_waiting_tasks p)) s)
      else Inl Fault)"

section \<open>The cache\<close>

definition cache_store :: "arp_entry \<Rightarrow> ('k, 'z) arp \<Rightarrow> ('k, 'z) arp" where
  "cache_store entry s =
     (case find_index (\<lambda>row. fst row = en_ip entry) (ip_mac_cache s) of
        Some i \<Rightarrow>
          s\<lparr>ip_mac_cache := (ip_mac_cache s)[i := (fst (ip_mac_cache s ! i), en_mac entry)]\<rparr>
      | None \<Rightarrow>
          (let top = (if 16 \<le> ip_mac_cache_top s then 0 else ip_mac_cache_top s) in
           s\<lparr>ip_mac_cache := (ip_mac_cache s)[unat top := (en_ip entry, en_mac entry)],
             ip_mac_cache_top := (top + 1) mod 16\<rparr>))"

definition add_ip_mac_cache_entry :: "'k rtos \<Rightarrow> arp_entry \<Rightarrow> ('k, 'z) arp \<Rightarrow> ('k, 'z) arp exec" where
  "add_ip_mac_cache_entry R entry s =
     (let s = cache_store entry s in
      case find_pending (en_ip entry) s of
        None \<Rightarrow> Inr s
      | Some p \<Rightarrow>
          rbind (notify_waiting R (arp_pending_tasks s ! p) s) (\<lambda>s.
          Inr (free_pending p s)))"

definition arp_get_cached_mac_addr :: "ipv4_addr \<Rightarrow> ('k, 'z) arp \<Rightarrow> esp_err \<times> mac_addr option" where
  "arp_get_cached_mac_addr ip s =
     (case find_index (\<lambda>row. fst row = ip) (ip_mac_cache s) of
        Some i \<Rightarrow> (ESP_OK, Some (snd (ip_mac_cache s ! i)))
      | None \<Rightarrow> (ESP_FAIL, None))"

section \<open>Packets\<close>

text \<open>
  The 28-byte payload, field by field: \<^verbatim>\<open>send_arp_request\<close> and \<^verbatim>\<open>send_arp_reply\<close> contain the same
  statements up to the operation and the target hardware address, which are arguments here.
\<close>

definition arp_payload :: "u16 \<Rightarrow> mac_addr \<Rightarrow> ipv4_addr \<Rightarrow> bytes \<Rightarrow> ipv4_addr \<Rightarrow> bytes" where
  "arp_payload operation smac sip tmac tip =
     store16 (htons 1) @ store16 (htons IPV4_ETHERTYPE) @ [6] @ [4] @ store16 (htons operation)
     @ mac_bytes smac @ ip_bytes sip @ tmac @ ip_bytes tip"

text \<open>
  \<^verbatim>\<open>send_arp_request\<close> skips the six bytes of the target hardware address: they keep whatever the
  stack held (\<open>stk\<close>).
\<close>

definition send_arp_request ::
  "'k rtos \<Rightarrow> mac_addr \<Rightarrow> ipv4_addr \<Rightarrow> ('k, 'z) arp \<Rightarrow> (esp_err \<times> ('k, 'z) arp) exec" where
  "send_arp_request R stk ip s =
     eth_tx R BROADCAST_MAC (self_mac_addr s) (htons ARP_ETHERTYPE)
       (arp_payload 1 (self_mac_addr s) (self_ip_addr s) (mac_bytes stk) ip) 28 s"

definition send_arp_reply ::
  "'k rtos \<Rightarrow> mac_addr \<Rightarrow> ipv4_addr \<Rightarrow> ('k, 'z) arp \<Rightarrow> (esp_err \<times> ('k, 'z) arp) exec" where
  "send_arp_reply R mac ip s =
     eth_tx R mac (self_mac_addr s) (htons ARP_ETHERTYPE)
       (arp_payload 2 (self_mac_addr s) (self_ip_addr s) (mac_bytes mac) ip) 28 s"

definition arp_set_local_info :: "mac_addr \<Rightarrow> ipv4_addr \<Rightarrow> ('k, 'z) arp \<Rightarrow> ('k, 'z) arp" where
  "arp_set_local_info mac ip s = s\<lparr>self_ip_addr := ip, self_mac_addr := mac\<rparr>"

record arp_data =
  ad_hardware_type :: u16
  ad_protocol_type :: u16
  ad_hardware_length :: u8
  ad_protocol_length :: u8
  ad_operation :: u16
  ad_src_mac :: mac_addr
  ad_src_ip :: ipv4_addr
  ad_dst_mac :: mac_addr
  ad_dst_ip :: ipv4_addr

text \<open>The struct as it lies in memory.\<close>

definition arp_data_at :: "bytes \<Rightarrow> arp_data" where
  "arp_data_at b = \<lparr>ad_hardware_type = load16_of b, ad_protocol_type = load16_of (drop 2 b),
     ad_hardware_length = b ! 4, ad_protocol_length = b ! 5, ad_operation = load16_of (drop 6 b),
     ad_src_mac = mac_of_bytes (drop 8 b), ad_src_ip = ip_of_bytes (drop 14 b),
     ad_dst_mac = mac_of_bytes (drop 18 b), ad_dst_ip = ip_of_bytes (drop 24 b)\<rparr>"

text \<open>The first thing the handler does is print both addresses, so all 28 bytes must be there.\<close>

definition arp_input :: "'k rtos \<Rightarrow> bytes \<Rightarrow> u16 \<Rightarrow> ('k, 'z) arp \<Rightarrow> ('k, 'z) arp exec" where
  "arp_input R buffer len s =
     rbind (read_bytes buffer 0 28) (\<lambda>raw.
     (let d = arp_data_at raw in
      if ntohs (ad_hardware_type d) \<noteq> 1 then Inr s
      else if ntohs (ad_protocol_type d) \<noteq> IPV4_ETHERTYPE then Inr s
      else if ad_dst_ip d \<noteq> self_ip_addr s then Inr s
      else if ntohs (ad_operation d) = 2 then
        rbind (q_send R (arp_input_queue s) (ArpEntry \<lparr>en_ip = ad_src_ip d, en_mac = ad_src_mac d\<rparr>) 0 s)
          (\<lambda>(xResult, s). Inr s)
      else if ntohs (ad_operation d) = 1 then
        rbind (send_arp_reply R (ad_src_mac d) (ad_src_ip d) s) (\<lambda>(result, s). Inr s)
      else Inr s))"

section \<open>The worker task\<close>

definition expire_pending :: "'k rtos \<Rightarrow> tick \<Rightarrow> nat \<Rightarrow> ('k, 'z) arp \<Rightarrow> ('k, 'z) arp exec" where
  "expire_pending R current_tick i s =
     (let p = arp_pending_tasks s ! i in
      if pd_expiration_tick p \<le> current_tick
      then rbind (notify_waiting R p s) (\<lambda>s. Inr (free_pending i s))
      else Inr s)"

definition add_waiting :: "'k rtos \<Rightarrow> nat \<Rightarrow> task \<Rightarrow> ('k, 'z) arp \<Rightarrow> ('k, 'z) arp exec" where
  "add_waiting R i tsk s =
     (let p = arp_pending_tasks s ! i; n = pd_waiting_task_count p in
      if 8 \<le> n then Inr (task_notify R tsk s)
      else Inr (s\<lparr>arp_pending_tasks := (arp_pending_tasks s)
        [i := p\<lparr>pd_waiting_tasks := (pd_waiting_tasks p)[unat n := tsk],
                pd_waiting_task_count := n + 1\<rparr>]\<rparr>))"

definition handle_arp_request :: "'k rtos \<Rightarrow> mac_addr \<Rightarrow> arp_request \<Rightarrow> ('k, 'z) arp \<Rightarrow> ('k, 'z) arp exec" where
  "handle_arp_request R stk request s =
     (case find_pending (rq_ip request) s of
        Some p \<Rightarrow> add_waiting R p (rq_task request) s
      | None \<Rightarrow>
          (case alloc_pending R (rq_ip request) s of
             (None, s) \<Rightarrow> Inr (task_notify R (rq_task request) s)
           | (Some p, s) \<Rightarrow>
               rbind (send_arp_request R stk (rq_ip request) s) (\<lambda>(result, s).
               if result \<noteq> ESP_OK then Inr (task_notify R (rq_task request) s)
               else add_waiting R p (rq_task request) s)))"

text \<open>
  One iteration of the loop of \<^verbatim>\<open>arp_task\<close>. \<open>handle\<close> is what \<^verbatim>\<open>xQueueSelectFromSet\<close> returned
  (\<open>None\<close> after a timeout). An item of another type cannot be in these queues.
\<close>

definition arp_task_step ::
  "'k rtos \<Rightarrow> mac_addr \<Rightarrow> qhandle option \<Rightarrow> ('k, 'z) arp \<Rightarrow> ('k, 'z) arp exec" where
  "arp_task_step R stk handle s =
     (let current_tick = tick_count R s in
      rbind (for_each (expire_pending R current_tick) [0..<MAX_PENDING_IPS] s) (\<lambda>s.
      if handle = arp_request_queue s then
        rbind (q_receive R (arp_request_queue s) 0 s) (\<lambda>(item, s).
        case item of
          Some (ArpRequest request) \<Rightarrow> handle_arp_request R stk request s
        | None \<Rightarrow> Inr s
        | _ \<Rightarrow> Inl Fault)
      else if handle = arp_input_queue s then
        rbind (q_receive R (arp_input_queue s) 0 s) (\<lambda>(item, s).
        case item of
          Some (ArpEntry entry) \<Rightarrow> add_ip_mac_cache_entry R entry s
        | None \<Rightarrow> Inr s
        | _ \<Rightarrow> Inl Fault)
      else Inr s))"

section \<open>Initialisation and lookup\<close>

definition arp_init :: "'k rtos \<Rightarrow> ('k, 'z) arp \<Rightarrow> ('k, 'z) arp exec" where
  "arp_init R s =
     (let s = (if arp_request_queue s = None
               then let (q, s) = q_create R 4 s in s\<lparr>arp_request_queue := q\<rparr> else s) in
      if arp_request_queue s = None then Inr s
      else let s = (if arp_input_queue s = None
                    then let (q, s) = q_create R 4 s in s\<lparr>arp_input_queue := q\<rparr> else s) in
      if arp_input_queue s = None then Inr s
      else
        rbind (if arp_queue_set s = None
               then let (qs, s) = qset_create R 8 s; s = s\<lparr>arp_queue_set := qs\<rparr> in
                    if qs \<noteq> None
                    then rbind (qset_add R (arp_request_queue s) qs s) (\<lambda>s.
                         rbind (qset_add R (arp_input_queue s) qs s) (\<lambda>s. Inr (True, s)))
                    else Inr (False, s)
               else Inr (True, s)) (\<lambda>(ok, s).
        if ok then let (xReturned, s) = task_create R ''arp task'' s in Inr s
        else Inr s))"

text \<open>
  \<^verbatim>\<open>arp_get_mac_addr\<close> posts a request and sleeps until it is notified: \<open>wait\<close> is what the rest of the
  system does until the task is scheduled again, and without a notification it stays asleep.
\<close>

definition arp_get_mac_addr ::
  "'k rtos \<Rightarrow> (('k, 'z) arp \<Rightarrow> ('k, 'z) arp exec) \<Rightarrow> ipv4_addr \<Rightarrow> ('k, 'z) arp
    \<Rightarrow> ((esp_err \<times> mac_addr option) \<times> ('k, 'z) arp) exec" where
  "arp_get_mac_addr R wait ip s =
     (let request = \<lparr>rq_ip = ip, rq_task = xTaskGetCurrentTaskHandle R (kern s)\<rparr> in
      rbind (q_send R (arp_request_queue s) (ArpRequest request) portMAX_DELAY s) (\<lambda>(_, s).
      rbind (wait s) (\<lambda>s.
      rbind (notify_take R True portMAX_DELAY s) (\<lambda>(_, s).
      Inr (arp_get_cached_mac_addr ip s, s)))))"

section \<open>Invariant\<close>

definition pending_ok :: "arp_pending \<Rightarrow> bool" where
  "pending_ok p \<longleftrightarrow>
     length (pd_waiting_tasks p) = MAX_PENDING_PER_IP \<and> unat (pd_waiting_task_count p) \<le> MAX_PENDING_PER_IP"

definition active :: "arp_pending \<Rightarrow> bool" where
  "active p \<longleftrightarrow> pd_waiting_task_count p \<noteq> 0"

text \<open>Two pending requests never ask for the same address.\<close>

definition one_per_ip :: "arp_pending list \<Rightarrow> bool" where
  "one_per_ip ps \<longleftrightarrow> (\<forall>i j. i < length ps \<longrightarrow> j < length ps \<longrightarrow> active (ps ! i) \<longrightarrow> active (ps ! j) \<longrightarrow>
     pd_ip (ps ! i) = pd_ip (ps ! j) \<longrightarrow> i = j)"

definition arp_inv :: "('k, 'z) arp \<Rightarrow> bool" where
  "arp_inv s \<longleftrightarrow> heap_ok s \<and>
     length (ip_mac_cache s) = IP_MAC_CACHE_LENGTH \<and> unat (ip_mac_cache_top s) < IP_MAC_CACHE_LENGTH \<and>
     length (arp_pending_tasks s) = MAX_PENDING_IPS \<and> (\<forall>p\<in>set (arp_pending_tasks s). pending_ok p) \<and>
     one_per_ip (arp_pending_tasks s)"

lemma arp_bump_sel [simp]:
  "self_ip_addr (bump s) = self_ip_addr s" "self_mac_addr (bump s) = self_mac_addr s"
  "ip_mac_cache (bump s) = ip_mac_cache s" "ip_mac_cache_top (bump s) = ip_mac_cache_top s"
  "arp_pending_tasks (bump s) = arp_pending_tasks s" "arp_queue_set (bump s) = arp_queue_set s"
  "arp_request_queue (bump s) = arp_request_queue s" "arp_input_queue (bump s) = arp_input_queue s"
  by (simp_all add: bump_def)

lemma arp_inv_kern [simp]: "arp_inv (s\<lparr>kern := k\<rparr>) = arp_inv s"
  by (simp add: arp_inv_def)

lemma arp_inv_bump [simp]: "arp_inv s \<Longrightarrow> arp_inv (bump s)"
  by (simp add: arp_inv_def)

lemma fold_task_notify:
  "fold (task_notify R) ts s = s\<lparr>kern := fold (xTaskNotifyGive R) ts (kern s)\<rparr>"
  by (induction ts arbitrary: s) (simp_all add: task_notify_def)

definition waiting_of :: "arp_pending \<Rightarrow> task list" where
  "waiting_of p = take (unat (pd_waiting_task_count p)) (pd_waiting_tasks p)"

lemma notify_waiting_ok:
  "pending_ok p \<Longrightarrow>
   notify_waiting R p s = Inr (s\<lparr>kern := fold (xTaskNotifyGive R) (waiting_of p) (kern s)\<rparr>)"
  by (simp add: notify_waiting_def pending_ok_def waiting_of_def fold_task_notify)

lemma arp_inv_nth: "arp_inv s \<Longrightarrow> i < MAX_PENDING_IPS \<Longrightarrow> pending_ok (arp_pending_tasks s ! i)"
  by (simp add: arp_inv_def)

lemma one_per_ip_update:
  assumes "one_per_ip ps"
    and "active p \<Longrightarrow> \<forall>j<length ps. j \<noteq> i \<longrightarrow> active (ps ! j) \<longrightarrow> pd_ip (ps ! j) \<noteq> pd_ip p"
  shows "one_per_ip (ps[i := p])"
  unfolding one_per_ip_def
proof (intro allI impI)
  fix a b
  assume *: "a < length (ps[i := p])" "b < length (ps[i := p])" "active (ps[i := p] ! a)"
    "active (ps[i := p] ! b)" "pd_ip (ps[i := p] ! a) = pd_ip (ps[i := p] ! b)"
  show "a = b"
  proof (cases "a = i \<or> b = i")
    case True
    then show ?thesis using * assms(2) by (cases "a = i"; cases "b = i") auto
  next
    case False
    then show ?thesis using * assms(1) by (simp add: one_per_ip_def)
  qed
qed

text \<open>Replacing one entry of the table keeps the invariant if the new one clashes with no other.\<close>

lemma arp_inv_update:
  assumes "arp_inv s" and "pending_ok p"
    and "active p \<Longrightarrow> \<forall>j<MAX_PENDING_IPS. j \<noteq> i \<longrightarrow> active (arp_pending_tasks s ! j) \<longrightarrow>
           pd_ip (arp_pending_tasks s ! j) \<noteq> pd_ip p"
  shows "arp_inv (s\<lparr>arp_pending_tasks := (arp_pending_tasks s)[i := p]\<rparr>)"
proof -
  from assms(1) have len: "length (arp_pending_tasks s) = 8"
    and ok: "\<forall>p\<in>set (arp_pending_tasks s). pending_ok p" by (simp_all add: arp_inv_def)
  have "one_per_ip ((arp_pending_tasks s)[i := p])"
    by (rule one_per_ip_update) (use assms(1,3) len in \<open>simp_all add: arp_inv_def\<close>)
  then show ?thesis
    using assms(1,2) ok set_update_subset_insert[of "arp_pending_tasks s" i p]
    by (auto simp: arp_inv_def heap_ok_def)
qed

lemma arp_inv_free_pending: "arp_inv s \<Longrightarrow> i < MAX_PENDING_IPS \<Longrightarrow> arp_inv (free_pending i s)"
  unfolding free_pending_def
  by (rule arp_inv_update) (use arp_inv_nth in \<open>auto simp: pending_ok_def active_def\<close>)

lemma find_pending_Some:
  assumes "arp_inv s" and "find_pending ip s = Some p"
  shows "p < MAX_PENDING_IPS" and "active (arp_pending_tasks s ! p)"
    and "pd_ip (arp_pending_tasks s ! p) = ip"
  using assms by (auto simp: find_pending_def arp_inv_def active_def dest: find_index_SomeD)

lemma find_pending_None:
  assumes "arp_inv s" and "find_pending ip s = None" and "j < MAX_PENDING_IPS"
    and "active (arp_pending_tasks s ! j)"
  shows "pd_ip (arp_pending_tasks s ! j) \<noteq> ip"
  using assms by (auto simp: find_pending_def arp_inv_def active_def find_index_None)

section \<open>No request is forgotten\<close>

text \<open>
  Where a task that asked for an address can be: in the request queue, in the table of pending
  requests, or already notified. \<open>asked\<close> counts all three.
\<close>

definition waiting :: "('k, 'z) arp \<Rightarrow> task \<Rightarrow> nat" where
  "waiting s t = sum_list (map (\<lambda>p. count_list (waiting_of p) t) (arp_pending_tasks s))"

fun is_request_of :: "task \<Rightarrow> msg \<Rightarrow> bool" where
  "is_request_of t (ArpRequest r) = (rq_task r = t)"
| "is_request_of t m = False"

fun is_arp_request :: "msg \<Rightarrow> bool" where
  "is_arp_request (ArpRequest r) = True"
| "is_arp_request m = False"

fun is_arp_entry :: "msg \<Rightarrow> bool" where
  "is_arp_entry (ArpEntry e) = True"
| "is_arp_entry m = False"

definition asked :: "kview \<Rightarrow> ('k, 'z) arp \<Rightarrow> task \<Rightarrow> nat" where
  "asked v s t =
     kv_notify v t + waiting s t + count (is_request_of t) (queue_items v (arp_request_queue s))"

text \<open>The state in which \<^verbatim>\<open>arp_task\<close> runs: initialised queues that hold only their own items.\<close>

definition arp_ready :: "kview \<Rightarrow> ('k, 'z) arp \<Rightarrow> bool" where
  "arp_ready v s \<longleftrightarrow> arp_inv s \<and> queue_holds is_arp_request v (arp_request_queue s) \<and>
     queue_holds is_arp_entry v (arp_input_queue s) \<and> arp_request_queue s \<noteq> arp_input_queue s"

lemma waiting_kern [simp]: "waiting (s\<lparr>kern := k\<rparr>) = waiting s"
  by (simp add: waiting_def fun_eq_iff)

lemma waiting_bump [simp]: "waiting (bump s) = waiting s"
  by (simp add: waiting_def fun_eq_iff)

lemma waiting_update:
  "i < length (arp_pending_tasks s) \<Longrightarrow>
   waiting (s\<lparr>arp_pending_tasks := (arp_pending_tasks s)[i := p]\<rparr>) t
     + count_list (waiting_of (arp_pending_tasks s ! i)) t
   = waiting s t + count_list (waiting_of p) t"
  using sum_list_map_update[of i "arp_pending_tasks s" "\<lambda>p. count_list (waiting_of p) t" p]
  by (simp add: waiting_def)

lemma waiting_free_pending:
  "arp_inv s \<Longrightarrow> i < MAX_PENDING_IPS \<Longrightarrow>
   waiting (free_pending i s) t + count_list (waiting_of (arp_pending_tasks s ! i)) t = waiting s t"
  using waiting_update[of i s "(arp_pending_tasks s ! i)\<lparr>pd_waiting_task_count := 0\<rparr>" t]
  by (simp add: free_pending_def arp_inv_def waiting_of_def)

text \<open>Putting a task in a free place of the array.\<close>

lemma waiting_of_push:
  assumes "pending_ok p" and "\<not> 8 \<le> pd_waiting_task_count p"
  shows "waiting_of (p\<lparr>pd_waiting_tasks := (pd_waiting_tasks p)[unat (pd_waiting_task_count p) := tsk],
      pd_waiting_task_count := pd_waiting_task_count p + 1\<rparr>) = waiting_of p @ [tsk]"
    and "pending_ok (p\<lparr>pd_waiting_tasks := (pd_waiting_tasks p)[unat (pd_waiting_task_count p) := tsk],
      pd_waiting_task_count := pd_waiting_task_count p + 1\<rparr>)"
proof -
  let ?n = "unat (pd_waiting_task_count p)"
  have n: "?n < 8" using assms(2) by (simp add: word_le_nat_alt)
  then have s: "unat (pd_waiting_task_count p + 1) = Suc ?n"
    by (simp add: unat_word_ariths)
  from n s assms(1) show
    "waiting_of (p\<lparr>pd_waiting_tasks := (pd_waiting_tasks p)[?n := tsk],
      pd_waiting_task_count := pd_waiting_task_count p + 1\<rparr>) = waiting_of p @ [tsk]"
    by (simp add: waiting_of_def pending_ok_def take_Suc_conv_app_nth)
  from n s assms(1) show
    "pending_ok (p\<lparr>pd_waiting_tasks := (pd_waiting_tasks p)[?n := tsk],
      pd_waiting_task_count := pd_waiting_task_count p + 1\<rparr>)"
    by (simp add: pending_ok_def)
qed

lemma alloc_pending_Some:
  assumes "arp_inv s" and "alloc_pending R ip s = (Some i, s')"
  shows "arp_inv s'" and "i < MAX_PENDING_IPS" and "waiting s' = waiting s"
    and "pd_ip (arp_pending_tasks s' ! i) = ip" and "kern s' = kern s"
    and "\<And>j. j \<noteq> i \<Longrightarrow> arp_pending_tasks s' ! j = arp_pending_tasks s ! j"
    and "arp_request_queue s' = arp_request_queue s" and "arp_input_queue s' = arp_input_queue s"
proof -
  from assms(2) obtain p where s': "s' = s\<lparr>arp_pending_tasks := (arp_pending_tasks s)[i := p]\<rparr>"
    and idx: "find_index (\<lambda>p. pd_waiting_task_count p = 0) (arp_pending_tasks s) = Some i"
    and p: "pd_waiting_task_count p = 0" "length (pd_waiting_tasks p) = 8" "pd_ip p = ip"
    by (auto simp: alloc_pending_def Let_def split: option.splits)
  from idx assms(1) show i: "i < 8" by (auto dest: find_index_SomeD simp: arp_inv_def)
  from assms(1) p show "arp_inv s'"
    unfolding s' by (intro arp_inv_update) (auto simp: pending_ok_def active_def)
  have zero: "pd_waiting_task_count (arp_pending_tasks s ! i) = 0"
    using find_index_SomeD(2)[OF idx] by simp
  show "waiting s' = waiting s"
    using waiting_update[of i s p] i assms(1) p zero
    by (simp add: s' fun_eq_iff waiting_of_def arp_inv_def)
  show "pd_ip (arp_pending_tasks s' ! i) = ip" using i p assms(1) by (simp add: s' arp_inv_def)
qed (use assms(2) in \<open>auto simp: alloc_pending_def Let_def split: option.splits\<close>)

text \<open>A step that neither takes a request from the queue nor loses a waiting task.\<close>

definition books_kept :: "kview \<Rightarrow> ('k, 'z) arp \<Rightarrow> kview \<Rightarrow> ('k, 'z) arp \<Rightarrow> (task \<Rightarrow> nat) \<Rightarrow> bool" where
  "books_kept v s v' s' extra \<longleftrightarrow> arp_inv s' \<and>
     arp_request_queue s' = arp_request_queue s \<and> arp_input_queue s' = arp_input_queue s \<and>
     kv_queues v' = kv_queues v \<and>
     (\<forall>t. kv_notify v' t + waiting s' t = kv_notify v t + waiting s t + extra t)"

definition none :: "task \<Rightarrow> nat" where "none t = 0"

definition just :: "task \<Rightarrow> task \<Rightarrow> nat" where "just tsk t = (if t = tsk then 1 else 0)"

lemma books_kept_trans:
  "books_kept v s v' s' none \<Longrightarrow> books_kept v' s' v'' s'' e \<Longrightarrow> books_kept v s v'' s'' e"
  by (simp add: books_kept_def none_def)

context rtos_contract
begin

abbreviation kept :: "('k, 'z) arp \<Rightarrow> ('k, 'z) arp \<Rightarrow> (task \<Rightarrow> nat) \<Rightarrow> bool" where
  "kept s s' e \<equiv> books_kept (view (kern s)) s (view (kern s')) s' e"

lemma release_pending_kept:
  assumes "arp_inv s" and "i < MAX_PENDING_IPS"
  shows "\<exists>s'. rbind (notify_waiting R (arp_pending_tasks s ! i) s) (\<lambda>s. Inr (free_pending i s)) = Inr s' \<and>
     kept s s' none"
proof -
  let ?ts = "waiting_of (arp_pending_tasks s ! i)"
  let ?s1 = "s\<lparr>kern := fold (xTaskNotifyGive R) ?ts (kern s)\<rparr>"
  have inv: "arp_inv (free_pending i ?s1)"
    using assms by (intro arp_inv_free_pending) simp_all
  have "kv_notify (view (kern (free_pending i ?s1))) t + waiting (free_pending i ?s1) t
      = kv_notify (view (kern s)) t + waiting s t" for t
    using waiting_free_pending[of ?s1 i t] assms
    by (simp add: free_pending_def fold_notify kv_notify_fold)
  with inv have "kept s (free_pending i ?s1) none"
    by (simp add: books_kept_def none_def free_pending_def fold_notify)
  moreover have "notify_waiting R (arp_pending_tasks s ! i) s = Inr ?s1"
    using assms by (simp add: notify_waiting_ok arp_inv_nth)
  ultimately show ?thesis by simp
qed

lemma expire_pending_kept:
  assumes "arp_inv s" and "i < MAX_PENDING_IPS"
  shows "\<exists>s'. expire_pending R now i s = Inr s' \<and> kept s s' none"
proof (cases "pd_expiration_tick (arp_pending_tasks s ! i) \<le> now")
  case True
  then show ?thesis
    using release_pending_kept[OF assms] by (simp add: expire_pending_def)
next
  case False
  then show ?thesis using assms by (simp add: expire_pending_def books_kept_def none_def)
qed

lemma expire_all_kept:
  assumes "arp_inv s" and "set is \<subseteq> {..<MAX_PENDING_IPS}"
  shows "\<exists>s'. for_each (expire_pending R now) is s = Inr s' \<and> kept s s' none"
proof (rule for_each_total)
  fix i s1
  assume "i \<in> set is" and k: "kept s s1 none"
  with assms(2) have "i < 8" and "arp_inv s1" by (auto simp: books_kept_def)
  then obtain s2 where "expire_pending R now i s1 = Inr s2" and "kept s1 s2 none"
    using expire_pending_kept by blast
  then show "\<exists>s2. expire_pending R now i s1 = Inr s2 \<and> kept s s2 none"
    using k books_kept_trans by blast
qed (use assms(1) in \<open>simp add: books_kept_def none_def\<close>)

lemma notify_kept: "arp_inv s \<Longrightarrow> kept s (task_notify R tsk s) (just tsk)"
  by (simp add: books_kept_def just_def task_notify_def notify kt_notify_def)

lemma add_waiting_kept:
  assumes "arp_inv s" and "i < MAX_PENDING_IPS"
    and "\<And>j. j < MAX_PENDING_IPS \<Longrightarrow> j \<noteq> i \<Longrightarrow> active (arp_pending_tasks s ! j) \<Longrightarrow>
           pd_ip (arp_pending_tasks s ! j) \<noteq> pd_ip (arp_pending_tasks s ! i)"
  shows "\<exists>s'. add_waiting R i tsk s = Inr s' \<and> kept s s' (just tsk)"
proof (cases "8 \<le> pd_waiting_task_count (arp_pending_tasks s ! i)")
  case True
  then show ?thesis using notify_kept[OF assms(1)] by (simp add: add_waiting_def)
next
  case False
  let ?p = "arp_pending_tasks s ! i"
  let ?p' = "?p\<lparr>pd_waiting_tasks := (pd_waiting_tasks ?p)[unat (pd_waiting_task_count ?p) := tsk],
      pd_waiting_task_count := pd_waiting_task_count ?p + 1\<rparr>"
  let ?s' = "s\<lparr>arp_pending_tasks := (arp_pending_tasks s)[i := ?p']\<rparr>"
  note push = waiting_of_push[OF arp_inv_nth[OF assms(1,2)] False, of tsk]
  have "arp_inv ?s'" using assms(1,3) push(2) by (intro arp_inv_update) auto
  moreover have "waiting ?s' t = waiting s t + just tsk t" for t
    using waiting_update[of i s ?p' t] assms(1,2) push(1) by (simp add: arp_inv_def just_def)
  ultimately have "kept s ?s' (just tsk)" by (simp add: books_kept_def)
  then show ?thesis using False by (simp add: add_waiting_def Let_def)
qed

lemma eth_tx_kept:
  assumes "arp_inv s" and "unat len \<le> 65521" and "unat len \<le> length payload"
  shows "\<exists>e s'. eth_tx R d sr ty payload len s = Inr (e, s') \<and> kept s s' none \<and>
     arp_pending_tasks s' = arp_pending_tasks s"
proof -
  from assms(1) have "heap_ok s" by (simp add: arp_inv_def)
  then show ?thesis
    using assms transmit by (auto simp: eth_tx_eq books_kept_def none_def Let_def split: prod.splits)
      (metis snd_conv)+
qed

lemma send_arp_request_kept:
  assumes "arp_inv s"
  shows "\<exists>e s'. send_arp_request R stk ip s = Inr (e, s') \<and> kept s s' none \<and>
     arp_pending_tasks s' = arp_pending_tasks s"
  unfolding send_arp_request_def
  by (rule eth_tx_kept[OF assms]) (simp_all add: arp_payload_def)

lemma handle_arp_request_kept:
  assumes "arp_inv s"
  shows "\<exists>s'. handle_arp_request R stk rq s = Inr s' \<and> kept s s' (just (rq_task rq))"
proof (cases "find_pending (rq_ip rq) s")
  case (Some i)
  note p = find_pending_Some[OF assms Some]
  have "pd_ip (arp_pending_tasks s ! j) \<noteq> pd_ip (arp_pending_tasks s ! i)"
    if "j < 8" "j \<noteq> i" "active (arp_pending_tasks s ! j)" for j
    using assms that p unfolding arp_inv_def one_per_ip_def by metis
  then show ?thesis
    using add_waiting_kept[OF assms p(1)] Some by (simp add: handle_arp_request_def)
next
  case None
  show ?thesis
  proof (cases "alloc_pending R (rq_ip rq) s")
    case (Pair io s1)
    show ?thesis
    proof (cases io)
      case None': None
      with Pair have "s1 = s" by (auto simp: alloc_pending_def Let_def split: option.splits)
      then show ?thesis
        using None None' Pair notify_kept[OF assms] by (simp add: handle_arp_request_def)
    next
      case (Some i)
      note a = alloc_pending_Some[OF assms Pair[unfolded Some]]
      have k1: "kept s s1 none" using a by (simp add: books_kept_def none_def)
      obtain e s2 where tx: "send_arp_request R stk (rq_ip rq) s1 = Inr (e, s2)"
        and k2: "kept s1 s2 none" and same: "arp_pending_tasks s2 = arp_pending_tasks s1"
        using send_arp_request_kept[OF a(1)] by blast
      from k2 have inv2: "arp_inv s2" by (simp add: books_kept_def)
      have clash: "pd_ip (arp_pending_tasks s2 ! j) \<noteq> pd_ip (arp_pending_tasks s2 ! i)"
        if "j < 8" "j \<noteq> i" "active (arp_pending_tasks s2 ! j)" for j
        using that a(4) a(6)[of j] find_pending_None[OF assms None] by (simp add: same)
      have "\<exists>s3. (if e \<noteq> ESP_OK then Inr (task_notify R (rq_task rq) s2)
                   else add_waiting R i (rq_task rq) s2) = Inr s3 \<and> kept s2 s3 (just (rq_task rq))"
        using notify_kept[OF inv2] add_waiting_kept[OF inv2 a(2) clash] by auto
      then obtain s3 where fin: "(if e \<noteq> ESP_OK then Inr (task_notify R (rq_task rq) s2)
                   else add_waiting R i (rq_task rq) s2) = Inr s3" "kept s2 s3 (just (rq_task rq))"
        by blast
      from fin(2) have "kept s s3 (just (rq_task rq))"
        using books_kept_trans[OF k1 books_kept_trans[OF k2]] by blast
      with fin(1) show ?thesis
        using None Some Pair tx by (simp add: handle_arp_request_def)
    qed
  qed
qed

lemma cache_store_inv:
  assumes "arp_inv s"
  shows "arp_inv (cache_store e s)"
proof -
  let ?top = "if 16 \<le> ip_mac_cache_top s then 0 else ip_mac_cache_top s"
  have "unat ((?top + 1) mod 16) < 16" by (simp add: unat_mod)
  then show ?thesis
    using assms by (auto simp: cache_store_def arp_inv_def heap_ok_def Let_def split: option.splits)
qed

lemma add_entry_kept:
  assumes "arp_inv s"
  shows "\<exists>s'. add_ip_mac_cache_entry R e s = Inr s' \<and> kept s s' none"
proof -
  let ?s1 = "cache_store e s"
  have inv: "arp_inv ?s1" using assms by (rule cache_store_inv)
  have k1: "kept s ?s1 none"
    using inv by (auto simp: books_kept_def none_def cache_store_def waiting_def Let_def split: option.splits)
  show ?thesis
  proof (cases "find_pending (en_ip e) ?s1")
    case None
    then show ?thesis using k1 by (simp add: add_ip_mac_cache_entry_def)
  next
    case (Some p)
    from release_pending_kept[OF inv find_pending_Some(1)[OF inv Some]]
    show ?thesis
      using Some books_kept_trans[OF k1] by (auto simp: add_ip_mac_cache_entry_def)
  qed
qed

lemma kept_ready:
  assumes "arp_ready (view (kern s)) s" and "kept s s' e"
  shows "arp_ready (view (kern s')) s'"
  using assms by (simp add: arp_ready_def books_kept_def queue_holds_def)

lemma kept_asked:
  assumes "kept s s' e"
  shows "asked (view (kern s')) s' t = asked (view (kern s)) s t + e t"
  using assms queue_items_cong[of "view (kern s')" "view (kern s)" "arp_request_queue s"]
  by (simp add: asked_def books_kept_def)

text \<open>Taking an item from one of the two queues.\<close>

lemma take_request_ready:
  assumes "arp_ready (view (kern s)) s" and "arp_request_queue s = Some q"
    and "kv_queues (view (kern s)) q = Some (cap, m # ms)"
    and "view k = (view (kern s))\<lparr>kv_queues := (kv_queues (view (kern s)))(q \<mapsto> (cap, ms))\<rparr>"
  shows "arp_ready (view (kern (s\<lparr>kern := k\<rparr>))) (s\<lparr>kern := k\<rparr>)"
    and "asked (view k) (s\<lparr>kern := k\<rparr>) t + (if is_request_of t m then 1 else 0) = asked (view (kern s)) s t"
  using assms by (auto simp: arp_ready_def queue_holds_def asked_def queue_items_def)

lemma take_entry_ready:
  assumes "arp_ready (view (kern s)) s" and "arp_input_queue s = Some q"
    and "kv_queues (view (kern s)) q = Some (cap, m # ms)"
    and "view k = (view (kern s))\<lparr>kv_queues := (kv_queues (view (kern s)))(q \<mapsto> (cap, ms))\<rparr>"
  shows "arp_ready (view (kern (s\<lparr>kern := k\<rparr>))) (s\<lparr>kern := k\<rparr>)"
    and "asked (view k) (s\<lparr>kern := k\<rparr>) t = asked (view (kern s)) s t"
  using assms by (auto simp: arp_ready_def queue_holds_def asked_def queue_items_def)

lemma request_branch:
  assumes "arp_ready (view (kern s)) s"
  shows "\<exists>s'. rbind (q_receive R (arp_request_queue s) 0 s) (\<lambda>(item, s).
        case item of Some (ArpRequest request) \<Rightarrow> handle_arp_request R stk request s
        | None \<Rightarrow> Inr s | _ \<Rightarrow> Inl Fault) = Inr s' \<and>
     arp_ready (view (kern s')) s' \<and> (\<forall>t. asked (view (kern s')) s' t = asked (view (kern s)) s t)"
proof -
  from assms have "queue_holds is_arp_request (view (kern s)) (arp_request_queue s)"
    by (simp add: arp_ready_def)
  then show ?thesis
  proof (cases rule: q_receive_cases)
    case (empty k)
    then show ?thesis using assms by (simp add: arp_ready_def asked_def)
  next
    case (item k m q cap ms)
    then obtain rq where m: "m = ArpRequest rq" by (cases m) auto
    note tk = take_request_ready[OF assms item(3-5)]
    from tk(1) have "arp_inv (s\<lparr>kern := k\<rparr>)" by (simp only: arp_ready_def)
    from handle_arp_request_kept[OF this]
    obtain s' where s': "handle_arp_request R stk rq (s\<lparr>kern := k\<rparr>) = Inr s'"
      and kp: "kept (s\<lparr>kern := k\<rparr>) s' (just (rq_task rq))" by blast
    have "asked (view (kern s')) s' t = asked (view (kern s)) s t" for t
      using kept_asked[OF kp, of t] tk(2)[of t] by (auto simp: m just_def split: if_splits)
    then show ?thesis using item(1) m s' kept_ready[OF tk(1) kp] by simp
  qed
qed

lemma entry_branch:
  assumes "arp_ready (view (kern s)) s"
  shows "\<exists>s'. rbind (q_receive R (arp_input_queue s) 0 s) (\<lambda>(item, s).
        case item of Some (ArpEntry entry) \<Rightarrow> add_ip_mac_cache_entry R entry s
        | None \<Rightarrow> Inr s | _ \<Rightarrow> Inl Fault) = Inr s' \<and>
     arp_ready (view (kern s')) s' \<and> (\<forall>t. asked (view (kern s')) s' t = asked (view (kern s)) s t)"
proof -
  from assms have "queue_holds is_arp_entry (view (kern s)) (arp_input_queue s)"
    by (simp add: arp_ready_def)
  then show ?thesis
  proof (cases rule: q_receive_cases)
    case (empty k)
    then show ?thesis using assms by (simp add: arp_ready_def asked_def)
  next
    case (item k m q cap ms)
    then obtain e where m: "m = ArpEntry e" by (cases m) auto
    note tk = take_entry_ready[OF assms item(3-5)]
    from tk(1) have "arp_inv (s\<lparr>kern := k\<rparr>)" by (simp only: arp_ready_def)
    from add_entry_kept[OF this]
    obtain s' where s': "add_ip_mac_cache_entry R e (s\<lparr>kern := k\<rparr>) = Inr s'"
      and kp: "kept (s\<lparr>kern := k\<rparr>) s' none" by blast
    have "asked (view (kern s')) s' t = asked (view (kern s)) s t" for t
      using kept_asked[OF kp, of t] tk(2)[of t] by (simp add: none_def)
    then show ?thesis using item(1) m s' kept_ready[OF tk(1) kp] by simp
  qed
qed

lemma arp_task_step_ready:
  assumes "arp_ready (view (kern s)) s"
  shows "\<exists>s'. arp_task_step R stk h s = Inr s' \<and> arp_ready (view (kern s')) s' \<and>
     (\<forall>t. asked (view (kern s')) s' t = asked (view (kern s)) s t)"
proof -
  from assms have "arp_inv s" by (simp add: arp_ready_def)
  then obtain s1 where s1: "for_each (expire_pending R (tick_count R s)) [0..<8] s = Inr s1"
    and kp: "kept s s1 none" using expire_all_kept[of s "[0..<8]"] by fastforce
  have r1: "arp_ready (view (kern s1)) s1" using assms kp by (rule kept_ready)
  have a1: "asked (view (kern s1)) s1 t = asked (view (kern s)) s t" for t
    using kept_asked[OF kp] by (simp add: none_def)
  consider "h = arp_request_queue s1" | "h \<noteq> arp_request_queue s1" "h = arp_input_queue s1"
    | "h \<noteq> arp_request_queue s1" "h \<noteq> arp_input_queue s1" by blast
  then show ?thesis
  proof cases
    case 1
    then show ?thesis
      using request_branch[OF r1, of stk] a1 s1 by (simp add: arp_task_step_def Let_def)
  next
    case 2
    then show ?thesis
      using entry_branch[OF r1] a1 s1 by (simp add: arp_task_step_def Let_def)
  next
    case 3
    then show ?thesis using r1 a1 s1 by (simp add: arp_task_step_def Let_def)
  qed
qed

end

section \<open>The cache as a map\<close>

text \<open>
  What a client of the cache may rely on: a stored binding is found, storing one address never gives
  another address a new binding (it may lose its own), except for the address that marks unused rows.
\<close>

locale address_cache =
  fixes put :: "'ip \<Rightarrow> 'mac \<Rightarrow> 'c \<Rightarrow> 'c" and get :: "'c \<Rightarrow> 'ip \<Rightarrow> 'mac option"
    and invar :: "'c \<Rightarrow> bool" and unused :: 'ip
  assumes get_put: "invar c \<Longrightarrow> get (put ip m c) ip = Some m"
    and get_put_other: "invar c \<Longrightarrow> ip' \<noteq> ip \<Longrightarrow> ip' \<noteq> unused \<Longrightarrow> get (put ip m c) ip' = Some m' \<Longrightarrow>
      get c ip' = Some m'"
    and invar_put: "invar c \<Longrightarrow> invar (put ip m c)"
begin

text \<open>After any history, a cached binding is the most recent one stored for that address.\<close>

lemma latest_binding:
  assumes "invar c" and "ip \<noteq> unused" and "get (fold (\<lambda>(i, m). put i m) es c) ip = Some m"
  shows "case map_of (rev es) ip of Some m' \<Rightarrow> m = m' | None \<Rightarrow> get c ip = Some m"
  using assms
proof (induction es arbitrary: c)
  case Nil
  then show ?case by simp
next
  case (Cons e es)
  obtain i b where e: "e = (i, b)" by (cases e)
  have *: "case map_of (rev es) ip of Some m' \<Rightarrow> m = m' | None \<Rightarrow> get (put i b c) ip = Some m"
    using Cons.prems by (intro Cons.IH) (simp_all add: e invar_put)
  show ?case
  proof (cases "map_of (rev es) ip")
    case (Some m')
    then show ?thesis using * by (simp add: e map_add_def)
  next
    case None
    then show ?thesis
      using * Cons.prems(1,2) get_put[OF Cons.prems(1), of i b] get_put_other[of c ip i b m]
      by (auto simp: e map_add_def)
  qed
qed

end

definition cache_distinct :: "cache_row list \<Rightarrow> bool" where
  "cache_distinct rows \<longleftrightarrow> (\<forall>i j. i < length rows \<longrightarrow> j < length rows \<longrightarrow> fst (rows ! i) \<noteq> 0 \<longrightarrow>
     fst (rows ! i) = fst (rows ! j) \<longrightarrow> i = j)"

definition cache_ok :: "('k, 'z) arp \<Rightarrow> bool" where
  "cache_ok s \<longleftrightarrow> length (ip_mac_cache s) = IP_MAC_CACHE_LENGTH \<and>
     unat (ip_mac_cache_top s) < IP_MAC_CACHE_LENGTH \<and> cache_distinct (ip_mac_cache s)"

definition cache_put :: "ipv4_addr \<Rightarrow> mac_addr \<Rightarrow> ('k, 'z) arp \<Rightarrow> ('k, 'z) arp" where
  "cache_put ip m s = cache_store \<lparr>en_ip = ip, en_mac = m\<rparr> s"

definition cache_get :: "('k, 'z) arp \<Rightarrow> ipv4_addr \<Rightarrow> mac_addr option" where
  "cache_get s ip = snd (arp_get_cached_mac_addr ip s)"

lemma cache_store_put: "cache_store e s = cache_put (en_ip e) (en_mac e) s"
  by (cases e) (simp add: cache_put_def)

lemma cached_map_of:
  "arp_get_cached_mac_addr ip s =
     (case map_of (ip_mac_cache s) ip of Some m \<Rightarrow> (ESP_OK, Some m) | None \<Rightarrow> (ESP_FAIL, None))"
  by (simp add: arp_get_cached_mac_addr_def find_index_map_of split: option.splits)

lemma cache_get_map_of: "cache_get s ip = map_of (ip_mac_cache s) ip"
  by (simp add: cache_get_def cached_map_of split: option.splits)

text \<open>The two ways of storing: over the row of the same address, or over the oldest row.\<close>

lemma cache_put_cases:
  assumes "cache_ok s"
  obtains (hit) i where "find_index (\<lambda>row. fst row = ip) (ip_mac_cache s) = Some i"
      "cache_put ip m s = s\<lparr>ip_mac_cache := (ip_mac_cache s)[i := (ip, m)]\<rparr>"
    | (miss) t where "ip \<notin> fst ` set (ip_mac_cache s)" "t < IP_MAC_CACHE_LENGTH"
      "t = unat (ip_mac_cache_top s)"
      "cache_put ip m s = s\<lparr>ip_mac_cache := (ip_mac_cache s)[t := (ip, m)],
         ip_mac_cache_top := (ip_mac_cache_top s + 1) mod 16\<rparr>"
proof (cases "find_index (\<lambda>row. fst row = ip) (ip_mac_cache s)")
  case (Some i)
  then show thesis
    using find_index_SomeD[OF Some] by (intro hit[of i]) (simp_all add: cache_put_def cache_store_def)
next
  case None
  then have "ip \<notin> fst ` set (ip_mac_cache s)" by (auto simp: find_index_None)
  moreover have "\<not> 16 \<le> ip_mac_cache_top s" and "unat (ip_mac_cache_top s) < 16"
    using assms by (simp_all add: cache_ok_def word_le_nat_alt)
  ultimately show thesis
    using None by (intro miss[of "unat (ip_mac_cache_top s)"]) (simp_all add: cache_put_def cache_store_def Let_def)
qed

lemma cache_distinct_update:
  assumes "cache_distinct rows" and "\<And>j. j < length rows \<Longrightarrow> j \<noteq> i \<Longrightarrow> fst (rows ! j) \<noteq> ip \<or> ip = 0"
  shows "cache_distinct (rows[i := (ip, m)])"
  unfolding cache_distinct_def
proof (intro allI impI)
  fix a b
  assume *: "a < length (rows[i := (ip, m)])" "b < length (rows[i := (ip, m)])"
    "fst (rows[i := (ip, m)] ! a) \<noteq> 0" "fst (rows[i := (ip, m)] ! a) = fst (rows[i := (ip, m)] ! b)"
  show "a = b"
  proof (cases "a = i \<or> b = i")
    case True
    then show ?thesis using * assms(2) by (cases "a = i"; cases "b = i") auto
  next
    case False
    then show ?thesis using * assms(1) by (simp add: cache_distinct_def)
  qed
qed

lemma cache_ok_put:
  assumes "cache_ok s"
  shows "cache_ok (cache_put ip m s)"
  using assms
proof (cases rule: cache_put_cases[of s ip m, consumes 1])
  case (hit i)
  have "fst (ip_mac_cache s ! j) \<noteq> ip \<or> ip = 0" if "j < length (ip_mac_cache s)" "j \<noteq> i" for j
    using that find_index_SomeD[OF hit(1)] assms unfolding cache_ok_def cache_distinct_def by metis
  then have "cache_distinct ((ip_mac_cache s)[i := (ip, m)])"
    using assms by (intro cache_distinct_update) (auto simp: cache_ok_def)
  then show ?thesis using assms hit(2) by (simp add: cache_ok_def)
next
  case (miss t)
  then have "fst (ip_mac_cache s ! j) \<noteq> ip" if "j < length (ip_mac_cache s)" for j
    using that by (metis image_eqI nth_mem)
  then show ?thesis
    using assms miss(4) by (simp add: cache_ok_def cache_distinct_update unat_mod)
qed

interpretation arp_cache: address_cache cache_put cache_get cache_ok 0
proof
  fix s :: "('k, 'z) arp" and ip m
  assume ok: "cache_ok s"
  then show "cache_ok (cache_put ip m s)" by (rule cache_ok_put)
  from ok show "cache_get (cache_put ip m s) ip = Some m"
    by (cases rule: cache_put_cases[of s ip m, consumes 1])
       (use ok in \<open>auto simp: cache_get_map_of map_of_update_hit map_of_update_new cache_ok_def\<close>)
next
  fix s :: "('k, 'z) arp" and ip' ip m m'
  assume ok: "cache_ok s" and ne: "ip' \<noteq> ip" "ip' \<noteq> 0" and g: "cache_get (cache_put ip m s) ip' = Some m'"
  from ok show "cache_get s ip' = Some m'"
  proof (cases rule: cache_put_cases[of s ip m, consumes 1])
    case (hit i)
    then show ?thesis using g ne by (simp add: cache_get_map_of map_of_update_hit)
  next
    case (miss t)
    show ?thesis
    proof (cases "fst (ip_mac_cache s ! t) = ip'")
      case True
      then have "map_of ((ip_mac_cache s)[t := (ip, m)]) ip' = None"
        using ok ne miss(2) unfolding cache_ok_def cache_distinct_def
        by (intro map_of_update_gone) auto
      then show ?thesis using g miss(4) by (simp add: cache_get_map_of)
    next
      case False
      then show ?thesis
        using g ne miss ok by (simp add: cache_get_map_of map_of_update_other cache_ok_def)
    qed
  qed
qed

section \<open>Decoding what the encoders write\<close>

lemma arp_data_at_payload:
  assumes "length tmac = 6"
  shows "arp_data_at (arp_payload op smac sip tmac tip) =
     \<lparr>ad_hardware_type = htons 1, ad_protocol_type = htons IPV4_ETHERTYPE,
      ad_hardware_length = 6, ad_protocol_length = 4, ad_operation = htons op,
      ad_src_mac = smac, ad_src_ip = sip, ad_dst_mac = mac_of_bytes tmac, ad_dst_ip = tip\<rparr>"
proof -
  have ld: "load16_of (store16 w @ bs) = w" for w bs
    by (simp add: load16_of_def store16_def)
  obtain t0 t1 t2 t3 t4 t5 where t: "tmac = [t0, t1, t2, t3, t4, t5]"
    using assms by (auto simp: length_Suc_conv eval_nat_numeral)
  show ?thesis
    by (simp add: arp_data_at_def arp_payload_def ld drop_append t nth_append)
       (simp add: mac_of_bytes_def)
qed

lemma length_arp_payload [simp]: "length tmac = 6 \<Longrightarrow> length (arp_payload op smac sip tmac tip) = 28"
  by (simp add: arp_payload_def)

section \<open>Initialisation\<close>

context rtos_contract
begin

lemma arp_init_ready:
  assumes "arp_inv s" and "arp_request_queue s = None" and "arp_input_queue s = None"
    and "arp_queue_set s = None" and "arp_init R s = Inr s'" and "arp_queue_set s' \<noteq> None"
  shows "arp_ready (view (kern s')) s'"
proof -
  obtain qr k1 where k1: "xQueueCreate R 4 (kern s) = (qr, k1)" by fastforce
  obtain qi k2 where k2: "xQueueCreate R 4 k1 = (qi, k2)" by fastforce
  obtain qs k3 where k3: "xQueueCreateSet R 8 k2 = (qs, k3)" by fastforce
  note unfolded = arp_init_def q_create_def qset_create_def qset_add_def task_create_def Let_def
  from assms(2-6) obtain r i st where some: "qr = Some r" "qi = Some i" "qs = Some st"
    by (cases qr; cases qi; cases qs) (auto simp: unfolded k1 k2 k3)
  define k4 where "k4 = xQueueAddToSet R i st (xQueueAddToSet R r st k3)"
  obtain ok k5 where k5: "xTaskCreate R ''arp task'' k4 = (ok, k5)" by fastforce
  have s': "s' = s\<lparr>arp_request_queue := Some r, arp_input_queue := Some i,
      arp_queue_set := Some st, kern := k5\<rparr>"
    using assms(2-5) by (simp add: unfolded k1 k2 k3 some k4_def[symmetric] k5)
  have v5: "kv_queues (view k5) = kv_queues (view k2)"
  proof -
    have "kv_queues (view k5) = kv_queues (view k4)" using create_task[of "''arp task''" k4] by (simp add: k5)
    also have "\<dots> = kv_queues (view k3)" by (simp add: k4_def add_to_set)
    also have "\<dots> = kv_queues (view k2)" using create_set[of 8 k2] by (simp add: k3)
    finally show ?thesis .
  qed
  from create_queue[OF k1[unfolded some]] create_queue[OF k2[unfolded some]]
  have "kv_queues (view k2) r = Some (4, [])" "kv_queues (view k2) i = Some (4, [])" "r \<noteq> i"
    by auto
  then show ?thesis
    using assms(1) by (simp add: s' v5 arp_ready_def queue_holds_def arp_inv_def heap_ok_def)
qed

lemma add_entry_resolves:
  assumes "arp_inv s" and "cache_ok s"
  shows "\<exists>s'. add_ip_mac_cache_entry R e s = Inr s' \<and>
     arp_get_cached_mac_addr (en_ip e) s' = (ESP_OK, Some (en_mac e)) \<and>
     find_pending (en_ip e) s' = None \<and>
     (\<forall>t. kv_notify (view (kern s')) t = kv_notify (view (kern s)) t +
        (case find_pending (en_ip e) s of None \<Rightarrow> 0
         | Some p \<Rightarrow> count_list (waiting_of (arp_pending_tasks s ! p)) t))"
proof -
  let ?s1 = "cache_store e s"
  have inv: "arp_inv ?s1" using assms(1) by (rule cache_store_inv)
  have same: "arp_pending_tasks ?s1 = arp_pending_tasks s" "kern ?s1 = kern s"
    by (auto simp: cache_store_def Let_def split: option.splits)
  then have fp: "find_pending ip ?s1 = find_pending ip s" for ip by (simp add: find_pending_def)
  have "cache_get ?s1 (en_ip e) = Some (en_mac e)"
    using arp_cache.get_put[OF assms(2), of "en_ip e" "en_mac e"] by (simp add: cache_store_put)
  then have got: "map_of (ip_mac_cache ?s1) (en_ip e) = Some (en_mac e)"
    by (simp add: cache_get_map_of)
  show ?thesis
  proof (cases "find_pending (en_ip e) s")
    case None
    then show ?thesis
      using got fp by (simp add: add_ip_mac_cache_entry_def cached_map_of same)
  next
    case (Some p)
    note p = find_pending_Some[OF assms(1) Some]
    let ?s2 = "?s1\<lparr>kern := fold (xTaskNotifyGive R) (waiting_of (arp_pending_tasks s ! p)) (kern s)\<rparr>"
    have run: "add_ip_mac_cache_entry R e s = Inr (free_pending p ?s2)"
      using Some fp same notify_waiting_ok[OF arp_inv_nth[OF inv p(1)], of R ?s1]
      by (simp add: add_ip_mac_cache_entry_def)
    have "\<not> (active q \<and> pd_ip q = en_ip e)" if q: "q \<in> set (arp_pending_tasks (free_pending p ?s2))" for q
    proof -
      from q obtain j where j: "j < 8" "q = arp_pending_tasks (free_pending p ?s2) ! j"
        using assms(1) by (auto simp: in_set_conv_nth free_pending_def same arp_inv_def)
      show ?thesis
      proof (cases "j = p")
        case True
        then show ?thesis using j assms(1) by (simp add: free_pending_def same active_def arp_inv_def)
      next
        case False
        then show ?thesis
          using j p assms(1) unfolding arp_inv_def one_per_ip_def by (auto simp: free_pending_def same)
      qed
    qed
    then have "find_pending (en_ip e) (free_pending p ?s2) = None"
      by (auto simp: find_pending_def find_index_None active_def)
    then show ?thesis
      using run got Some
      by (simp add: cached_map_of free_pending_def fold_notify kv_notify_fold)
  qed
qed

end

section \<open>Expiry\<close>

text \<open>After the scan up to index \<open>n\<close> nothing that expired is left below \<open>n\<close>.\<close>

lemma expire_scan:
  assumes "for_each (expire_pending R now) [0..<n] s = Inr s'" and "i < n"
    and "n \<le> length (arp_pending_tasks s)"
  shows "length (arp_pending_tasks s') = length (arp_pending_tasks s) \<and>
     (active (arp_pending_tasks s' ! i) \<longrightarrow> now < pd_expiration_tick (arp_pending_tasks s' ! i))"
  using assms
proof (induction n arbitrary: s')
  case 0
  then show ?case by simp
next
  case (Suc n)
  from Suc.prems(1) obtain s1 where s1: "for_each (expire_pending R now) [0..<n] s = Inr s1"
    and step: "expire_pending R now n s1 = Inr s'"
    by (auto simp: for_each_append rbind_eq_Inr)
  have len1: "length (arp_pending_tasks s1) = length (arp_pending_tasks s)"
    by (rule for_each_invariant[OF _ _ s1])
       (auto simp: expire_pending_def notify_waiting_def free_pending_def fold_task_notify
          rbind_eq_Inr Let_def split: if_splits)
  have other: "arp_pending_tasks s' ! j = arp_pending_tasks s1 ! j" if "j \<noteq> n" for j
    using step that by (auto simp: expire_pending_def notify_waiting_def free_pending_def
        fold_task_notify Let_def split: if_splits)
  have len: "length (arp_pending_tasks s') = length (arp_pending_tasks s1)"
    and here: "active (arp_pending_tasks s' ! n) \<longrightarrow> now < pd_expiration_tick (arp_pending_tasks s' ! n)"
    using step len1 Suc.prems(3)
    by (auto simp: expire_pending_def notify_waiting_def free_pending_def fold_task_notify
        active_def Let_def split: if_splits)
  show ?case
  proof (cases "i = n")
    case True
    then show ?thesis using len len1 here by simp
  next
    case False
    then show ?thesis using Suc.IH[OF s1] Suc.prems(2,3) len len1 other by simp
  qed
qed

section \<open>A concrete ARP state\<close>

text \<open>Static storage before initialisation.\<close>

definition arp0 :: "'k \<Rightarrow> 'k arp_net" where
  "arp0 k = net_base.extend (base0 k)
     \<lparr>self_ip_addr = IPv4 192 168 1 230, self_mac_addr = MAC 0x30 0x83 0x98 0x94 0xEC 0x1B,
      ip_mac_cache = replicate 16 (0, 0), ip_mac_cache_top = 0,
      arp_pending_tasks = replicate 8 \<lparr>pd_expiration_tick = 0, pd_waiting_tasks = replicate 8 0,
        pd_ip = 0, pd_waiting_task_count = 0\<rparr>,
      arp_queue_set = None, arp_request_queue = None, arp_input_queue = None\<rparr>"

text \<open>After initialisation on the reference kernel, with one request of task 7 in the queue.\<close>

definition arp1 :: "msg list \<Rightarrow> msg list \<Rightarrow> refk arp_net" where
  "arp1 rs es = (arp0 (ref_init\<lparr>kv_queues := [0 \<mapsto> (4, rs), 1 \<mapsto> (4, es)], rk_next := 2\<rparr>))
     \<lparr>arp_request_queue := Some 0, arp_input_queue := Some 1\<rparr>"

lemmas arp_state_defs = arp0_def arp1_def net_base.extend_def base0_def heap0_def

lemma one_per_ip_inactive: "\<forall>p\<in>set ps. \<not> active p \<Longrightarrow> one_per_ip ps"
  by (simp add: one_per_ip_def)

lemma arp_inv_arp0 [simp]: "arp_inv (arp0 k)"
  by (simp add: arp_inv_def arp_state_defs heap_ok_def pending_ok_def active_def one_per_ip_inactive)

lemma cache_ok_arp0 [simp]: "cache_ok (arp0 k)"
  by (simp add: cache_ok_def cache_distinct_def arp_state_defs)

lemma arp_inv_queues [simp]: "arp_inv (s\<lparr>arp_request_queue := a, arp_input_queue := b\<rparr>) = arp_inv s"
  by (simp add: arp_inv_def heap_ok_def)

lemma arp_ready_arp1:
  assumes "\<forall>m\<in>set rs. is_arp_request m" and "\<forall>m\<in>set es. is_arp_entry m"
  shows "arp_ready (kview.truncate (kern (arp1 rs es))) (arp1 rs es)"
proof -
  have "arp_inv (arp1 rs es)" by (simp add: arp1_def)
  then show ?thesis
    using assms by (simp add: arp_ready_def queue_holds_def arp_state_defs kview.truncate_def)
qed

section \<open>Properties\<close>

text \<open>
  C3: An iteration of \<^verbatim>\<open>arp_task\<close> always returns (it neither faults nor blocks), keeps the invariant of
  the tables and queues, and forgets no task: every task that asked for an address is still in the
  request queue, in the table of pending requests, or has been notified, and each request is counted
  exactly once.
\<close>

theorem arp_task_keeps_requests:
  assumes "rtos_contract R view" and "arp_ready (view (kern s)) s"
  shows "\<exists>s'. arp_task_step R stk h s = Inr s' \<and> arp_ready (view (kern s')) s' \<and>
     (\<forall>t. asked (view (kern s')) s' t = asked (view (kern s)) s t)"
  using rtos_contract.arp_task_step_ready[OF assms] .

theorem arp_task_keeps_requests_witness:
  "\<exists>s'. arp_task_step ref_rtos 0 (Some 0)
       (arp1 [ArpRequest \<lparr>rq_ip = IPv4 192 168 1 1, rq_task = 7\<rparr>] []) = Inr s' \<and>
     asked (kview.truncate (kern s')) s' 7 = 1"
proof -
  let ?s = "arp1 [ArpRequest \<lparr>rq_ip = IPv4 192 168 1 1, rq_task = 7\<rparr>] []"
  have "arp_ready (kview.truncate (kern ?s)) ?s" by (rule arp_ready_arp1) simp_all
  from arp_task_keeps_requests[OF refk.rtos_contract_axioms this, of 0 "Some 0"]
  obtain s' where s': "arp_task_step ref_rtos 0 (Some 0) ?s = Inr s'"
    and a: "asked (kview.truncate (kern s')) s' 7 = asked (kview.truncate (kern ?s)) ?s 7" by blast
  have "asked (kview.truncate (kern ?s)) ?s 7 = 1"
    by (simp add: asked_def waiting_def waiting_of_def queue_items_def arp_state_defs
        kview.truncate_def ref_init_def sum_list_replicate)
  with s' a show ?thesis by auto
qed

text \<open>
  C22: A reply is learned and wakes exactly the tasks that wait for it: afterwards the address is in
  the cache, no request for it is pending, and each waiting task has received one notification per
  place it held.
\<close>

theorem arp_entry_resolves:
  assumes "rtos_contract R view" and "arp_inv s" and "cache_ok s"
  shows "\<exists>s'. add_ip_mac_cache_entry R e s = Inr s' \<and>
     arp_get_cached_mac_addr (en_ip e) s' = (ESP_OK, Some (en_mac e)) \<and>
     find_pending (en_ip e) s' = None \<and>
     (\<forall>t. kv_notify (view (kern s')) t = kv_notify (view (kern s)) t +
        (case find_pending (en_ip e) s of None \<Rightarrow> 0
         | Some p \<Rightarrow> count_list (waiting_of (arp_pending_tasks s ! p)) t))"
  using rtos_contract.add_entry_resolves[OF assms] .

theorem arp_entry_resolves_witness:
  "\<exists>s'. add_ip_mac_cache_entry ref_rtos \<lparr>en_ip = IPv4 10 0 0 1, en_mac = MAC 1 2 3 4 5 6\<rparr> (arp0 ref_init) =
      Inr s' \<and> arp_get_cached_mac_addr (IPv4 10 0 0 1) s' = (ESP_OK, Some (MAC 1 2 3 4 5 6))"
  using arp_entry_resolves[OF refk.rtos_contract_axioms arp_inv_arp0 cache_ok_arp0,
      of "\<lparr>en_ip = IPv4 10 0 0 1, en_mac = MAC 1 2 3 4 5 6\<rparr>" ref_init]
  by auto

text \<open>
  C23: The cache never answers with a stale or foreign address: after any sequence of stored entries,
  a hit for an address other than 0.0.0.0 is the MAC of the last entry stored for it, or, if none was
  stored, the one cached before.
\<close>

theorem arp_cache_latest:
  assumes "cache_ok s" and "ip \<noteq> 0"
    and "arp_get_cached_mac_addr ip (fold cache_store es s) = (ESP_OK, Some m)"
  shows "case map_of (rev (map (\<lambda>e. (en_ip e, en_mac e)) es)) ip of
       Some m' \<Rightarrow> m = m' | None \<Rightarrow> arp_get_cached_mac_addr ip s = (ESP_OK, Some m)"
proof -
  let ?es = "map (\<lambda>e. (en_ip e, en_mac e)) es"
  have put: "cache_store = (\<lambda>e :: arp_entry. cache_put (en_ip e) (en_mac e))"
    by (intro ext) (simp add: cache_store_put)
  have "fold cache_store es s = fold (\<lambda>(i, m). cache_put i m) ?es s"
    by (simp add: fold_map comp_def put)
  then have "cache_get (fold (\<lambda>(i, m). cache_put i m) ?es s) ip = Some m"
    using assms(3) by (simp add: cache_get_def)
  from arp_cache.latest_binding[OF assms(1,2) this]
  show ?thesis by (simp add: cache_get_map_of cached_map_of split: option.splits)
qed

theorem arp_cache_latest_witness:
  "arp_get_cached_mac_addr (IPv4 10 0 0 1)
     (fold cache_store [\<lparr>en_ip = IPv4 10 0 0 1, en_mac = MAC 1 1 1 1 1 1\<rparr>,
        \<lparr>en_ip = IPv4 10 0 0 1, en_mac = MAC 2 2 2 2 2 2\<rparr>] (arp0 ref_init)) = (ESP_OK, Some (MAC 2 2 2 2 2 2))"
  (is "?got = _")
proof -
  obtain m where m: "?got = (ESP_OK, Some m)"
    by (simp add: cache_store_def arp_get_cached_mac_addr_def arp_state_defs zero_ipv4_addr_def
        eval_nat_numeral)
  from arp_cache_latest[OF cache_ok_arp0 _ m] have "m = MAC 2 2 2 2 2 2"
    by (simp add: zero_ipv4_addr_def)
  with m show ?thesis by simp
qed

text \<open>
  C25: When the select in \<^verbatim>\<open>arp_task\<close> times out, every pending request whose deadline has passed is
  released: afterwards each request still pending has a deadline in the future.
\<close>

theorem arp_timeout_releases:
  assumes "arp_inv s" and "arp_request_queue s \<noteq> None" and "arp_input_queue s \<noteq> None"
    and "arp_task_step R stk None s = Inr s'" and "i < MAX_PENDING_IPS"
    and "active (arp_pending_tasks s' ! i)"
  shows "tick_count R s < pd_expiration_tick (arp_pending_tasks s' ! i)"
proof -
  from assms(4) obtain s1 where s1: "for_each (expire_pending R (tick_count R s)) [0..<8] s = Inr s1"
    and rest: "s' = s1 \<or> None = arp_request_queue s1 \<or> None = arp_input_queue s1"
    by (auto simp: arp_task_step_def Let_def rbind_eq_Inr split: if_splits)
  have "arp_request_queue s1 = arp_request_queue s \<and> arp_input_queue s1 = arp_input_queue s"
    by (rule for_each_invariant[OF _ _ s1])
       (auto simp: expire_pending_def notify_waiting_def free_pending_def fold_task_notify
          Let_def split: if_splits)
  with rest assms(2,3) have "s' = s1" by auto
  then show ?thesis using expire_scan[OF s1, of i] assms(1,5,6) by (simp add: arp_inv_def)
qed

theorem arp_timeout_releases_witness:
  "\<exists>s'. arp_task_step ref_rtos 0 None ((arp1 [] [])\<lparr>arp_pending_tasks := (arp_pending_tasks (arp1 [] []))
       [0 := \<lparr>pd_expiration_tick = 100, pd_waiting_tasks = replicate 8 7, pd_ip = IPv4 10 0 0 1,
              pd_waiting_task_count = 1\<rparr>]\<rparr>) = Inr s' \<and>
     0 < pd_expiration_tick (arp_pending_tasks s' ! 0)"
  (is "\<exists>s'. arp_task_step ref_rtos 0 None ?s = Inr s' \<and> _")
proof -
  have upt: "[0..<8] = [0, 1, 2, 3, 4, 5, 6, 7 :: nat]" by (simp add: upt_rec)
  obtain s' where s': "arp_task_step ref_rtos 0 None ?s = Inr s'"
    and act: "active (arp_pending_tasks s' ! 0)"
    by (simp add: arp_task_step_def upt Let_def expire_pending_def tick_count_def notify_waiting_def
        free_pending_def arp_state_defs ref_rtos_def ref_init_def active_def)
  have "arp_inv (arp1 [] [])" by (simp add: arp1_def)
  then have "arp_inv ?s"
    by (rule arp_inv_update)
       (simp_all add: pending_ok_def active_def arp_state_defs nth_Cons' less_Suc_eq)
  from arp_timeout_releases[OF this _ _ s' _ act] s' show ?thesis
    by (auto simp: arp_state_defs tick_count_def ref_rtos_def ref_init_def)
qed

text \<open>
  Before any entry is stored the cache answers \<open>ESP_FAIL\<close> for every address except 0.0.0.0, whose
  zero-initialised rows it takes for a binding to 00:00:00:00:00:00.
\<close>

theorem arp_empty_cache:
  "arp_get_cached_mac_addr ip (arp0 k) = (if ip = 0 then (ESP_OK, Some 0) else (ESP_FAIL, None))"
  by (auto simp: cached_map_of arp_state_defs eval_nat_numeral)

text \<open>
  C26: \<^verbatim>\<open>arp_init\<close>, run once on zeroed globals, establishes the state in which \<^verbatim>\<open>arp_task\<close> is correct
  whenever it gets as far as creating the queue set.
\<close>

theorem arp_init_establishes:
  assumes "rtos_contract R view" and "arp_init R (arp0 k) = Inr s'" and "arp_queue_set s' \<noteq> None"
  shows "arp_ready (view (kern s')) s'"
  by (rule rtos_contract.arp_init_ready[OF assms(1) arp_inv_arp0 _ _ _ assms(2,3)])
     (simp_all add: arp_state_defs)

theorem arp_init_establishes_witness:
  "\<exists>s'. arp_init ref_rtos (arp0 ref_init) = Inr s' \<and> arp_ready (kview.truncate (kern s')) s'"
proof -
  obtain s' where s': "arp_init ref_rtos (arp0 ref_init) = Inr s'" "arp_queue_set s' \<noteq> None"
    by (simp add: arp_init_def q_create_def qset_create_def qset_add_def task_create_def Let_def
        arp_state_defs ref_rtos_def ref_init_def)
  show ?thesis using arp_init_establishes[OF refk.rtos_contract_axioms s'] s'(1) by blast
qed

end
