(* ===== verification/Checksum.thy ===== *)
theory Checksum
  imports Endian
begin

text \<open>
  The Internet checksum (\<^verbatim>\<open>utility/checksum.c\<close>): the summing loop on a 32-bit accumulator, the
  carry-folding loop with its termination proof, and the equality with the one's complement sum of
  the big-endian 16-bit words. The interface \<open>checksum_service\<close> is what the IPv4, ICMP and TCP
  encoders rely on.
\<close>

section \<open>Model\<close>

text \<open>The \<^verbatim>\<open>for\<close> loop: \<open>n\<close> words left, the next one at index \<open>i\<close>.\<close>

fun checksum_loop :: "bytes \<Rightarrow> nat \<Rightarrow> nat \<Rightarrow> u32 \<Rightarrow> u32 exec" where
  "checksum_loop header 0 i sum32 = Inr sum32"
| "checksum_loop header (Suc n) i sum32 =
     rbind (read_bytes header (i * 2) 2) (\<lambda>word.
     checksum_loop header n (Suc i) (sum32 + ucast (ntohs (load16_of word))))"

lemma unat_lo_plus_upper:
  "unat ((sum32 AND 0xFFFF) + ucast (upper :: u16) :: u32) = unat sum32 mod 65536 + unat upper"
proof -
  have "(sum32 AND 0xFFFF :: u32) = take_bit 16 sum32"
    by (simp only: take_bit_eq_mask) (simp add: mask_numeral)
  then have lo: "unat (sum32 AND 0xFFFF :: u32) = unat sum32 mod 65536"
    by (simp only: unsigned_take_bit_eq) (simp add: take_bit_eq_mod)
  have "unat sum32 mod 65536 + unat upper < 4294967296"
    using unat_less_65536[of upper] mod_less_divisor[of 65536 "unat sum32"] by linarith
  then show ?thesis
    by (simp add: unat_word_ariths lo)
qed

lemma unat_upper_half: "unat (ucast (drop_bit 16 (s :: u32)) :: u16) = unat s div 65536"
proof -
  have "unat s < 65536 * 65536"
    using unsigned_less[of s, where 'a = nat] by simp
  then have "unat s div 65536 < 65536"
    by (rule less_mult_imp_div_less)
  then show ?thesis
    by (simp add: unsigned_ucast_eq unat_drop_bit take_bit_nat_eq_self)
qed

text \<open>The loop body runs at most twice: after one pass the carry is at most 1, after two it is 0.\<close>

definition carries_left :: "u32 \<Rightarrow> u16 \<Rightarrow> nat" where
  "carries_left sum32 upper =
     (if upper = 0 then 0 else if unat sum32 mod 65536 + unat upper < 65536 then 1 else 2)"

lemma carries_left_decreases:
  fixes sum32 :: u32 and upper :: u16
  assumes "upper \<noteq> 0"
  defines "sum32' \<equiv> (sum32 AND 0xFFFF) + ucast upper"
  shows "carries_left sum32' (ucast (drop_bit 16 sum32')) < carries_left sum32 upper"
proof -
  have s: "unat sum32' = unat sum32 mod 65536 + unat upper"
    by (simp only: sum32'_def unat_lo_plus_upper)
  have u: "unat (ucast (drop_bit 16 sum32') :: u16) = unat sum32' div 65536"
    by (rule unat_upper_half)
  have small: "unat sum32' < 131071"
    using s unat_less_65536[of upper] mod_less_divisor[of 65536 "unat sum32"] by linarith
  show ?thesis
  proof (cases "unat sum32 mod 65536 + unat upper < 65536")
    case True
    with s u have "(ucast (drop_bit 16 sum32') :: u16) = 0"
      by (simp add: unat_eq_0 [symmetric])
    then show ?thesis using True assms by (simp add: carries_left_def)
  next
    case False
    then have ge: "65536 \<le> unat sum32'" using s by simp
    then have "unat sum32' div 65536 = 1"
      using small by (intro div_nat_eqI) simp_all
    moreover have "unat sum32' mod 65536 < 65535"
      using ge small by (simp add: le_mod_geq)
    ultimately have "unat sum32' div 65536 = 1" and "unat sum32' mod 65536 < 65535" .
    with u False assms show ?thesis by (auto simp: carries_left_def)
  qed
qed

text \<open>The \<^verbatim>\<open>while (upper != 0)\<close> loop that folds the carries back in.\<close>

function fold_carry :: "u32 \<Rightarrow> u16 \<Rightarrow> u32" where
  "fold_carry sum32 upper =
     (if upper \<noteq> 0
      then (let sum32' = (sum32 AND 0xFFFF) + ucast upper
            in fold_carry sum32' (ucast (drop_bit 16 sum32')))
      else sum32)"
  by pat_completeness auto
termination
  by (relation "measure (\<lambda>(sum32, upper). carries_left sum32 upper)")
     (simp_all add: carries_left_decreases)

declare fold_carry.simps [simp del]

definition net_checksum :: "bytes \<Rightarrow> u16 \<Rightarrow> u16 exec" where
  "net_checksum header header_len_bytes =
     (let word_count = unat (header_len_bytes div 2) in
      rbind (checksum_loop header word_count 0 0) (\<lambda>sum32.
      rbind (if header_len_bytes AND 1 \<noteq> 0
             then rbind (read_bytes header (word_count * 2) 1) (\<lambda>word.
                  Inr (sum32 + ucast (ntohs (load16 (word ! 0) 0))))
             else Inr sum32) (\<lambda>sum32.
      Inr (ucast (NOT (fold_carry sum32 (ucast (drop_bit 16 sum32))))))))"

section \<open>Reference: the one's complement sum\<close>

fun be_sum :: "bytes \<Rightarrow> nat" where
  "be_sum [] = 0"
| "be_sum [a] = 256 * unat a"
| "be_sum (a # b # bs) = 256 * unat a + unat b + be_sum bs"

text \<open>The end-around carry: the representative of \<open>n\<close> modulo 65535 in \<open>1..65535\<close>, 0 for 0.\<close>

definition oc_fold :: "nat \<Rightarrow> nat" where
  "oc_fold n = (if n = 0 then 0 else (n - 1) mod 65535 + 1)"

definition oc_checksum :: "bytes \<Rightarrow> u16" where
  "oc_checksum bs = NOT (of_nat (oc_fold (be_sum bs)))"

lemma be_sum_append: "even (length xs) \<Longrightarrow> be_sum (xs @ ys) = be_sum xs + be_sum ys"
  by (induction xs rule: be_sum.induct) auto

lemma be_sum_le: "be_sum bs \<le> 65535 * ((length bs + 1) div 2)"
proof (induction bs rule: be_sum.induct)
  case 1
  then show ?case by simp
next
  case (2 a)
  have "256 * unat a \<le> 65535" using unat_less_256[of a] by linarith
  then show ?case by simp
next
  case (3 a b bs)
  have "256 * unat a + unat b \<le> 65535"
    using unat_less_256[of a] unat_less_256[of b] by linarith
  with 3 show ?case by simp
qed

lemma oc_fold_le: "oc_fold n \<le> 65535"
proof -
  have "(n - 1) mod 65535 < 65535" by simp
  then have "(n - 1) mod 65535 + 1 \<le> 65535" by linarith
  then show ?thesis by (simp only: oc_fold_def split: if_split) simp
qed

lemma oc_fold_eq_0 [simp]: "oc_fold n = 0 \<longleftrightarrow> n = 0"
  by (simp add: oc_fold_def)

lemma oc_fold_mod: "oc_fold n mod 65535 = n mod 65535"
proof (cases n)
  case 0
  then show ?thesis by (simp add: oc_fold_def)
next
  case (Suc k)
  then show ?thesis by (simp add: oc_fold_def mod_Suc_eq)
qed

lemma oc_fold_unique:
  assumes "m \<le> 65535" and "m mod 65535 = n mod 65535" and "m = 0 \<longleftrightarrow> n = 0"
  shows "m = oc_fold n"
proof (cases "n = 0")
  case True
  with assms show ?thesis by (simp add: oc_fold_def)
next
  case False
  with assms have "0 < m" and "0 < n" by auto
  from assms(2) obtain q1 q2 where "m + 65535 * q1 = n + 65535 * q2"
    by (auto simp: nat_mod_eq_iff)
  with \<open>0 < m\<close> \<open>0 < n\<close> have "(m - 1) + 65535 * q1 = (n - 1) + 65535 * q2" by simp
  then have "(m - 1) mod 65535 = (n - 1) mod 65535"
    by (auto simp: nat_mod_eq_iff)
  moreover have "(m - 1) mod 65535 = m - 1" using assms(1) \<open>0 < m\<close> by simp
  ultimately show ?thesis using \<open>0 < m\<close> False by (simp add: oc_fold_def)
qed

section \<open>Correctness of the folding loop\<close>

lemma mod_65535_fold: "(lo + (hi :: nat)) mod 65535 = (hi * 65536 + lo) mod 65535"
proof -
  have "hi * 65536 + lo = (lo + hi) + 65535 * hi" by simp
  then show ?thesis by (simp only: mod_mult_self2)
qed

lemma fold_carry_oc:
  "upper = ucast (drop_bit 16 sum32) \<Longrightarrow> unat (fold_carry sum32 upper) = oc_fold (unat sum32)"
proof (induction sum32 upper rule: fold_carry.induct)
  case (1 sum32 upper)
  have hi: "unat upper = unat sum32 div 65536"
    using "1.prems" by (simp add: unat_upper_half)
  show ?case
  proof (cases "upper = 0")
    case True
    then have "unat sum32 < 65536" using hi by (simp add: div_eq_0_iff)
    then show ?thesis
      using True by (subst fold_carry.simps) (simp add: oc_fold_unique)
  next
    case False
    define sum32' where "sum32' = (sum32 AND 0xFFFF) + ucast upper"
    have lo: "unat sum32' = unat sum32 mod 65536 + unat upper"
      by (simp only: sum32'_def unat_lo_plus_upper)
    have "unat (fold_carry sum32 upper) = unat (fold_carry sum32' (ucast (drop_bit 16 sum32')))"
      using False by (subst fold_carry.simps) (simp add: sum32'_def Let_def)
    also have "\<dots> = oc_fold (unat sum32')"
      using "1.IH"[OF False sum32'_def] by simp
    also have "\<dots> = oc_fold (unat sum32)"
    proof (rule oc_fold_unique)
      show "oc_fold (unat sum32') \<le> 65535" by (rule oc_fold_le)
    next
      have "unat sum32' mod 65535 = unat sum32 mod 65535"
        unfolding lo hi by (subst mod_65535_fold) simp
      then show "oc_fold (unat sum32') mod 65535 = unat sum32 mod 65535"
        by (simp add: oc_fold_mod)
    next
      show "oc_fold (unat sum32') = 0 \<longleftrightarrow> unat sum32 = 0"
        using False lo hi by (auto simp: oc_fold_eq_0 unat_eq_0)
    qed
    finally show ?thesis .
  qed
qed

section \<open>Correctness of the summing loop\<close>

lemma take_two_more:
  assumes "2 * i + 2 \<le> length h"
  shows "take (2 * Suc n) (drop (2 * i) h) =
     h ! (2 * i) # h ! (2 * i + 1) # take (2 * n) (drop (2 * Suc i) h)"
proof -
  have "drop (2 * i) h = h ! (2 * i) # h ! Suc (2 * i) # drop (Suc (Suc (2 * i))) h"
    using assms by (simp add: Cons_nth_drop_Suc)
  then show ?thesis by simp
qed

lemma checksum_loop_sum:
  assumes "2 * (i + n) \<le> length h"
    and "unat sum32 + be_sum (take (2 * n) (drop (2 * i) h)) < 2 ^ 32"
  shows "\<exists>r. checksum_loop h n i sum32 = Inr r \<and>
     unat r = unat sum32 + be_sum (take (2 * n) (drop (2 * i) h))"
  using assms
proof (induction n arbitrary: i sum32)
  case 0
  then show ?case by simp
next
  case (Suc n)
  let ?a = "h ! (2 * i)" and ?b = "h ! (2 * i + 1)"
  let ?w = "ucast (ntohs (load16 ?a ?b)) :: u32"
  have tk: "take (2 * Suc n) (drop (2 * i) h) = ?a # ?b # take (2 * n) (drop (2 * Suc i) h)"
    by (rule take_two_more) (use Suc.prems(1) in simp)
  have w: "unat ?w = 256 * unat ?a + unat ?b"
    by (simp only: ntohs_load16_be16 unat_ucast_u16_u32 unat_be16)
  have add: "unat (sum32 + ?w) = unat sum32 + (256 * unat ?a + unat ?b)"
    using Suc.prems(2) unfolding tk by (simp only: unat_word_ariths w) simp
  have rd: "read_bytes h (i * 2) 2 = Inr [?a, ?b]"
    using Suc.prems(1) take_two_more[of i h 0] by (simp add: mult.commute)
  have "\<exists>r. checksum_loop h n (Suc i) (sum32 + ?w) = Inr r \<and>
     unat r = unat (sum32 + ?w) + be_sum (take (2 * n) (drop (2 * Suc i) h))"
    by (rule Suc.IH) (use Suc.prems(1) Suc.prems(2)[unfolded tk] add in simp_all)
  then show ?case using add unfolding tk by (auto simp: rd load16_of_def)
qed

lemma unat_NOT_u16: "unat (NOT (w :: u16)) = 65535 - unat w"
proof -
  have "NOT w = - 1 - w" by (simp add: not_eq_complement)
  then have "unat (NOT w) = unat (- 1 - w)" by simp
  also have "\<dots> = unat (- 1 :: u16) - unat w"
    by (rule unat_sub) simp
  finally show ?thesis by (simp add: unsigned_minus_1_eq_mask mask_eq_exp_minus_1)
qed

lemma ucast_NOT_u32_u16: "(ucast (NOT (s :: u32)) :: u16) = NOT (of_nat (unat s))"
proof -
  have "(ucast (NOT s) :: u16) = NOT (ucast s)"
    by (auto simp: bit_eq_iff bit_ucast_iff bit_not_iff)
  then show ?thesis by simp
qed

lemma odd_u16: "len AND 1 \<noteq> 0 \<longleftrightarrow> odd (unat (len :: u16))"
proof -
  have "len AND 1 = of_bool (odd len)" by (simp add: and_one_eq mod_2_eq_odd)
  moreover have "odd len \<longleftrightarrow> odd (unat len)"
    by (simp add: bit_0 [symmetric] bit_unsigned_iff)
  ultimately show ?thesis by simp
qed

lemma be_sum_take_lt: "be_sum (take (unat (len :: u16)) h) < 2 ^ 32"
proof -
  have "length (take (unat len) h) \<le> 65535"
    using unat_less_65536[of len] by (simp only: length_take min_le_iff_disj) linarith
  then have "(length (take (unat len) h) + 1) div 2 \<le> 32768" by linarith
  then have "65535 * ((length (take (unat len) h) + 1) div 2) \<le> 65535 * 32768"
    by (rule mult_le_mono2)
  with be_sum_le[of "take (unat len) h"] show ?thesis by simp
qed

lemma be_sum_take_split:
  assumes "2 * (len div 2) \<le> length h"
  shows "be_sum (take len h) =
     be_sum (take (2 * (len div 2)) h) + be_sum (take (len mod 2) (drop (2 * (len div 2)) h))"
proof -
  have "take len h = take (2 * (len div 2)) h @ take (len mod 2) (drop (2 * (len div 2)) h)"
    by (metis mult_div_mod_eq take_add)
  then show ?thesis using assms by (simp add: be_sum_append)
qed

lemma checksum_loop_fault:
  "length h < 2 * (i + n) \<Longrightarrow> 2 * i \<le> length h \<Longrightarrow> checksum_loop h n i sum32 = Inl Fault"
proof (induction n arbitrary: i sum32)
  case 0
  then show ?case by simp
next
  case (Suc n)
  then show ?case
    by (cases "2 * Suc i \<le> length h") (simp_all add: mult.commute)
qed

text \<open>The routine as a whole on a buffer that really holds the bytes it is told to sum.\<close>

lemma net_checksum_take:
  assumes "unat len \<le> length h"
  shows "net_checksum h len = Inr (oc_checksum (take (unat len) h))"
proof -
  let ?n = "unat len div 2"
  have wc: "unat (len div 2) = ?n" by (simp add: unat_div)
  have le: "2 * ?n \<le> length h" using assms by linarith
  note split_sum = be_sum_take_split[OF le] and lim = be_sum_take_lt[of len h]
  have "be_sum (take (2 * ?n) h) < 2 ^ 32" using lim split_sum by linarith
  with checksum_loop_sum[of 0 ?n h 0] le
  obtain r where r: "checksum_loop h ?n 0 0 = Inr r" and ur: "unat r = be_sum (take (2 * ?n) h)"
    by auto
  note unfolded = net_checksum_def wc odd_u16 oc_checksum_def ucast_NOT_u32_u16 fold_carry_oc r
  show ?thesis
  proof (cases "odd (unat len)")
    case False
    then have "2 * ?n = unat len" by simp
    with ur have "be_sum (take (unat len) h) = unat r" by (simp only:)
    with False show ?thesis by (simp add: unfolded)
  next
    case True
    then have lt: "2 * ?n < length h" and one: "unat len mod 2 = 1" using assms by presburger+
    let ?b = "h ! (2 * ?n)"
    have tail: "take 1 (drop (2 * ?n) h) = [?b]"
      using lt by (simp add: take_Suc_conv_app_nth)
    let ?w = "ucast (ntohs (load16 ?b 0)) :: u32"
    have w: "unat ?w = 256 * unat ?b"
      by (simp only: ntohs_load16_be16 unat_ucast_u16_u32 unat_be16) simp
    have "unat (r + ?w) = be_sum (take (unat len) h)"
      using lim split_sum ur tail one by (simp only: unat_word_ariths w) simp
    moreover have "read_bytes h (?n * 2) 1 = Inr [?b]"
      using tail lt by (simp add: mult.commute)
    ultimately show ?thesis using True by (simp add: unfolded del: ntohs_load16)
  qed
qed

lemma net_checksum_short:
  assumes "length h < unat len"
  shows "net_checksum h len = Inl Fault"
proof -
  let ?n = "unat len div 2"
  have wc: "unat (len div 2) = ?n" by (simp add: unat_div)
  show ?thesis
  proof (cases "length h < 2 * ?n")
    case True
    then have "checksum_loop h ?n 0 0 = Inl Fault" by (intro checksum_loop_fault) simp_all
    then show ?thesis by (simp add: net_checksum_def wc)
  next
    case False
    with assms have "odd (unat len)" and "length h = 2 * ?n" by presburger+
    then show ?thesis
      by (cases "checksum_loop h ?n 0 0")
        (use checksum_loop_sum[of 0 ?n h 0] be_sum_take_lt[of len h] be_sum_take_split[of "unat len" h]
          in \<open>simp_all add: net_checksum_def wc odd_u16\<close>)
  qed
qed

section \<open>Verifying a checksum\<close>

lemma unat_oc_checksum: "unat (oc_checksum bs) = 65535 - oc_fold (be_sum bs)"
proof -
  have "unat (of_nat (oc_fold (be_sum bs)) :: u16) = oc_fold (be_sum bs)"
    using oc_fold_le[of "be_sum bs"] by (simp add: unat_of_nat)
  then show ?thesis by (simp add: oc_checksum_def unat_NOT_u16)
qed

lemma oc_fold_max: "oc_fold n = 65535 \<longleftrightarrow> n \<noteq> 0 \<and> n mod 65535 = 0"
proof
  assume "oc_fold n = 65535"
  then show "n \<noteq> 0 \<and> n mod 65535 = 0"
    using oc_fold_mod[of n] oc_fold_eq_0[of n] by auto
next
  assume "n \<noteq> 0 \<and> n mod 65535 = 0"
  then show "oc_fold n = 65535" by (intro oc_fold_unique [symmetric]) simp_all
qed

lemma oc_checksum_0_iff: "oc_checksum bs = 0 \<longleftrightarrow> be_sum bs \<noteq> 0 \<and> be_sum bs mod 65535 = 0"
proof -
  have "oc_checksum bs = 0 \<longleftrightarrow> oc_fold (be_sum bs) = 65535"
    using oc_fold_le[of "be_sum bs"] unat_oc_checksum[of bs] by (auto simp: unat_eq_0 [symmetric])
  then show ?thesis by (simp add: oc_fold_max)
qed

lemma be_sum_store16_htons [simp]: "be_sum (store16 (htons w)) = unat w"
proof -
  have "unat w div 256 < 256" using unat_less_65536[of w] by linarith
  then show ?thesis by (simp add: store16_htons unat_drop_bit)
qed

lemma be_sum_word_at:
  "even (length pre) \<Longrightarrow>
   be_sum (pre @ store16 (htons w) @ post) = be_sum pre + unat w + be_sum post"
  by (simp add: be_sum_append)

lemma oc_checksum_stamp:
  assumes "even (length pre)"
  shows "oc_checksum (pre @ store16 (htons (oc_checksum (pre @ [0, 0] @ post))) @ post) = 0"
proof -
  let ?P = "be_sum pre + be_sum post"
  have P: "be_sum (pre @ [0, 0] @ post) = ?P" using assms by (simp add: be_sum_append)
  obtain q where q: "?P = oc_fold ?P + 65535 * q"
  proof -
    have "?P = oc_fold ?P + 65535 * ((?P - 1) div 65535)"
      by (simp add: oc_fold_def)
    then show thesis by (rule that)
  qed
  have sum_eq: "be_sum (pre @ store16 (htons (oc_checksum (pre @ [0, 0] @ post))) @ post)
      = 65535 * (q + 1)"
  proof -
    define F where "F = oc_fold ?P"
    have "?P = F + 65535 * q" and "F \<le> 65535" using q oc_fold_le by (simp_all only: F_def)
    then have "be_sum pre + (65535 - F) + be_sum post = 65535 * (q + 1)" by simp
    then show ?thesis by (simp only: be_sum_word_at[OF assms] unat_oc_checksum P F_def)
  qed
  show ?thesis unfolding oc_checksum_0_iff sum_eq by simp
qed

text \<open>
  What the protocol encoders rely on: compute the checksum with the field zeroed, store it in network
  byte order at an even offset, and the receiver's computation over the result gives 0.
\<close>

locale checksum_service =
  fixes cksum :: "bytes \<Rightarrow> u16 \<Rightarrow> u16 exec"
  assumes in_bounds: "unat len \<le> length buf \<Longrightarrow> \<exists>c. cksum buf len = Inr c"
    and stamp: "even (length pre) \<Longrightarrow> length pre + 2 + length post = unat len \<Longrightarrow>
      cksum (pre @ [0, 0] @ post) len = Inr c \<Longrightarrow>
      cksum (pre @ store16 (htons c) @ post) len = Inr 0"
begin

lemma stamped_verifies:
  assumes "even off" and "off + 2 \<le> length buf" and "length buf = unat len"
    and "take 2 (drop off buf) = [0, 0]" and "cksum buf len = Inr c"
    and "write_bytes off (store16 (htons c)) buf = Inr buf'"
  shows "cksum buf' len = Inr 0"
proof -
  have "buf = take off buf @ [0, 0] @ drop (off + 2) buf"
    using assms(4) by (metis append_take_drop_id drop_drop add.commute)
  with assms(5) have "cksum (take off buf @ [0, 0] @ drop (off + 2) buf) len = Inr c"
    by simp
  with assms(1-3) have "cksum (take off buf @ store16 (htons c) @ drop (off + 2) buf) len = Inr 0"
    by (intro stamp) (simp_all add: min_def)
  moreover have "buf' = take off buf @ store16 (htons c) @ drop (off + 2) buf"
    using assms(2,6) by (simp add: write_bytes_def)
  ultimately show ?thesis by simp
qed

end

interpretation inet: checksum_service net_checksum
proof
  show "\<exists>c. net_checksum buf len = Inr c" if "unat len \<le> length buf" for len buf
    using that by (simp add: net_checksum_take)
next
  fix pre post :: bytes and len c :: u16
  assume "even (length pre)" and len: "length pre + 2 + length post = unat len"
    and c: "net_checksum (pre @ [0, 0] @ post) len = Inr c"
  have tk: "take (unat len) (pre @ w @ post) = pre @ w @ post" if "length w = 2" for w
    using that len by simp
  have "c = oc_checksum (pre @ [0, 0] @ post)"
    using c len tk[of "[0, 0]"] by (subst (asm) net_checksum_take) simp_all
  then show "net_checksum (pre @ store16 (htons c) @ post) len = Inr 0"
    using len tk[of "store16 (htons c)"] oc_checksum_stamp[OF \<open>even (length pre)\<close>, of post]
    by (subst net_checksum_take) simp_all
qed

lemma net_checksum_eq:
  "net_checksum buf len =
     (if unat len \<le> length buf then Inr (oc_checksum (take (unat len) buf)) else Inl Fault)"
  by (simp add: net_checksum_take net_checksum_short)

text \<open>Changing one aligned word changes the sum modulo 65535, unless one zero becomes the other.\<close>

lemma word_error_detected:
  assumes "even (length pre)" and "oc_checksum (pre @ store16 (htons v) @ post) = 0"
    and "v \<noteq> w" and "{v, w} \<noteq> {0, 0xFFFF}"
  shows "oc_checksum (pre @ store16 (htons w) @ post) \<noteq> 0"
proof
  assume err: "oc_checksum (pre @ store16 (htons w) @ post) = 0"
  have "(be_sum pre + unat x + be_sum post) mod 65535 = 0"
    if "oc_checksum (pre @ store16 (htons x) @ post) = 0" for x
    using that by (simp add: oc_checksum_0_iff be_sum_word_at assms(1))
  from this[OF assms(2)] this[OF err]
  have "(be_sum pre + be_sum post + unat v) mod 65535 = (be_sum pre + be_sum post + unat w) mod 65535"
    by (simp add: ac_simps)
  then have "unat v mod 65535 = unat w mod 65535" by (simp add: nat_mod_eq_iff)
  moreover have "unat x mod 65535 = (if unat x = 65535 then 0 else unat x)" for x :: u16
  proof -
    have "unat x = 65535 \<or> unat x < 65535" using unat_less_65536[of x] by linarith
    then show ?thesis by auto
  qed
  ultimately have "unat v = unat w \<or> {unat v, unat w} = {0, 65535}"
    by (auto split: if_splits)
  then have "{v, w} = {0, 0xFFFF}"
    using assms(3) by (auto simp: word_unat_eq_iff doubleton_eq_iff)
  with assms(4) show False by simp
qed

section \<open>Properties\<close>

text \<open>
  C6: \<^verbatim>\<open>net_checksum\<close> computes the Internet checksum: the complement of the one's complement sum of
  the big-endian 16-bit words of the first \<open>len\<close> bytes, an odd last byte padded with zero. The
  32-bit accumulator never wraps and the folding loop ends. It reads outside the buffer exactly when
  the buffer is shorter than \<open>len\<close>.
\<close>

theorem net_checksum_correct:
  "net_checksum buf len =
     (if unat len \<le> length buf then Inr (oc_checksum (take (unat len) buf)) else Inl Fault)"
  by (rule net_checksum_eq)

text \<open>
  C20: A message whose checksum field (at an even offset, zero while summing) is filled with
  \<^verbatim>\<open>htons(net_checksum(...))\<close> passes the receiver's test \<^verbatim>\<open>net_checksum(...) == 0\<close>.
\<close>

theorem checksum_stamp_verifies:
  assumes "even off" and "off + 2 \<le> length buf" and "length buf = unat len"
    and "take 2 (drop off buf) = [0, 0]" and "net_checksum buf len = Inr c"
    and "write_bytes off (store16 (htons c)) buf = Inr buf'"
  shows "net_checksum buf' len = Inr 0"
  using assms by (rule inet.stamped_verifies)

theorem checksum_stamp_verifies_witness:
  "net_checksum [0x45, 0, 0xBA, 0xFE, 0, 1] 6 = Inr 0"
  by (rule checksum_stamp_verifies
      [where off = 2 and buf = "[0x45, 0, 0, 0, 0, 1]" and c = "0xBAFE"])
     (simp_all add: net_checksum_eq oc_checksum_def oc_fold_def write_bytes_def store16_htons)

text \<open>
  C19: The receiver's test detects every corruption of one aligned 16-bit word of a valid message,
  except the exchange of the two representations of zero (0x0000 and 0xFFFF).
\<close>

theorem checksum_detects_word_error:
  assumes "even (length pre)" and "length (pre @ post) + 2 = unat len"
    and "net_checksum (pre @ store16 (htons v) @ post) len = Inr 0"
    and "v \<noteq> w" and "{v, w} \<noteq> {0, 0xFFFF}"
  shows "net_checksum (pre @ store16 (htons w) @ post) len \<noteq> Inr 0"
  using word_error_detected[OF assms(1) _ assms(4,5)] assms(2,3)
  by (auto simp: net_checksum_eq split: if_splits)

theorem checksum_detects_word_error_witness:
  "net_checksum [0x46, 0, 0xBA, 0xFE, 0, 1] 6 \<noteq> Inr 0"
proof -
  have "net_checksum ([] @ store16 (htons 0x4600) @ [0xBA, 0xFE, 0, 1]) 6 \<noteq> Inr 0"
    by (rule checksum_detects_word_error[where v = "0x4500"])
       (simp_all add: net_checksum_eq oc_checksum_def oc_fold_def store16_htons doubleton_eq_iff)
  then show ?thesis by (simp add: store16_def htons_def ntohs_def)
qed

end
