(* ===== verification/Ipv4_Tx.thy ===== *)
theory Ipv4_Tx
  imports Arp Checksum
begin

text \<open>
  The sending half of IPv4 (\<^verbatim>\<open>protocols/ipv4.c\<close>): handing a packet to the transmit queue, building and
  transmitting it in \<^verbatim>\<open>ipv4_task\<close>. The data buffer changes owner with the queue item; the theorems
  account for it on every path.
\<close>

section \<open>Model\<close>

definition ipv4_set_self_net_context :: "net_context \<Rightarrow> ('k, 'z) base \<Rightarrow> ('k, 'z) base" where
  "ipv4_set_self_net_context net s = s\<lparr>self_net := net\<rparr>"

definition send_ipv4_packet ::
  "'k rtos \<Rightarrow> ipv4_transmit_params \<Rightarrow> ('k, 'z) base \<Rightarrow> (esp_err \<times> ('k, 'z) base) exec" where
  "send_ipv4_packet R params s =
     (if ipv4_transmit_queue s = None
      then rbind (free (ip_data params) s) (\<lambda>s. Inr (ESP_FAIL, s))
      else
        rbind (q_send R (ipv4_transmit_queue s) (Ipv4Tx params) 0 s) (\<lambda>(ok, s).
        if \<not> ok then rbind (free (ip_data params) s) (\<lambda>s. Inr (ESP_FAIL, s))
        else Inr (ESP_OK, s)))"

text \<open>The header as it is first written, with a zero checksum.\<close>

definition ipv4_header_bytes :: "ipv4_transmit_params \<Rightarrow> bytes" where
  "ipv4_header_bytes params =
     [push_bit 4 4 OR 20 div 4] @ [0] @ store16 (htons (20 + ip_data_len params)) @ [0, 0]
     @ store16 (htons (push_bit 13 2)) @ [128] @ [ip_protocol params] @ [0, 0]
     @ ip_bytes (ip_src_ipv4_addr params) @ ip_bytes (ip_dst_ipv4_addr params)"

definition internal_send_ipv4_packet ::
  "'k rtos \<Rightarrow> (('k, 'z) arp \<Rightarrow> ('k, 'z) arp exec) \<Rightarrow> ipv4_transmit_params \<Rightarrow> ('k, 'z) arp
    \<Rightarrow> (esp_err \<times> ('k, 'z) arp) exec" where
  "internal_send_ipv4_packet R wait params s =
     (let packet_len = 20 + ip_data_len params;
          (packet_buf, s) = malloc (unat packet_len) s in
      if packet_buf = None
      then rbind (free (ip_data params) s) (\<lambda>s. Inr (ESP_ERR_NO_MEM, s))
      else
        rbind (heap_write packet_buf 0 (ipv4_header_bytes params) s) (\<lambda>s.
        rbind (heap_read packet_buf 20 s) (\<lambda>header.
        rbind (net_checksum header 20) (\<lambda>checksum.
        rbind (heap_write packet_buf 10 (store16 (htons checksum)) s) (\<lambda>s.
        rbind (heap_read (ip_data params) (unat (ip_data_len params)) s) (\<lambda>data.
        rbind (heap_write packet_buf 20 data s) (\<lambda>s.
        rbind (free (ip_data params) s) (\<lambda>s.
        rbind (arp_get_mac_addr R wait (ip_dst_ipv4_addr params) s) (\<lambda>((result, dst_mac_addr), s).
        if result \<noteq> ESP_OK
        then rbind (free packet_buf s) (\<lambda>s. Inr (result, s))
        else
          rbind (heap_read packet_buf (unat packet_len) s) (\<lambda>packet.
          rbind (eth_tx R (the dst_mac_addr) (nc_mac (self_net s)) (htons IPV4_ETHERTYPE)
                   packet packet_len s) (\<lambda>(result, s).
          rbind (free packet_buf s) (\<lambda>s.
          Inr (result, s)))))))))))))"

text \<open>One iteration of \<^verbatim>\<open>ipv4_task\<close>; it waits for an item without limit.\<close>

definition ipv4_task_step ::
  "'k rtos \<Rightarrow> (('k, 'z) arp \<Rightarrow> ('k, 'z) arp exec) \<Rightarrow> ('k, 'z) arp \<Rightarrow> ('k, 'z) arp exec" where
  "ipv4_task_step R wait s =
     rbind (q_receive R (ipv4_transmit_queue s) portMAX_DELAY s) (\<lambda>(item, s).
     case item of
       Some (Ipv4Tx params) \<Rightarrow>
         rbind (internal_send_ipv4_packet R wait params s) (\<lambda>(result, s). Inr s)
     | None \<Rightarrow> Inr s
     | _ \<Rightarrow> Inl Fault)"

text \<open>\<^verbatim>\<open>struct ipv4_header_t\<close> as the receivers read it.\<close>

record ipv4_header =
  h_version_and_ihl :: u8
  h_dscp_and_ecn :: u8
  h_total_length :: u16
  h_identification :: u16
  h_flags_and_fragment_offset :: u16
  h_ttl :: u8
  h_protocol :: u8
  h_header_checksum :: u16
  h_src_ipv4_addr :: ipv4_addr
  h_dst_ipv4_addr :: ipv4_addr

definition ipv4_header_at :: "bytes \<Rightarrow> ipv4_header" where
  "ipv4_header_at b = \<lparr>h_version_and_ihl = b ! 0, h_dscp_and_ecn = b ! 1,
     h_total_length = load16_of (drop 2 b), h_identification = load16_of (drop 4 b),
     h_flags_and_fragment_offset = load16_of (drop 6 b), h_ttl = b ! 8, h_protocol = b ! 9,
     h_header_checksum = load16_of (drop 10 b), h_src_ipv4_addr = ip_of_bytes (drop 12 b),
     h_dst_ipv4_addr = ip_of_bytes (drop 16 b)\<rparr>"

section \<open>The packet\<close>

definition ipv4_packet :: "ipv4_transmit_params \<Rightarrow> bytes \<Rightarrow> bytes" where
  "ipv4_packet params data =
     take 10 (ipv4_header_bytes params)
     @ store16 (htons (oc_checksum (ipv4_header_bytes params)))
     @ drop 12 (ipv4_header_bytes params) @ data"

lemma length_ipv4_header_bytes [simp]: "length (ipv4_header_bytes p) = 20"
  by (simp add: ipv4_header_bytes_def)

lemma length_ipv4_packet [simp]: "length (ipv4_packet p data) = 20 + length data"
  by (simp add: ipv4_packet_def)

lemma ipv4_header_split:
  "ipv4_header_bytes p = take 10 (ipv4_header_bytes p) @ [0, 0] @ drop 12 (ipv4_header_bytes p)"
  by (simp add: ipv4_header_bytes_def store16_def)

lemma ipv4_packet_checksum: "net_checksum (ipv4_packet p data) 20 = Inr 0"
proof -
  let ?pre = "take 10 (ipv4_header_bytes p)" and ?post = "drop 12 (ipv4_header_bytes p)"
  have "oc_checksum (?pre @ store16 (htons (oc_checksum (?pre @ [0, 0] @ ?post))) @ ?post) = 0"
    by (rule oc_checksum_stamp) simp
  moreover have "?pre @ [0, 0] @ ?post = ipv4_header_bytes p"
    by (rule ipv4_header_split [symmetric])
  ultimately show ?thesis
    by (subst net_checksum_take) (simp_all add: ipv4_packet_def)
qed

text \<open>The block after the header, the checksum and the data have been written.\<close>

lemma build_ipv4_packet:
  assumes "length blk = 20 + length data"
  shows "rbind (write_bytes 0 (ipv4_header_bytes p) blk) (\<lambda>b.
         rbind (write_bytes 10 (store16 (htons (oc_checksum (ipv4_header_bytes p)))) b)
           (write_bytes 20 data)) = Inr (ipv4_packet p data)"
proof -
  let ?h = "ipv4_header_bytes p" and ?c = "store16 (htons (oc_checksum (ipv4_header_bytes p)))"
  have "write_bytes 0 ?h blk = Inr (?h @ drop 20 blk)"
    using assms by (simp add: write_bytes_front)
  moreover have "write_bytes 10 ?c (?h @ drop 20 blk) = Inr (take 10 ?h @ ?c @ drop 12 ?h @ drop 20 blk)"
    by (simp add: write_bytes_def)
  moreover have "write_bytes 20 data (take 10 ?h @ ?c @ drop 12 ?h @ drop 20 blk) = Inr (ipv4_packet p data)"
    using assms write_bytes_next[of 20 "take 10 ?h @ ?c @ drop 12 ?h" data "drop 20 blk"]
    by (simp add: ipv4_packet_def)
  ultimately show ?thesis by simp
qed

text \<open>
  What remains to be done once the packet is complete and the data has been released: resolve the
  address, transmit, release the packet.
\<close>

definition transmit_packet ::
  "'k rtos \<Rightarrow> (('k, 'z) arp \<Rightarrow> ('k, 'z) arp exec) \<Rightarrow> ipv4_transmit_params \<Rightarrow> ptr \<Rightarrow> ('k, 'z) arp
    \<Rightarrow> (esp_err \<times> ('k, 'z) arp) exec" where
  "transmit_packet R wait params packet_buf s =
     rbind (arp_get_mac_addr R wait (ip_dst_ipv4_addr params) s) (\<lambda>((result, dst_mac_addr), s).
     if result \<noteq> ESP_OK
     then rbind (free packet_buf s) (\<lambda>s. Inr (result, s))
     else
       rbind (heap_read packet_buf (unat (20 + ip_data_len params)) s) (\<lambda>packet.
       rbind (eth_tx R (the dst_mac_addr) (nc_mac (self_net s)) (htons IPV4_ETHERTYPE)
                packet (20 + ip_data_len params) s) (\<lambda>(result, s).
       rbind (free packet_buf s) (\<lambda>s. Inr (result, s)))))"

lemma internal_send_eq:
  assumes "heap_ok s" and "unat (ip_data_len p) \<le> 65515"
    and "heap_read (ip_data p) (unat (ip_data_len p)) s = Inr data"
  shows "internal_send_ipv4_packet R wait p s =
     (if oom (heap s) (brk (heap s))
      then rbind (free (ip_data p) (bump s)) (\<lambda>s. Inr (ESP_ERR_NO_MEM, s))
      else rbind (free (ip_data p) (with_block (brk (heap s)) (ipv4_packet p data) s))
             (transmit_packet R wait p (Some (brk (heap s)))))"
proof -
  let ?a = "brk (heap s)" and ?h = "ipv4_header_bytes p"
  have len: "unat (20 + ip_data_len p) = 20 + unat (ip_data_len p)"
    using assms(2) by (simp add: unat_plus_u16)
  have dlen: "length data = unat (ip_data_len p)"
    using assms(3) by (auto simp: heap_read_def read_bytes_eq_Inr split: if_splits option.splits)
  define blk where "blk = map (junk (heap s) ?a) [0..<20 + unat (ip_data_len p)]"
  have bl: "length blk = 20 + length data" by (simp add: blk_def dlen)
  note w = build_ipv4_packet[OF bl, of p]
  obtain b1 where b1: "write_bytes 0 ?h blk = Inr b1" "take 20 b1 = ?h" "length b1 = length blk"
    using bl by (simp add: write_bytes_front)
  have rd: "read_bytes b1 0 20 = Inr ?h" using b1 bl by simp
  have ck: "net_checksum ?h 20 = Inr (oc_checksum ?h)" by (simp add: net_checksum_take)
  obtain b2 where b2: "write_bytes 10 (store16 (htons (oc_checksum ?h))) b1 = Inr b2"
    "write_bytes 20 data b2 = Inr (ipv4_packet p data)"
    using w b1(1) by (auto simp: rbind_eq_Inr)
  have rest: "heap_read (ip_data p) (unat (ip_data_len p)) (with_block ?a b2 s) = Inr data"
    using assms(1,3) by (rule heap_read_other_block)
  show ?thesis
    by (simp add: internal_send_ipv4_packet_def malloc_with_block len blk_def[symmetric] b1 rd ck b2 rest
        transmit_packet_def[abs_def] Let_def del: read_bytes_ok)
qed

text \<open>
  The release phase, once the address has been looked up: \<open>a\<close> is the block of the packet and the
  rest of the system has left it alone in the meantime.
\<close>

lemma transmit_packet_eq:
  assumes arp: "arp_get_mac_addr R wait (ip_dst_ipv4_addr p) s = Inr ((result, mac), t)"
    and ok: "heap_ok t" and blk: "cells (heap t) a = Some pkt"
    and len: "length pkt = 20 + unat (ip_data_len p)" "unat (ip_data_len p) \<le> 65501"
  shows "transmit_packet R wait p (Some a) s =
     (if result \<noteq> ESP_OK then Inr (result, release a t)
      else if oom (heap t) (brk (heap t)) then Inr (ESP_ERR_NO_MEM, release a (bump t))
      else let (result, k) = esp_wifi_internal_tx R
                 (eth_frame_bytes (the mac) (nc_mac (self_net t)) (htons IPV4_ETHERTYPE) pkt) (kern t)
           in Inr (result, release a ((bump t)\<lparr>kern := k\<rparr>)))"
proof -
  have n: "unat (20 + ip_data_len p) = length pkt"
    using len by (simp add: unat_plus_u16)
  have rd: "heap_read (Some a) (length pkt) t = Inr pkt"
    by (simp add: heap_read_def blk)
  have fb: "free (Some a) t = Inr (release a t)" "free (Some a) (bump t) = Inr (release a (bump t))"
    "\<And>k. free (Some a) ((bump t)\<lparr>kern := k\<rparr>) = Inr (release a ((bump t)\<lparr>kern := k\<rparr>))"
    using blk by (auto intro: free_release)
  have "length pkt \<le> 65521" using len by simp
  then show ?thesis
    by (simp add: transmit_packet_def arp n rd fb eth_tx_eq[OF ok] split: prod.splits)
qed

section \<open>The transmit queue under the kernel contract\<close>

context rtos_contract
begin

lemma send_ipv4_packet_cases:
  assumes "queue_holds P (view (kern s)) (ipv4_transmit_queue s)"
    and "cells (heap s) d = Some blk" and "ip_data p = Some d"
  obtains (queued) k q cap ms where "send_ipv4_packet R p s = Inr (ESP_OK, s\<lparr>kern := k\<rparr>)"
        "queue_room (view (kern s)) (ipv4_transmit_queue s)"
        "ipv4_transmit_queue s = Some q" "kv_queues (view (kern s)) q = Some (cap, ms)"
        "view k = (view (kern s))\<lparr>kv_queues := (kv_queues (view (kern s)))(q \<mapsto> (cap, ms @ [Ipv4Tx p]))\<rparr>"
    | (full) k where "send_ipv4_packet R p s = Inr (ESP_FAIL, release d (s\<lparr>kern := k\<rparr>))"
        "\<not> queue_room (view (kern s)) (ipv4_transmit_queue s)" "view k = view (kern s)"
proof -
  have some: "ipv4_transmit_queue s \<noteq> None" using assms(1) by (auto simp: queue_holds_def)
  have fr: "free (Some d) (s\<lparr>kern := k\<rparr>) = Inr (release d (s\<lparr>kern := k\<rparr>))" for k
    using assms(2) by (auto intro: free_release)
  from assms(1) show thesis
  proof (cases rule: q_send_cases[where m = "Ipv4Tx p"])
    case (full k)
    then show thesis
      using some fr assms(3) by (intro that(2)[of k]) (auto simp: send_ipv4_packet_def)
  next
    case (sent k q cap ms)
    then show thesis by (intro that(1)[of k q cap ms]) (simp_all add: send_ipv4_packet_def)
  qed
qed

end

section \<open>A concrete transmission\<close>

text \<open>Three bytes of data in block 0, an empty transmit queue 2, and a cached neighbour.\<close>

definition ipv4_s1 :: "refk arp_net" where
  "ipv4_s1 = (arp1 [] [])
     \<lparr>heap := heap0\<lparr>cells := [0 \<mapsto> [10, 20, 30]], brk := 1\<rparr>,
      kern := ref_init\<lparr>kv_queues := [0 \<mapsto> (4, []), 1 \<mapsto> (4, []), 2 \<mapsto> (4, [])], rk_next := 3\<rparr>,
      ipv4_transmit_queue := Some 2,
      ip_mac_cache := (IPv4 192 168 1 1, MAC 1 2 3 4 5 6) # replicate 15 (0, 0)\<rparr>"

definition ipv4_p1 :: ipv4_transmit_params where
  "ipv4_p1 = \<lparr>ip_src_ipv4_addr = IPv4 192 168 1 230, ip_dst_ipv4_addr = IPv4 192 168 1 1,
     ip_protocol = 6, ip_data = Some 0, ip_data_len = 2\<rparr>"

lemmas ipv4_state_defs = ipv4_s1_def ipv4_p1_def arp_state_defs

section \<open>Properties\<close>

text \<open>
  C18: for data of at most 65501 bytes, \<^verbatim>\<open>internal_send_ipv4_packet\<close> builds the packet of the
  parameters with a valid checksum, releases the data before it resolves the address, and ends with
  the packet block released on every path: the lookup's error, \<open>ESP_ERR_NO_MEM\<close> from the frame, or the
  driver's result after exactly one IPv4 frame to the resolved address. \<open>b\<close> is the state in which the
  lookup starts and \<open>t\<close> the one in which it returns.
\<close>

theorem ipv4_transmit_correct:
  assumes "heap_ok s" and "unat (ip_data_len p) \<le> 65501" and "\<not> oom (heap s) (brk (heap s))"
    and "ip_data p = Some d" and "cells (heap s) d = Some blk" and "unat (ip_data_len p) \<le> length blk"
    and "pkt = ipv4_packet p (take (unat (ip_data_len p)) blk)"
    and "b = release d (with_block (brk (heap s)) pkt s)"
    and "arp_get_mac_addr R wait (ip_dst_ipv4_addr p) b = Inr ((result, mac), t)"
    and "heap_ok t" and "cells (heap t) (brk (heap s)) = Some pkt"
  shows "net_checksum pkt 20 = Inr 0 \<and>
     internal_send_ipv4_packet R wait p s =
     (if result \<noteq> ESP_OK then Inr (result, release (brk (heap s)) t)
      else if oom (heap t) (brk (heap t)) then Inr (ESP_ERR_NO_MEM, release (brk (heap s)) (bump t))
      else let (result, k) = esp_wifi_internal_tx R
                 (mac_bytes (the mac) @ mac_bytes (nc_mac (self_net t)) @ [8, 0] @ pkt) (kern t)
           in Inr (result, release (brk (heap s)) ((bump t)\<lparr>kern := k\<rparr>)))"
proof -
  let ?data = "take (unat (ip_data_len p)) blk"
  have rd: "heap_read (ip_data p) (unat (ip_data_len p)) s = Inr ?data"
    using assms(4-6) by (simp add: heap_read_def)
  have "d < brk (heap s)" using assms(1,5) by (rule heap_ok_live)
  then have "free (ip_data p) (with_block (brk (heap s)) pkt s) = Inr b"
    using assms(4,5,8) by (auto intro: free_release)
  moreover have "internal_send_ipv4_packet R wait p s =
      rbind (free (ip_data p) (with_block (brk (heap s)) pkt s))
        (transmit_packet R wait p (Some (brk (heap s))))"
    using internal_send_eq[OF assms(1) _ rd] assms(2,3,7) by simp
  moreover have "store16 (htons IPV4_ETHERTYPE) = [8, 0]"
    by (simp add: store16_def htons_def ntohs_def)
  moreover have "length pkt = 20 + unat (ip_data_len p)" using assms(6,7) by simp
  ultimately show ?thesis
    using transmit_packet_eq[OF assms(9-11)] assms(2,7)
    by (simp add: eth_frame_bytes_def ipv4_packet_checksum)
qed

theorem ipv4_transmit_correct_witness:
  "\<exists>s'. internal_send_ipv4_packet ref_rtos (\<lambda>s. Inr (task_notify ref_rtos 0 s)) ipv4_p1 ipv4_s1 = Inr (ESP_OK, s') \<and>
     rk_air (kern s') = [mac_bytes (MAC 1 2 3 4 5 6) @ mac_bytes (nc_mac (self_net ipv4_s1)) @ [8, 0]
       @ ipv4_packet ipv4_p1 [10, 20]] \<and>
     cells (heap s') = Map.empty"
proof -
  let ?pkt = "ipv4_packet ipv4_p1 (take (unat (ip_data_len ipv4_p1)) [10, 20, 30])"
  let ?b = "release 0 (with_block (brk (heap ipv4_s1)) ?pkt ipv4_s1)"
  obtain t where t: "arp_get_mac_addr ref_rtos (\<lambda>s. Inr (task_notify ref_rtos 0 s)) (ip_dst_ipv4_addr ipv4_p1) ?b =
      Inr ((ESP_OK, Some (MAC 1 2 3 4 5 6)), t)" "t = ?b\<lparr>kern := kern t\<rparr>" "rk_air (kern t) = []"
    by (simp add: arp_get_mac_addr_def q_send_def notify_take_def task_notify_def arp_get_cached_mac_addr_def
        ipv4_state_defs ref_defs release_def with_block_def)
  have cl: "cells (heap t) = [1 \<mapsto> ?pkt]" "brk (heap t) = 2" "oom (heap t) = (\<lambda>_. False)"
    "self_net t = self_net ipv4_s1"
    by (subst t(2), simp add: ipv4_state_defs)+
  have "heap_ok t" by (simp add: heap_ok_def cl)
  moreover have "heap_ok ipv4_s1" "\<not> oom (heap ipv4_s1) (brk (heap ipv4_s1))" "ip_data ipv4_p1 = Some 0"
    "cells (heap ipv4_s1) 0 = Some [10, 20, 30]" "brk (heap ipv4_s1) = 1" "unat (ip_data_len ipv4_p1) = 2"
    by (simp_all add: heap_ok_def ipv4_state_defs)
  ultimately show ?thesis
    using ipv4_transmit_correct[of ipv4_s1 ipv4_p1 0 "[10, 20, 30]", OF _ _ _ _ _ _ refl refl t(1)] t(3)
    by (simp add: cl ref_rtos_def fun_upd_idem)
qed

text \<open>
  C27: data of more than 65515 bytes makes the 16-bit packet length wrap: the block is shorter than the
  header and the header is written past its end. Without memory the data is released and
  \<open>ESP_ERR_NO_MEM\<close> is returned.
\<close>

theorem ipv4_transmit_bounds:
  assumes "heap_ok s" and "ip_data p = Some d" and "cells (heap s) d = Some blk"
  shows "(oom (heap s) (brk (heap s)) \<longrightarrow>
       internal_send_ipv4_packet R wait p s = Inr (ESP_ERR_NO_MEM, release d (bump s))) \<and>
     (\<not> oom (heap s) (brk (heap s)) \<and> 65515 < unat (ip_data_len p) \<longrightarrow>
       internal_send_ipv4_packet R wait p s = Inl Fault)"
proof (intro conjI impI)
  assume "oom (heap s) (brk (heap s))"
  moreover have "free (Some d) (bump s) = Inr (release d (bump s))"
    using assms(3) by (auto intro: free_release)
  ultimately show "internal_send_ipv4_packet R wait p s = Inr (ESP_ERR_NO_MEM, release d (bump s))"
    using assms(2) by (simp add: internal_send_ipv4_packet_def malloc_with_block Let_def)
next
  assume *: "\<not> oom (heap s) (brk (heap s)) \<and> 65515 < unat (ip_data_len p)"
  then have "unat (20 + ip_data_len p) < 20"
    using unat_less_65536[of "ip_data_len p"] by (simp add: unat_plus_u16 del: unat_less_65536)
  with * show "internal_send_ipv4_packet R wait p s = Inl Fault"
    by (simp add: internal_send_ipv4_packet_def malloc_with_block Let_def write_bytes_fault)
qed

theorem ipv4_transmit_bounds_witness:
  "internal_send_ipv4_packet ref_rtos Inr (ipv4_p1\<lparr>ip_data_len := 65516\<rparr>) ipv4_s1 = Inl Fault"
  using ipv4_transmit_bounds[of ipv4_s1 "ipv4_p1\<lparr>ip_data_len := 65516\<rparr>" 0 "[10, 20, 30]" ref_rtos Inr]
  by (simp add: heap_ok_def ipv4_state_defs)

text \<open>
  C28: \<^verbatim>\<open>send_ipv4_packet\<close> takes over the data on every path: if the transmit queue has room it returns
  \<open>ESP_OK\<close> and the packet is the last one in the queue, with the heap untouched; otherwise it returns
  \<open>ESP_FAIL\<close>, the data is released and the queue is as before. It never blocks.
\<close>

theorem send_ipv4_packet_owns_data:
  assumes "rtos_contract R view" and "queue_holds P (view (kern s)) (ipv4_transmit_queue s)"
    and "ip_data p = Some d" and "cells (heap s) d = Some blk"
  shows "\<exists>e s'. send_ipv4_packet R p s = Inr (e, s') \<and>
     (if queue_room (view (kern s)) (ipv4_transmit_queue s)
      then e = ESP_OK \<and> cells (heap s') = cells (heap s) \<and>
        queue_items (view (kern s')) (ipv4_transmit_queue s) =
        queue_items (view (kern s)) (ipv4_transmit_queue s) @ [Ipv4Tx p]
      else e = ESP_FAIL \<and> cells (heap s') = (cells (heap s))(d := None) \<and> view (kern s') = view (kern s))"
  by (rule rtos_contract.send_ipv4_packet_cases[OF assms(1,2,4,3)]) (auto simp: queue_items_def)

theorem send_ipv4_packet_owns_data_witness:
  "\<exists>s'. send_ipv4_packet ref_rtos ipv4_p1 ipv4_s1 = Inr (ESP_OK, s') \<and>
     queue_items (kview.truncate (kern s')) (Some 2) = [Ipv4Tx ipv4_p1]"
proof -
  have "queue_holds (\<lambda>_. True) (kview.truncate (kern ipv4_s1)) (ipv4_transmit_queue ipv4_s1)"
    by (simp add: queue_holds_def ipv4_state_defs kview.truncate_def)
  from send_ipv4_packet_owns_data[OF refk.rtos_contract_axioms this, of ipv4_p1 0 "[10, 20, 30]"]
  show ?thesis
    by (auto simp: ipv4_state_defs kview.truncate_def queue_items_def send_ipv4_packet_def q_send_def
        ref_defs)
qed

end
