(* ===== verification/Icmp.thy ===== *)
theory Icmp
  imports Ipv4_Tx
begin

text \<open>
  The ICMP echo responder (\<^verbatim>\<open>protocols/icmpv4.c\<close>): it answers a ping with the identifier, the sequence
  number and the payload of the request. A received frame belongs to the driver, so a pointer into it
  is the list of the bytes from there to the end of the frame.
\<close>

section \<open>Model\<close>

record icmpv4_header =
  ih_type :: u8
  ih_code :: u8
  ih_checksum :: u16
  ih_id :: u16
  ih_seq_num :: u16

definition icmpv4_header_at :: "bytes \<Rightarrow> icmpv4_header" where
  "icmpv4_header_at b = \<lparr>ih_type = b ! 0, ih_code = b ! 1, ih_checksum = load16_of (drop 2 b),
     ih_id = load16_of (drop 4 b), ih_seq_num = load16_of (drop 6 b)\<rparr>"

definition icmpv4_header_bytes :: "icmpv4_header \<Rightarrow> bytes" where
  "icmpv4_header_bytes h = [ih_type h, ih_code h] @ store16 (ih_checksum h) @ store16 (ih_id h)
     @ store16 (ih_seq_num h)"

definition icmpv4_set_self_net_context :: "net_context \<Rightarrow> ('k, 'z) base \<Rightarrow> ('k, 'z) base" where
  "icmpv4_set_self_net_context net s = s\<lparr>self_net := net\<rparr>"

definition send_icmpv4_ping_reply ::
  "'k rtos \<Rightarrow> ipv4_addr \<Rightarrow> u16 \<Rightarrow> u16 \<Rightarrow> bytes \<Rightarrow> u16 \<Rightarrow> ('k, 'z) base
    \<Rightarrow> (esp_err \<times> ('k, 'z) base) exec" where
  "send_icmpv4_ping_reply R dst_ipv4_addr id_num seq_num data data_len s =
     (let (icmpv4_packet, s) = malloc (8 + unat data_len) s in
      if icmpv4_packet = None then Inr (ESP_ERR_NO_MEM, s)
      else
        rbind (heap_write icmpv4_packet 0 (icmpv4_header_bytes
           \<lparr>ih_type = 0, ih_code = 0, ih_checksum = 0, ih_id = htons id_num,
            ih_seq_num = htons seq_num\<rparr>) s) (\<lambda>s.
        rbind (read_bytes data 0 (unat data_len)) (\<lambda>payload.
        rbind (heap_write icmpv4_packet 8 payload s) (\<lambda>s.
        rbind (heap_read icmpv4_packet (8 + unat data_len) s) (\<lambda>packet.
        rbind (net_checksum packet (8 + data_len)) (\<lambda>checksum.
        rbind (heap_write icmpv4_packet 2 (store16 (htons checksum)) s) (\<lambda>s.
        send_ipv4_packet R
          \<lparr>ip_src_ipv4_addr = nc_ip (self_net s), ip_dst_ipv4_addr = dst_ipv4_addr,
           ip_protocol = ICMP_PROTOCOL_NUMBER, ip_data = icmpv4_packet, ip_data_len = 8 + data_len\<rparr> s)))))))"

definition icmpv4_input :: "'k rtos \<Rightarrow> bytes \<Rightarrow> u16 \<Rightarrow> ('k, 'z) base \<Rightarrow> ('k, 'z) base exec" where
  "icmpv4_input R buffer buffer_len s =
     (if buffer_len < 20 + 8 then Inr s
      else
        rbind (read_bytes buffer 0 20) (\<lambda>ipv4_raw.
        rbind (read_bytes buffer 20 8) (\<lambda>raw.
        (let ipv4_header = ipv4_header_at ipv4_raw; header = icmpv4_header_at raw in
         if ih_type header = 8 \<and> ih_code header = 0 then
           (let payload_len = ntohs (h_total_length ipv4_header) - 20 - 8 in
            rbind (send_icmpv4_ping_reply R (h_src_ipv4_addr ipv4_header) (ntohs (ih_id header))
                     (ntohs (ih_seq_num header)) (drop (20 + 8) buffer) payload_len s) (\<lambda>(result, s).
            Inr s))
         else Inr s))))"

section \<open>The reply\<close>

text \<open>An ICMP message: a header with the checksum of the whole message, and a payload.\<close>

definition icmp_message :: "u8 \<Rightarrow> u8 \<Rightarrow> u16 \<Rightarrow> u16 \<Rightarrow> bytes \<Rightarrow> bytes" where
  "icmp_message type code id_num seq_num payload =
     (let rest = store16 (htons id_num) @ store16 (htons seq_num) @ payload
      in [type, code] @ store16 (htons (oc_checksum ([type, code] @ [0, 0] @ rest))) @ rest)"

lemma length_icmp_message [simp]: "length (icmp_message t c i q pl) = 8 + length pl"
  by (simp add: icmp_message_def Let_def)

lemma icmp_message_checksum: "oc_checksum (icmp_message t c i q pl) = 0"
  using oc_checksum_stamp[of "[t, c]" "store16 (htons i) @ store16 (htons q) @ pl"]
  by (simp add: icmp_message_def Let_def)

lemma icmpv4_header_at_message:
  "icmpv4_header_at (take 8 (icmp_message t c i q pl)) =
     \<lparr>ih_type = t, ih_code = c, ih_checksum = htons (oc_checksum ([t, c] @ [0, 0]
        @ store16 (htons i) @ store16 (htons q) @ pl)), ih_id = htons i, ih_seq_num = htons q\<rparr>"
  by (simp add: icmpv4_header_at_def icmp_message_def Let_def store16_def load16_of_def)

text \<open>Building the reply in a fresh block and handing it over.\<close>

lemma ping_reply_eq:
  assumes "heap_ok s" and "\<not> oom (heap s) (brk (heap s))"
    and "unat data_len \<le> length data" and "unat data_len \<le> 65527"
  shows "send_icmpv4_ping_reply R dst i q data data_len s =
     send_ipv4_packet R
       \<lparr>ip_src_ipv4_addr = nc_ip (self_net s), ip_dst_ipv4_addr = dst, ip_protocol = 1,
        ip_data = Some (brk (heap s)), ip_data_len = 8 + data_len\<rparr>
       (with_block (brk (heap s)) (icmp_message 0 0 i q (take (unat data_len) data)) s)"
proof -
  let ?a = "brk (heap s)" and ?pl = "take (unat data_len) data"
  let ?h = "icmpv4_header_bytes \<lparr>ih_type = 0, ih_code = 0, ih_checksum = 0, ih_id = htons i,
    ih_seq_num = htons q\<rparr>"
  define blk where "blk = map (junk (heap s) ?a) [0..<8 + unat data_len]"
  have n: "unat (8 + data_len) = 8 + unat data_len" using assms(4) by (simp add: unat_plus_u16)
  have hl: "length ?h = 8" by (simp add: icmpv4_header_bytes_def)
  have w1: "write_bytes 0 ?h blk = Inr (?h @ drop 8 blk)"
    by (simp add: write_bytes_front hl blk_def)
  have w2: "write_bytes 8 ?pl (?h @ drop 8 blk) = Inr (?h @ ?pl)"
    using write_bytes_next[of 8 ?h ?pl "drop 8 blk"] assms(3) by (simp add: hl blk_def)
  have ck: "net_checksum (?h @ ?pl) (8 + data_len) = Inr (oc_checksum (?h @ ?pl))"
    using assms(3) by (subst net_checksum_take) (simp_all add: hl n)
  have w3: "write_bytes 2 (store16 (htons (oc_checksum (?h @ ?pl)))) (?h @ ?pl) =
      Inr (icmp_message 0 0 i q ?pl)"
    using write_bytes_over[of "store16 (htons (oc_checksum (?h @ ?pl)))" "[0, 0]" 2 "[0, 0]"
        "store16 (htons i) @ store16 (htons q) @ ?pl"]
    by (simp add: icmpv4_header_bytes_def icmp_message_def Let_def store16_def)
  show ?thesis
    using assms(2,3)
    by (simp add: send_icmpv4_ping_reply_def malloc_with_block blk_def[symmetric] w1 w2 ck w3 hl)
qed

text \<open>The request as it arrives: an IPv4 header, an echo request, and possibly padding.\<close>

definition echo_request :: "u8 \<Rightarrow> u8 \<Rightarrow> u16 \<Rightarrow> u16 \<Rightarrow> bytes \<Rightarrow> bytes" where
  "echo_request c0 c1 i q payload =
     [8, 0, c0, c1] @ store16 (htons i) @ store16 (htons q) @ payload"

lemma length_echo_request [simp]: "length (echo_request c0 c1 i q pl) = 8 + length pl"
  by (simp add: echo_request_def)

lemma echo_request_header:
  "icmpv4_header_at (take 8 (echo_request c0 c1 i q pl @ pad)) =
     \<lparr>ih_type = 8, ih_code = 0, ih_checksum = load16 c0 c1, ih_id = htons i, ih_seq_num = htons q\<rparr>"
  by (simp add: icmpv4_header_at_def echo_request_def store16_def load16_of_def)

lemma icmpv4_input_echo:
  assumes "length hdr = 20" and "length payload \<le> 65507" and "28 \<le> buffer_len"
    and "ntohs (h_total_length (ipv4_header_at hdr)) = of_nat (28 + length payload)"
  shows "icmpv4_input R (hdr @ echo_request c0 c1 i q payload @ pad) buffer_len s =
     rbind (send_icmpv4_ping_reply R (h_src_ipv4_addr (ipv4_header_at hdr)) i q (payload @ pad)
       (of_nat (length payload)) s) (\<lambda>(result, s). Inr s)"
proof -
  have "(of_nat (28 + length payload) - 20 - 8 :: u16) = of_nat (length payload)" by simp
  moreover have "drop 28 (hdr @ echo_request c0 c1 i q payload @ pad) = payload @ pad"
    using assms(1) by (simp add: echo_request_def)
  moreover have "\<not> buffer_len < 28" using assms(3) by simp
  ultimately show ?thesis
    using assms(1,4) echo_request_header[of c0 c1 i q payload pad]
    by (simp add: icmpv4_input_def Let_def htons_def)
qed

section \<open>Properties\<close>

text \<open>
  C29: A ping is answered: an echo request whose IPv4 total length agrees with its payload makes
  \<^verbatim>\<open>icmpv4_input\<close> queue one packet from this host to the sender, an ICMP echo reply with the request's
  identifier, sequence number and payload and a valid checksum, whatever the checksum of the request
  and the Ethernet padding were; the reply is the only new block. When the transmit queue is full
  nothing is queued and nothing is leaked.
\<close>

theorem ping_is_answered:
  assumes "rtos_contract R view" and "heap_ok s" and "\<not> oom (heap s) (brk (heap s))"
    and "queue_holds P (view (kern s)) (ipv4_transmit_queue s)"
    and "length hdr = 20" and "length payload \<le> 65507" and "28 \<le> buffer_len"
    and "ntohs (h_total_length (ipv4_header_at hdr)) = of_nat (28 + length payload)"
    and "reply = icmp_message 0 0 i q payload"
    and "p = \<lparr>ip_src_ipv4_addr = nc_ip (self_net s), ip_dst_ipv4_addr = h_src_ipv4_addr (ipv4_header_at hdr),
        ip_protocol = 1, ip_data = Some (brk (heap s)), ip_data_len = of_nat (length reply)\<rparr>"
  shows "net_checksum reply (of_nat (length reply)) = Inr 0 \<and>
    (\<exists>s'. icmpv4_input R (hdr @ echo_request c0 c1 i q payload @ pad) buffer_len s = Inr s' \<and>
     (if queue_room (view (kern s)) (ipv4_transmit_queue s)
      then cells (heap s') = (cells (heap s))(brk (heap s) \<mapsto> reply) \<and>
        queue_items (view (kern s')) (ipv4_transmit_queue s) =
        queue_items (view (kern s)) (ipv4_transmit_queue s) @ [Ipv4Tx p]
      else cells (heap s') = cells (heap s) \<and> view (kern s') = view (kern s)))"
proof
  have n: "unat (of_nat (length payload) :: u16) = length payload"
    "unat (8 + of_nat (length payload) :: u16) = 8 + length payload"
    using assms(6) by (simp_all add: unat_of_nat unat_plus_u16)
  show "net_checksum reply (of_nat (length reply)) = Inr 0"
    by (subst net_checksum_take) (simp_all add: assms(9) n icmp_message_checksum)
  let ?s = "with_block (brk (heap s)) reply s"
  have eq: "icmpv4_input R (hdr @ echo_request c0 c1 i q payload @ pad) buffer_len s =
      rbind (send_ipv4_packet R p ?s) (\<lambda>(result, s). Inr s)"
    using assms(6,9,10) n
    by (simp add: icmpv4_input_echo[OF assms(5-8)] ping_reply_eq[OF assms(2,3)])
  have q: "queue_holds P (view (kern ?s)) (ipv4_transmit_queue ?s)" "ip_data p = Some (brk (heap s))"
    "cells (heap ?s) (brk (heap s)) = Some reply"
    using assms(4,10) by simp_all
  have undo: "(cells (heap s))(brk (heap s) := None) = cells (heap s)"
    using heap_ok_fresh[OF assms(2)] by (simp add: fun_upd_idem)
  show "\<exists>s'. icmpv4_input R (hdr @ echo_request c0 c1 i q payload @ pad) buffer_len s = Inr s' \<and>
     (if queue_room (view (kern s)) (ipv4_transmit_queue s)
      then cells (heap s') = (cells (heap s))(brk (heap s) \<mapsto> reply) \<and>
        queue_items (view (kern s')) (ipv4_transmit_queue s) =
        queue_items (view (kern s)) (ipv4_transmit_queue s) @ [Ipv4Tx p]
      else cells (heap s') = cells (heap s) \<and> view (kern s') = view (kern s))"
    using rtos_contract.send_ipv4_packet_cases[OF assms(1) q(1,3,2)]
    by (rule) (auto simp: eq queue_items_def undo)
qed

theorem ping_is_answered_witness:
  "\<exists>s'. icmpv4_input ref_rtos ([0x45, 0, 0, 31, 0, 0, 64, 0, 64, 1, 0, 0, 192, 168, 1, 1, 192, 168, 1, 230]
       @ echo_request 0 0 7 1 [97, 98, 99] @ [0, 0]) 31 ipv4_s1 = Inr s' \<and>
     cells (heap s') 1 = Some (icmp_message 0 0 7 1 [97, 98, 99])"
proof -
  have "heap_ok ipv4_s1" "\<not> oom (heap ipv4_s1) (brk (heap ipv4_s1))" "brk (heap ipv4_s1) = 1"
    by (simp_all add: heap_ok_def ipv4_state_defs)
  moreover have "queue_holds (\<lambda>_. True) (kview.truncate (kern ipv4_s1)) (ipv4_transmit_queue ipv4_s1)"
    "queue_room (kview.truncate (kern ipv4_s1)) (ipv4_transmit_queue ipv4_s1)"
    by (simp_all add: queue_holds_def queue_room_def ipv4_state_defs kview.truncate_def)
  ultimately show ?thesis
    using ping_is_answered[OF refk.rtos_contract_axioms, of ipv4_s1 "\<lambda>_. True"
        "[0x45, 0, 0, 31, 0, 0, 64, 0, 64, 1, 0, 0, 192, 168, 1, 1, 192, 168, 1, 230]" "[97, 98, 99]" 31,
        OF _ _ _ _ _ _ _ refl refl, of 7 1 0 0 "[0, 0]"]
    by (auto simp: ipv4_header_at_def load16_of_def load16_def ntohs_def)
qed

text \<open>
  \<^verbatim>\<open>icmpv4_input\<close> answers nothing else: a packet shorter than both headers, or with a type other
  than 8 or a code other than 0, leaves the state unchanged.
\<close>

theorem icmp_ignores_others:
  assumes "length buffer = unat buffer_len"
    and "buffer_len < 28 \<or> buffer ! 20 \<noteq> 8 \<or> buffer ! 21 \<noteq> 0"
  shows "icmpv4_input R buffer buffer_len s = Inr s"
proof (cases "buffer_len < 28")
  case True
  then show ?thesis by (simp add: icmpv4_input_def)
next
  case False
  then have "28 \<le> length buffer" using assms(1) by (simp add: word_less_nat_alt)
  with False assms(2) show ?thesis
    by (auto simp: icmpv4_input_def icmpv4_header_at_def Let_def)
qed

theorem icmp_ignores_others_witness:
  "icmpv4_input ref_rtos (replicate 40 0) 40 (base0 ref_init) = Inr (base0 ref_init)"
  by (rule icmp_ignores_others) simp_all

end
