(* ===== verification/Tcp_Types.thy ===== *)
theory Tcp_Types
  imports Icmp
begin

text \<open>
  The data of the TCP component (\<^verbatim>\<open>protocols/tcp.h\<close> and the globals of \<^verbatim>\<open>protocols/tcp.c\<close>): ports,
  unacknowledged segments, the segment header as it lies in memory, and the program state with the
  TCP globals. A pointer into \<^verbatim>\<open>ports\<close> or \<^verbatim>\<open>port->unacked\<close> is the index of the element.
\<close>

section \<open>Ports\<close>

datatype tcp_state = CLOSED | LISTEN | SYN_SENT | SYN_RECEIVED | ESTABLISHED | FIN_WAIT_1 | CLOSE_WAIT
  | FIN_WAIT_2 | LAST_ACK | TIME_WAIT

abbreviation (input) FIN :: u8 where "FIN \<equiv> 1"
abbreviation (input) SYN :: u8 where "SYN \<equiv> 2"
abbreviation (input) PSH :: u8 where "PSH \<equiv> 8"
abbreviation (input) ACK :: u8 where "ACK \<equiv> 16"
abbreviation (input) IPV4_ALL_ZEROES :: ipv4_addr where "IPV4_ALL_ZEROES \<equiv> IPv4 0 0 0 0"
abbreviation (input) max_ports :: nat where "max_ports \<equiv> 8"
abbreviation (input) MAX_UNACKED :: nat where "MAX_UNACKED \<equiv> 8"
abbreviation (input) TIMEOUT_CHECK_TIME :: tick where "TIMEOUT_CHECK_TIME \<equiv> 50"
abbreviation (input) TIME_WAIT_DURATION :: tick where "TIME_WAIT_DURATION \<equiv> 1000"
abbreviation (input) RETRANSMIT_TIMEOUT :: tick where "RETRANSMIT_TIMEOUT \<equiv> 100"

text \<open>\<^verbatim>\<open>struct tcp_flags_t\<close>: bit fields from the least significant bit of the control byte.\<close>

definition flag_FIN :: "u8 \<Rightarrow> bool" where "flag_FIN c = bit c 0"
definition flag_SYN :: "u8 \<Rightarrow> bool" where "flag_SYN c = bit c 1"
definition flag_RST :: "u8 \<Rightarrow> bool" where "flag_RST c = bit c 2"
definition flag_ACK :: "u8 \<Rightarrow> bool" where "flag_ACK c = bit c 4"

lemmas flag_defs = flag_FIN_def flag_SYN_def flag_RST_def flag_ACK_def

lemma flag_values [simp]:
  "flag_FIN 1" "\<not> flag_FIN 2" "\<not> flag_FIN 4" "\<not> flag_FIN 16" "flag_FIN 17" "\<not> flag_FIN 18" "\<not> flag_FIN 24"
  "\<not> flag_SYN 1" "flag_SYN 2" "\<not> flag_SYN 4" "\<not> flag_SYN 16" "\<not> flag_SYN 17" "flag_SYN 18" "\<not> flag_SYN 24"
  "\<not> flag_RST 1" "\<not> flag_RST 2" "flag_RST 4" "\<not> flag_RST 16" "\<not> flag_RST 17" "\<not> flag_RST 18" "\<not> flag_RST 24"
  "\<not> flag_ACK 1" "\<not> flag_ACK 2" "\<not> flag_ACK 4" "flag_ACK 16" "flag_ACK 17" "flag_ACK 18" "flag_ACK 24"
  by (simp_all add: flag_defs bit_0 bit_1_iff bit_numeral_rec)

record tcp_unacked =
  ua_seq_num :: u32
  ua_in_use :: bool
  ua_data :: ptr
  ua_data_len :: u16
  ua_sent_at :: tick
  ua_control :: u8

record tcp_port =
  tp_self_port_num :: u16
  tp_other_port_num :: u16
  tp_other_ipv4_addr :: ipv4_addr
  tp_state :: tcp_state
  tp_entered_time_wait_at :: tick
  tp_ack_num :: u32
  tp_seq_num :: u32
  tp_self_window :: u16
  tp_other_window :: u16
  tp_unacked :: "tcp_unacked list"
  tp_unacked_slots :: "shandle option"
  tp_on_receive :: fptr
  tp_on_connect :: fptr
  tp_on_disconnect :: fptr

record 'k tcp_net = "'k arp_net" +
  send_queue :: "qhandle option"
  input_queue :: "qhandle option"
  port_cmd_queue :: "qhandle option"
  tcp_task_queue_set :: "qhandle option"
  ports :: "tcp_port list"

type_synonym ('k, 'z) tcp = "('k, 'z) tcp_net_scheme"

text \<open>Zero-initialised storage.\<close>

definition unacked_zero :: tcp_unacked where
  "unacked_zero = \<lparr>ua_seq_num = 0, ua_in_use = False, ua_data = None, ua_data_len = 0, ua_sent_at = 0,
     ua_control = 0\<rparr>"

definition port_zero :: tcp_port where
  "port_zero = \<lparr>tp_self_port_num = 0, tp_other_port_num = 0, tp_other_ipv4_addr = IPV4_ALL_ZEROES,
     tp_state = CLOSED, tp_entered_time_wait_at = 0, tp_ack_num = 0, tp_seq_num = 0, tp_self_window = 0,
     tp_other_window = 0, tp_unacked = replicate MAX_UNACKED unacked_zero, tp_unacked_slots = None,
     tp_on_receive = None, tp_on_connect = None, tp_on_disconnect = None\<rparr>"

text \<open>Writing through a pointer to a port or to one of its slots.\<close>

definition set_port :: "nat \<Rightarrow> (tcp_port \<Rightarrow> tcp_port) \<Rightarrow> ('k, 'z) tcp \<Rightarrow> ('k, 'z) tcp" where
  "set_port p f s = s\<lparr>ports := (ports s)[p := f (ports s ! p)]\<rparr>"

definition set_unacked ::
  "nat \<Rightarrow> nat \<Rightarrow> (tcp_unacked \<Rightarrow> tcp_unacked) \<Rightarrow> ('k, 'z) tcp \<Rightarrow> ('k, 'z) tcp" where
  "set_unacked p i f s =
     set_port p (\<lambda>port. port\<lparr>tp_unacked := (tp_unacked port)[i := f (tp_unacked port ! i)]\<rparr>) s"

section \<open>The segment header\<close>

record tcp_header =
  th_src_port :: u16
  th_dst_port :: u16
  th_seq_num :: u32
  th_ack_num :: u32
  th_reserved :: u8
  th_dOffset :: u8
  th_control :: u8
  th_window :: u16
  th_checksum :: u16
  th_urgent_ptr :: u16

text \<open>The bit fields \<^verbatim>\<open>reserved : 4\<close> and \<^verbatim>\<open>dOffset : 4\<close> share byte 12, low half first.\<close>

definition tcp_header_at :: "bytes \<Rightarrow> tcp_header" where
  "tcp_header_at b = \<lparr>th_src_port = load16_of b, th_dst_port = load16_of (drop 2 b),
     th_seq_num = load32_of (drop 4 b), th_ack_num = load32_of (drop 8 b),
     th_reserved = b ! 12 AND 0xF, th_dOffset = drop_bit 4 (b ! 12), th_control = b ! 13,
     th_window = load16_of (drop 14 b), th_checksum = load16_of (drop 16 b),
     th_urgent_ptr = load16_of (drop 18 b)\<rparr>"

definition tcp_header_bytes :: "tcp_header \<Rightarrow> bytes" where
  "tcp_header_bytes h = store16 (th_src_port h) @ store16 (th_dst_port h) @ store32 (th_seq_num h)
     @ store32 (th_ack_num h) @ [push_bit 4 (th_dOffset h) OR th_reserved h] @ [th_control h]
     @ store16 (th_window h) @ store16 (th_checksum h) @ store16 (th_urgent_ptr h)"

definition ipv4_psuedo_header_bytes :: "ipv4_addr \<Rightarrow> ipv4_addr \<Rightarrow> u16 \<Rightarrow> bytes" where
  "ipv4_psuedo_header_bytes src dst tcp_len =
     ip_bytes src @ ip_bytes dst @ [0] @ [TCP_PROTOCOL_NUMBER] @ store16 tcp_len"

lemma length_tcp_header_bytes [simp]: "length (tcp_header_bytes h) = 20"
  by (simp add: tcp_header_bytes_def)

lemma length_ipv4_psuedo_header_bytes [simp]: "length (ipv4_psuedo_header_bytes a b n) = 12"
  by (simp add: ipv4_psuedo_header_bytes_def)

lemma nibbles:
  assumes "unat (hi :: u8) < 16" and "unat (lo :: u8) < 16"
  shows "drop_bit 4 (push_bit 4 hi OR lo) = hi" "(push_bit 4 hi OR lo) AND 0xF = lo"
proof -
  have h: "hi = take_bit 4 hi" and l: "lo = take_bit 4 lo"
    using assms by (simp_all add: word_unat_eq_iff unsigned_take_bit_eq take_bit_nat_eq_self)
  have hb: "bit hi n \<Longrightarrow> n < 4" and lb: "bit lo n \<Longrightarrow> n < 4" for n
    by (subst (asm) h, simp add: bit_take_bit_iff) (subst (asm) l, simp add: bit_take_bit_iff)
  have m: "(0xF :: u8) = mask 4" by (simp add: mask_numeral)
  show "drop_bit 4 (push_bit 4 hi OR lo) = hi"
    by (auto simp: bit_eq_iff bit_drop_bit_eq bit_or_iff bit_push_bit_iff dest: hb lb)
  show "(push_bit 4 hi OR lo) AND 0xF = lo"
    by (auto simp: m bit_eq_iff bit_and_iff bit_mask_iff bit_or_iff bit_push_bit_iff dest: hb lb)
qed

lemma tcp_header_roundtrip:
  assumes "unat (th_reserved h) < 16" and "unat (th_dOffset h) < 16"
  shows "tcp_header_at (tcp_header_bytes h @ data) = (h :: tcp_header)"
  using nibbles[OF assms(2,1)]
  by (simp add: tcp_header_at_def tcp_header_bytes_def store16_def store32_def load16_of_def
      load32_of_def nth_append)

end
