(* ===== verification/Tcp.thy ===== *)
theory Tcp
  imports Tcp_Types
begin

text \<open>
  The operations of the TCP component (\<^verbatim>\<open>protocols/tcp.c\<close>), in the order of the source. Applications
  register callbacks; what they do is not part of the stack, so every operation that calls them takes
  an argument \<open>app\<close>: the effect of calling function \<open>f\<close> with the given arguments.
\<close>

datatype app_call = OnReceive bytes u16 | OnConnect u16 ipv4_addr | OnDisconnect

type_synonym ('k, 'z) app = "nat \<Rightarrow> app_call \<Rightarrow> ('k, 'z) tcp \<Rightarrow> ('k, 'z) tcp exec"

text \<open>A call through a function pointer; calling \<^verbatim>\<open>NULL\<close> is a fault.\<close>

definition call_app :: "('k, 'z) app \<Rightarrow> fptr \<Rightarrow> app_call \<Rightarrow> ('k, 'z) tcp \<Rightarrow> ('k, 'z) tcp exec" where
  "call_app app fp c s = (case fp of None \<Rightarrow> Inl Fault | Some f \<Rightarrow> app f c s)"

section \<open>Lookup\<close>

definition find_port :: "u16 \<Rightarrow> u16 \<Rightarrow> ipv4_addr \<Rightarrow> ('k, 'z) tcp \<Rightarrow> nat option" where
  "find_port self_port_number other_port_number other_ipv4_address s =
     find_index (\<lambda>port. \<not> (tp_self_port_num port \<noteq> self_port_number \<or>
        tp_other_port_num port \<noteq> other_port_number \<or> tp_other_ipv4_addr port \<noteq> other_ipv4_address))
       (ports s)"

definition find_listening_port :: "u16 \<Rightarrow> ('k, 'z) tcp \<Rightarrow> nat option" where
  "find_listening_port self_port_number s =
     find_index (\<lambda>port. tp_self_port_num port = self_port_number \<and> tp_state port = LISTEN \<and>
        tp_other_ipv4_addr port = IPV4_ALL_ZEROES) (ports s)"

definition find_empty_unacked :: "tcp_port \<Rightarrow> nat option" where
  "find_empty_unacked port = find_index (\<lambda>u. ua_in_use u = False) (tp_unacked port)"

definition get_unacked_count :: "tcp_port \<Rightarrow> u8" where
  "get_unacked_count port =
     fold (\<lambda>u cnt. if ua_in_use u = True then cnt + 1 else cnt) (tp_unacked port) 0"

section \<open>Sending\<close>

definition tcp_enqueue ::
  "'k rtos \<Rightarrow> tcp_transmit_params \<Rightarrow> tick \<Rightarrow> ('k, 'z) tcp \<Rightarrow> (esp_err \<times> ('k, 'z) tcp) exec" where
  "tcp_enqueue R params timeout s =
     rbind (q_send R (send_queue s) (TcpTx params) timeout s) (\<lambda>(result, s).
     if \<not> result then Inr (ESP_ERR_NO_MEM, s) else Inr (ESP_OK, s))"

definition reset_unacked :: "nat \<Rightarrow> nat \<Rightarrow> ('k, 'z) tcp \<Rightarrow> ('k, 'z) tcp exec" where
  "reset_unacked p i s =
     (let u = tp_unacked (ports s ! p) ! i in
      if ua_in_use u \<and> ua_data u \<noteq> None
      then rbind (free (ua_data u) s) (\<lambda>s. Inr (set_unacked p i (\<lambda>u. u\<lparr>ua_data := None\<rparr>) s))
      else Inr s)"

definition tcp_reset_port :: "'k rtos \<Rightarrow> nat \<Rightarrow> ('k, 'z) tcp \<Rightarrow> ('k, 'z) tcp exec" where
  "tcp_reset_port R p s =
     (let s = set_port p (\<lambda>port. port\<lparr>tp_state := CLOSED, tp_self_port_num := 0\<rparr>) s in
      rbind (for_each (reset_unacked p) [0..<MAX_UNACKED] s) (\<lambda>s.
      (let slots = tp_unacked_slots (ports s ! p) in
       rbind (sem_count R slots s) (\<lambda>cnt.
       (let waiting_tasks = 8 - of_nat cnt :: u8 in
        rbind (for_each (\<lambda>i. sem_give R slots) [0..<unat waiting_tasks] s) (\<lambda>s.
        sem_delete R slots s))))))"

text \<open>
  The last part of \<^verbatim>\<open>tcp_send_internal\<close>: sequence number, checksum, the move of the segment over the
  pseudo header, and the hand-over to IPv4.
\<close>

definition tcp_finish_segment ::
  "'k rtos \<Rightarrow> tcp_transmit_params \<Rightarrow> ptr \<Rightarrow> u16 \<Rightarrow> u32 \<Rightarrow> ('k, 'z) tcp
    \<Rightarrow> (esp_err \<times> ('k, 'z) tcp) exec" where
  "tcp_finish_segment R params datagram datagram_length seq_num s =
     rbind (heap_write datagram 16 (store32 (htonl seq_num)) s) (\<lambda>s.
     rbind (heap_read datagram (unat datagram_length + 12) s) (\<lambda>all_bytes.
     rbind (net_checksum all_bytes (datagram_length + 12)) (\<lambda>checksum.
     rbind (heap_write datagram 28 (store16 (htons checksum)) s) (\<lambda>s.
     rbind (heap_read datagram (12 + unat datagram_length) s) (\<lambda>all_bytes.
     rbind (heap_write datagram 0 (drop 12 all_bytes) s) (\<lambda>s.
     send_ipv4_packet R
       \<lparr>ip_src_ipv4_addr = nc_ip (self_net s), ip_dst_ipv4_addr = ttx_dst_ipv4_addr params,
        ip_protocol = TCP_PROTOCOL_NUMBER, ip_data = datagram, ip_data_len = datagram_length\<rparr> s))))))"

definition tcp_send_internal ::
  "'k rtos \<Rightarrow> tcp_transmit_params \<Rightarrow> ('k, 'z) tcp \<Rightarrow> (esp_err \<times> ('k, 'z) tcp) exec" where
  "tcp_send_internal R params s =
     (let datagram_length = 20 + ttx_data_len params;
          (datagram, s) = malloc (unat datagram_length + 12) s in
      if datagram = None then rbind (free (ttx_data params) s) (\<lambda>s. Inr (ESP_ERR_NO_MEM, s))
      else
        case find_port (ttx_src_port params) (ttx_dst_port params) (ttx_dst_ipv4_addr params) s of
          None \<Rightarrow> rbind (free (ttx_data params) s) (\<lambda>s. Inr (ESP_FAIL, s))
        | Some p \<Rightarrow>
            (let port = ports s ! p in
             rbind (heap_write datagram 0 (ipv4_psuedo_header_bytes (nc_ip (self_net s))
                      (ttx_dst_ipv4_addr params) (htons datagram_length)) s) (\<lambda>s.
             rbind (heap_write datagram 12 (store16 (htons (ttx_src_port params))
                      @ store16 (htons (ttx_dst_port params))) s) (\<lambda>s.
             rbind (heap_write datagram 20 (store32 (htonl (tp_ack_num port))
                      @ [push_bit 4 (20 div 4) OR 0] @ [ttx_control params]
                      @ store16 (htons (tp_self_window port)) @ store16 0 @ store16 0) s) (\<lambda>s.
             rbind (if ttx_data params \<noteq> None \<and> 0 < ttx_data_len params
                    then rbind (heap_read (ttx_data params) (unat (ttx_data_len params)) s) (\<lambda>data.
                         heap_write datagram 32 data s)
                    else Inr s) (\<lambda>s.
             (let seq_increment = ttx_data_len params +
                    (if flag_SYN (ttx_control params) \<or> flag_FIN (ttx_control params) then 1 else 0) in
              if 0 < seq_increment \<and> \<not> ttx_isRetransmission params then
                (case find_empty_unacked port of
                   None \<Rightarrow> rbind (free (ttx_data params) s) (\<lambda>s. Inr (ESP_ERR_NO_MEM, s))
                 | Some i \<Rightarrow>
                     (let s = set_unacked p i (\<lambda>_. \<lparr>ua_seq_num = tp_seq_num port, ua_in_use = True,
                                ua_data = ttx_data params, ua_data_len = ttx_data_len params,
                                ua_sent_at = tick_count R s, ua_control = ttx_control params\<rparr>) s;
                          s = set_port p (\<lambda>port. port\<lparr>tp_seq_num := tp_seq_num port + ucast seq_increment\<rparr>) s in
                      tcp_finish_segment R params datagram datagram_length (tp_seq_num port) s))
              else
                tcp_finish_segment R params datagram datagram_length (ttx_seq_num params) s)))))))"

text \<open>
  While \<^verbatim>\<open>xSemaphoreTake\<close> waits, other tasks may run: \<open>others\<close> is what they do. The handle to wait for
  is read before, the state of the port afterwards. In a call from the TCP task itself the component
  does not change meanwhile.
\<close>

definition tcp_enqueue_reliable ::
  "'k rtos \<Rightarrow> (('k, 'z) tcp \<Rightarrow> ('k, 'z) tcp exec) \<Rightarrow> tcp_transmit_params \<Rightarrow> tick \<Rightarrow> ('k, 'z) tcp
    \<Rightarrow> (esp_err \<times> ('k, 'z) tcp) exec" where
  "tcp_enqueue_reliable R others params timeout s =
     (case find_port (ttx_src_port params) (ttx_dst_port params) (ttx_dst_ipv4_addr params) s of
        None \<Rightarrow> rbind (free (ttx_data params) s) (\<lambda>s. Inr (ESP_ERR_INVALID_ARG, s))
      | Some p \<Rightarrow>
          (let unacked_slots = tp_unacked_slots (ports s ! p) in
          rbind (others s) (\<lambda>s.
          rbind (sem_take R unacked_slots timeout s) (\<lambda>(taken, s).
          if \<not> taken then rbind (free (ttx_data params) s) (\<lambda>s. Inr (ESP_ERR_TIMEOUT, s))
          else if tp_state (ports s ! p) = CLOSED
          then rbind (free (ttx_data params) s) (\<lambda>s. Inr (ESP_FAIL, s))
          else
            rbind (q_send R (send_queue s) (TcpTx params) 0 s) (\<lambda>(sent, s).
            if \<not> sent
            then rbind (sem_give R (tp_unacked_slots (ports s ! p)) s) (\<lambda>s.
                 rbind (free (ttx_data params) s) (\<lambda>s. Inr (ESP_ERR_NO_MEM, s)))
            else Inr (ESP_OK, s))))))"

definition tcp_send ::
  "'k rtos \<Rightarrow> (('k, 'z) tcp \<Rightarrow> ('k, 'z) tcp exec) \<Rightarrow> u16 \<Rightarrow> u16 \<Rightarrow> ipv4_addr \<Rightarrow> ptr \<Rightarrow> u16 \<Rightarrow> tick
    \<Rightarrow> ('k, 'z) tcp \<Rightarrow> (esp_err \<times> ('k, 'z) tcp) exec" where
  "tcp_send R others src_port_num dst_port_num dst_ipv4_addr data len timeout s =
     (case find_port src_port_num dst_port_num dst_ipv4_addr s of
        None \<Rightarrow> rbind (free data s) (\<lambda>s. Inr (ESP_FAIL, s))
      | Some p \<Rightarrow>
          (let port = ports s ! p in
           tcp_enqueue_reliable R others
             \<lparr>ttx_dst_ipv4_addr = tp_other_ipv4_addr port, ttx_src_port = tp_self_port_num port,
              ttx_dst_port = tp_other_port_num port, ttx_seq_num = 0, ttx_control = ACK + PSH,
              ttx_isRetransmission = False, ttx_data = data, ttx_data_len = len\<rparr> timeout s))"

section \<open>Receiving\<close>

definition input_tcp ::
  "'k rtos \<Rightarrow> bytes \<Rightarrow> u16 \<Rightarrow> ipv4_addr \<Rightarrow> ('k, 'z) tcp \<Rightarrow> (esp_err \<times> ('k, 'z) tcp) exec" where
  "input_tcp R buffer len src_ipv4_addr s =
     (let (copied_buffer, s) = malloc (unat len) s in
      if copied_buffer = None then Inr (ESP_ERR_NO_MEM, s)
      else
        rbind (read_bytes buffer 0 (unat len)) (\<lambda>bs.
        rbind (heap_write copied_buffer 0 bs s) (\<lambda>s.
        rbind (q_send R (input_queue s) (TcpInput \<lparr>tin_buffer = copied_buffer, tin_length = len,
                 tin_src_ipv4_addr = src_ipv4_addr\<rparr>) 0 s) (\<lambda>(sent, s).
        if \<not> sent then rbind (free copied_buffer s) (\<lambda>s. Inr (ESP_ERR_NO_MEM, s))
        else Inr (ESP_OK, s)))))"

definition ack_unacked :: "'k rtos \<Rightarrow> nat \<Rightarrow> u32 \<Rightarrow> nat \<Rightarrow> ('k, 'z) tcp \<Rightarrow> ('k, 'z) tcp exec" where
  "ack_unacked R p received_ack_num i s =
     (let unacked = tp_unacked (ports s ! p) ! i in
      if \<not> ua_in_use unacked then Inr s
      else if ua_seq_num unacked \<le> received_ack_num then
        rbind (sem_give R (tp_unacked_slots (ports s ! p)) (set_unacked p i (\<lambda>u. u\<lparr>ua_in_use := False\<rparr>) s)) (\<lambda>s.
        rbind (free (ua_data unacked) s) (\<lambda>s.
        Inr (set_unacked p i (\<lambda>u. u\<lparr>ua_data := None\<rparr>) s)))
      else Inr s)"

text \<open>A control segment in answer to one from \<open>src\<close>.\<close>

definition tcp_response :: "ipv4_addr \<Rightarrow> u8 \<Rightarrow> tcp_port \<Rightarrow> tcp_transmit_params" where
  "tcp_response src control port =
     \<lparr>ttx_dst_ipv4_addr = src, ttx_src_port = tp_self_port_num port, ttx_dst_port = tp_other_port_num port,
      ttx_seq_num = tp_seq_num port, ttx_control = control, ttx_isRetransmission = False,
      ttx_data = None, ttx_data_len = 0\<rparr>"

text \<open>The bytes from an offset of a block to its end: what a pointer into the block gives access to.\<close>

definition heap_tail :: "ptr \<Rightarrow> nat \<Rightarrow> ('k, 'z) base \<Rightarrow> bytes exec" where
  "heap_tail p off s =
     (case p of None \<Rightarrow> Inl Fault
      | Some a \<Rightarrow> (case cells (heap s) a of None \<Rightarrow> Inl Fault | Some blk \<Rightarrow> Inr (drop off blk)))"

text \<open>The \<^verbatim>\<open>switch (port->state)\<close> of \<^verbatim>\<open>input_tcp_internal\<close>.\<close>

definition tcp_state_switch ::
  "'k rtos \<Rightarrow> ('k, 'z) app \<Rightarrow> nat \<Rightarrow> tcp_header \<Rightarrow> ptr \<Rightarrow> u16 \<Rightarrow> u16 \<Rightarrow> ipv4_addr
    \<Rightarrow> ('k, 'z) tcp \<Rightarrow> ('k, 'z) tcp exec" where
  "tcp_state_switch R app p header buffer len header_length src s =
     (let port = ports s ! p; c = th_control header in
      case tp_state port of
        LISTEN \<Rightarrow>
          if \<not> flag_SYN c then Inr s
          else
            (let s = set_port p (\<lambda>port. port\<lparr>tp_state := SYN_RECEIVED, tp_other_ipv4_addr := src,
                       tp_other_port_num := ntohs (th_src_port header),
                       tp_ack_num := ntohl (th_seq_num header) + 1\<rparr>) s in
             rbind (tcp_enqueue_reliable R Inr (tcp_response src (SYN + ACK) (ports s ! p)) portMAX_DELAY s)
               (\<lambda>(result, s). Inr s))
      | SYN_SENT \<Rightarrow>
          if \<not> flag_SYN c then Inr s
          else if \<not> flag_ACK c then Inr s
          else
            (let s = set_port p (\<lambda>port. port\<lparr>tp_state := ESTABLISHED\<rparr>) s in
             if tp_on_connect port \<noteq> None
             then call_app app (tp_on_connect port)
                    (OnConnect (tp_other_port_num port) (tp_other_ipv4_addr port)) s
             else Inr s)
      | SYN_RECEIVED \<Rightarrow>
          if \<not> flag_ACK c then Inr s
          else if ntohl (th_ack_num header) \<noteq> tp_seq_num port then Inr s
          else
            (let s = set_port p (\<lambda>port. port\<lparr>tp_state := ESTABLISHED\<rparr>) s in
             if tp_on_connect port \<noteq> None
             then call_app app (tp_on_connect port)
                    (OnConnect (tp_other_port_num port) (tp_other_ipv4_addr port)) s
             else Inr s)
      | ESTABLISHED \<Rightarrow>
          rbind (if flag_FIN c
                 then rbind (tcp_enqueue_reliable R Inr (tcp_response src (FIN + ACK) port) portMAX_DELAY s)
                        (\<lambda>(result, s). Inr (set_port p (\<lambda>port. port\<lparr>tp_state := LAST_ACK\<rparr>) s))
                 else Inr s) (\<lambda>s.
          (let data_length = len - header_length in
           if 0 < data_length \<and> tp_on_receive port \<noteq> None
           then rbind (heap_tail buffer (unat header_length) s) (\<lambda>data.
                call_app app (tp_on_receive port) (OnReceive data data_length) s)
           else Inr s))
      | LAST_ACK \<Rightarrow>
          if \<not> flag_ACK c then Inr s
          else if ntohl (th_ack_num header) \<noteq> tp_seq_num port then Inr s
          else
            rbind (tcp_reset_port R p s) (\<lambda>s.
            call_app app (tp_on_disconnect (ports s ! p)) OnDisconnect s)
      | FIN_WAIT_1 \<Rightarrow>
          if flag_FIN c then
            (let s = set_port p (\<lambda>port. port\<lparr>tp_state := TIME_WAIT,
                       tp_entered_time_wait_at := tick_count R s\<rparr>) s in
             call_app app (tp_on_disconnect port) OnDisconnect s)
          else if \<not> flag_ACK c then Inr s
          else Inr (set_port p (\<lambda>port. port\<lparr>tp_state := FIN_WAIT_2\<rparr>) s)
      | FIN_WAIT_2 \<Rightarrow>
          if \<not> flag_FIN c then Inr s
          else
            (let s = set_port p (\<lambda>port. port\<lparr>tp_state := TIME_WAIT,
                       tp_entered_time_wait_at := tick_count R s\<rparr>) s in
             call_app app (tp_on_disconnect port) OnDisconnect s)
      | _ \<Rightarrow> Inr s)"

text \<open>Acknowledging what the segment carries, except where an acknowledgement has been sent already.\<close>

definition tcp_acknowledge ::
  "'k rtos \<Rightarrow> nat \<Rightarrow> tcp_header \<Rightarrow> u16 \<Rightarrow> u16 \<Rightarrow> ipv4_addr \<Rightarrow> ('k, 'z) tcp \<Rightarrow> ('k, 'z) tcp exec" where
  "tcp_acknowledge R p header len header_length src s =
     (let sequence_increment = (len - header_length) +
            (if flag_SYN (th_control header) \<or> flag_FIN (th_control header) then 1 else 0);
          port = ports s ! p in
      if 0 < sequence_increment \<and> tp_state port \<noteq> LAST_ACK \<and> tp_state port \<noteq> LISTEN
      then (let s = set_port p (\<lambda>port. port\<lparr>tp_ack_num :=
                      ntohl (th_seq_num header) + ucast sequence_increment\<rparr>) s in
            rbind (tcp_enqueue R (tcp_response src ACK (ports s ! p)) portMAX_DELAY s) (\<lambda>(result, s).
            Inr s))
      else Inr s)"

text \<open>The rest of \<^verbatim>\<open>input_tcp_internal\<close>, once the segment has been accepted.\<close>

definition tcp_accept_segment ::
  "'k rtos \<Rightarrow> ('k, 'z) app \<Rightarrow> nat \<Rightarrow> tcp_header \<Rightarrow> ptr \<Rightarrow> u16 \<Rightarrow> u16 \<Rightarrow> ipv4_addr
    \<Rightarrow> ('k, 'z) tcp \<Rightarrow> ('k, 'z) tcp exec" where
  "tcp_accept_segment R app p header buffer len header_length src s =
     rbind (tcp_acknowledge R p header len header_length src s) (\<lambda>s.
     (let s = set_port p (\<lambda>port. port\<lparr>tp_other_window := ntohs (th_window header)\<rparr>) s in
      tcp_state_switch R app p header buffer len header_length src s))"

text \<open>
  The handler reads the header where it lies in the received block: first the byte with the data offset,
  at position 12, and only when that promises a whole header the rest of it.
\<close>

definition input_tcp_internal ::
  "'k rtos \<Rightarrow> ('k, 'z) app \<Rightarrow> ptr \<Rightarrow> u16 \<Rightarrow> ipv4_addr \<Rightarrow> ('k, 'z) tcp \<Rightarrow> ('k, 'z) tcp exec" where
  "input_tcp_internal R app buffer len src s =
     rbind (heap_read buffer 13 s) (\<lambda>front.
     (let header_length = ucast (drop_bit 4 (front ! 12)) * 4 :: u16 in
      if header_length < 20 then Inr s
      else
        rbind (heap_read buffer 20 s) (\<lambda>raw.
        (let header = tcp_header_at raw; c = th_control header; dst_port = ntohs (th_dst_port header) in
         case (case find_port dst_port (ntohs (th_src_port header)) src s of
                 None \<Rightarrow> if flag_SYN c then find_listening_port dst_port s else None
               | Some p \<Rightarrow> Some p) of
           None \<Rightarrow> Inr s
         | Some p \<Rightarrow>
             (let port = ports s ! p; received_seq_num = ntohl (th_seq_num header);
                  received_ack_num = ntohl (th_ack_num header) in
              if tp_state port = CLOSED then Inr s
              else if flag_RST c then tcp_reset_port R p s
              else if tp_state port \<noteq> LISTEN \<and> tp_state port \<noteq> SYN_SENT \<and>
                      received_seq_num \<noteq> tp_ack_num port then Inr s
              else if flag_ACK c then
                rbind (if received_ack_num \<le> tp_seq_num port
                       then for_each (ack_unacked R p received_ack_num) [0..<MAX_UNACKED] s
                       else Inr s) (\<lambda>s.
                tcp_accept_segment R app p header buffer len header_length src s)
              else if \<not> flag_SYN c then Inr s
              else tcp_accept_segment R app p header buffer len header_length src s)))))"

text \<open>A block that holds a whole header.\<close>

lemma input_tcp_internal_header:
  assumes "heap_read buffer 20 s = Inr raw"
  shows "input_tcp_internal R app buffer len src s =
     (let header = tcp_header_at raw; header_length = ucast (th_dOffset header) * 4 :: u16;
          c = th_control header in
      if header_length < 20 then Inr s
      else
        (let dst_port = ntohs (th_dst_port header) in
         case (case find_port dst_port (ntohs (th_src_port header)) src s of
                 None \<Rightarrow> if flag_SYN c then find_listening_port dst_port s else None
               | Some p \<Rightarrow> Some p) of
           None \<Rightarrow> Inr s
         | Some p \<Rightarrow>
             (let port = ports s ! p; received_seq_num = ntohl (th_seq_num header);
                  received_ack_num = ntohl (th_ack_num header) in
              if tp_state port = CLOSED then Inr s
              else if flag_RST c then tcp_reset_port R p s
              else if tp_state port \<noteq> LISTEN \<and> tp_state port \<noteq> SYN_SENT \<and>
                      received_seq_num \<noteq> tp_ack_num port then Inr s
              else if flag_ACK c then
                rbind (if received_ack_num \<le> tp_seq_num port
                       then for_each (ack_unacked R p received_ack_num) [0..<MAX_UNACKED] s
                       else Inr s) (\<lambda>s.
                tcp_accept_segment R app p header buffer len header_length src s)
              else if \<not> flag_SYN c then Inr s
              else tcp_accept_segment R app p header buffer len header_length src s)))"
proof -
  have front: "heap_read buffer 13 s = Inr (take 13 raw)"
    using assms by (auto simp: heap_read_def read_bytes_eq_Inr split: option.splits)
  have offset: "drop_bit 4 (take 13 raw ! 12) = th_dOffset (tcp_header_at raw)"
    by (simp add: tcp_header_at_def)
  show ?thesis
    unfolding input_tcp_internal_def front assms rbind_simps Let_def offset ..
qed

section \<open>Ports\<close>

definition allocate_port :: "tcp_port \<Rightarrow> ('k, 'z) tcp \<Rightarrow> nat option \<times> ('k, 'z) tcp" where
  "allocate_port port s =
     (case find_index (\<lambda>q. tp_self_port_num q = 0) (ports s) of
        Some i \<Rightarrow> (Some i, s\<lparr>ports := (ports s)[i := port]\<rparr>)
      | None \<Rightarrow> (None, s))"

definition tcp_create_port_internal ::
  "'k rtos \<Rightarrow> u16 \<Rightarrow> fptr \<Rightarrow> fptr \<Rightarrow> fptr \<Rightarrow> ('k, 'z) tcp \<Rightarrow> nat option \<times> ('k, 'z) tcp" where
  "tcp_create_port_internal R src_port_num on_receive on_connect on_disconnect s =
     (let (unacked_slots, s) = sem_create R MAX_UNACKED MAX_UNACKED s in
      if unacked_slots = None then (None, s)
      else allocate_port (port_zero\<lparr>tp_other_ipv4_addr := IPV4_ALL_ZEROES, tp_other_port_num := 0,
             tp_self_port_num := src_port_num, tp_state := CLOSED, tp_on_receive := on_receive,
             tp_on_connect := on_connect, tp_on_disconnect := on_disconnect, tp_seq_num := 0,
             tp_self_window := 1500, tp_unacked_slots := unacked_slots\<rparr>) s)"

definition port_cmd ::
  "'k rtos \<Rightarrow> tcp_port_cmd \<Rightarrow> ('k, 'z) tcp \<Rightarrow> (esp_err \<times> ('k, 'z) tcp) exec" where
  "port_cmd R cmd s =
     rbind (q_send R (port_cmd_queue s) (TcpCmd cmd) 0 s) (\<lambda>(sent, s).
     if \<not> sent then Inr (ESP_ERR_NO_MEM, s) else Inr (ESP_OK, s))"

definition tcp_connect_port ::
  "'k rtos \<Rightarrow> u16 \<Rightarrow> u16 \<Rightarrow> ipv4_addr \<Rightarrow> fptr \<Rightarrow> fptr \<Rightarrow> fptr \<Rightarrow> ('k, 'z) tcp
    \<Rightarrow> (esp_err \<times> ('k, 'z) tcp) exec" where
  "tcp_connect_port R src_port_num dst_port_num dst_ipv4_addr on_receive on_connect on_disconnect s =
     port_cmd R \<lparr>cmd_type = CMD_CREATE_AND_CONNECT, cmd_self_port_num = src_port_num,
       cmd_other_port_num = dst_port_num, cmd_other_ipv4_addr = dst_ipv4_addr,
       cmd_on_receive = on_receive, cmd_on_connect = on_connect, cmd_on_disconnect = on_disconnect\<rparr> s"

definition tcp_connect_port_internal ::
  "'k rtos \<Rightarrow> u16 \<Rightarrow> u16 \<Rightarrow> ipv4_addr \<Rightarrow> fptr \<Rightarrow> fptr \<Rightarrow> fptr \<Rightarrow> ('k, 'z) tcp
    \<Rightarrow> (esp_err \<times> ('k, 'z) tcp) exec" where
  "tcp_connect_port_internal R src_port_num dst_port_num dst_ipv4_addr on_receive on_connect on_disconnect s =
     (case tcp_create_port_internal R src_port_num on_receive on_connect on_disconnect s of
        (None, s) \<Rightarrow> Inr (ESP_FAIL, s)
      | (Some p, s) \<Rightarrow>
          (let s = set_port p (\<lambda>port. port\<lparr>tp_other_ipv4_addr := dst_ipv4_addr,
                                           tp_other_port_num := dst_port_num\<rparr>) s;
               syn_request = tcp_response dst_ipv4_addr SYN (ports s ! p);
               s = set_port p (\<lambda>port. port\<lparr>tp_state := SYN_SENT\<rparr>) s in
           tcp_enqueue_reliable R Inr syn_request portMAX_DELAY s))"

definition tcp_listen_port ::
  "'k rtos \<Rightarrow> u16 \<Rightarrow> fptr \<Rightarrow> fptr \<Rightarrow> fptr \<Rightarrow> ('k, 'z) tcp \<Rightarrow> (esp_err \<times> ('k, 'z) tcp) exec" where
  "tcp_listen_port R src_port_num on_receive on_connect on_disconnect s =
     port_cmd R \<lparr>cmd_type = CMD_CREATE_AND_LISTEN, cmd_self_port_num = src_port_num,
       cmd_other_port_num = 0, cmd_other_ipv4_addr = IPV4_ALL_ZEROES,
       cmd_on_receive = on_receive, cmd_on_connect = on_connect, cmd_on_disconnect = on_disconnect\<rparr> s"

definition tcp_listen_port_internal ::
  "'k rtos \<Rightarrow> u16 \<Rightarrow> fptr \<Rightarrow> fptr \<Rightarrow> fptr \<Rightarrow> ('k, 'z) tcp \<Rightarrow> esp_err \<times> ('k, 'z) tcp" where
  "tcp_listen_port_internal R src_port_num on_receive on_connect on_disconnect s =
     (case tcp_create_port_internal R src_port_num on_receive on_connect on_disconnect s of
        (None, s) \<Rightarrow> (ESP_FAIL, s)
      | (Some p, s) \<Rightarrow>
          (ESP_OK, set_port p (\<lambda>port. port\<lparr>tp_state := LISTEN, tp_other_ipv4_addr := IPV4_ALL_ZEROES\<rparr>) s))"

definition tcp_close_port ::
  "'k rtos \<Rightarrow> u16 \<Rightarrow> u16 \<Rightarrow> ipv4_addr \<Rightarrow> ('k, 'z) tcp \<Rightarrow> (esp_err \<times> ('k, 'z) tcp) exec" where
  "tcp_close_port R src_port_num dst_port_num dst_ipv4_addr s =
     port_cmd R \<lparr>cmd_type = CMD_CLOSE, cmd_self_port_num = src_port_num,
       cmd_other_port_num = dst_port_num, cmd_other_ipv4_addr = dst_ipv4_addr,
       cmd_on_receive = None, cmd_on_connect = None, cmd_on_disconnect = None\<rparr> s"

definition tcp_close_port_internal ::
  "'k rtos \<Rightarrow> u16 \<Rightarrow> u16 \<Rightarrow> ipv4_addr \<Rightarrow> ('k, 'z) tcp \<Rightarrow> (esp_err \<times> ('k, 'z) tcp) exec" where
  "tcp_close_port_internal R src_port_num dst_port_num dst_ipv4_addr s =
     (case find_port src_port_num dst_port_num dst_ipv4_addr s of
        None \<Rightarrow> Inr (ESP_ERR_INVALID_ARG, s)
      | Some p \<Rightarrow>
          (let fin_request = tcp_response dst_ipv4_addr FIN (ports s ! p);
               s = set_port p (\<lambda>port. port\<lparr>tp_state := FIN_WAIT_1\<rparr>) s in
           tcp_enqueue_reliable R Inr fin_request portMAX_DELAY s))"

definition tcp_set_self_net_context :: "net_context \<Rightarrow> ('k, 'z) base \<Rightarrow> ('k, 'z) base" where
  "tcp_set_self_net_context net s = s\<lparr>self_net := net\<rparr>"

section \<open>The task\<close>

definition retransmit_unacked :: "'k rtos \<Rightarrow> tick \<Rightarrow> nat \<Rightarrow> nat \<Rightarrow> ('k, 'z) tcp \<Rightarrow> ('k, 'z) tcp exec" where
  "retransmit_unacked R now p i s =
     (let port = ports s ! p; u = tp_unacked port ! i in
      if \<not> ua_in_use u then Inr s
      else if now - ua_sent_at u < RETRANSMIT_TIMEOUT then Inr s
      else
        (let s = set_unacked p i (\<lambda>u. u\<lparr>ua_sent_at := now\<rparr>) s in
         rbind (tcp_send_internal R
           \<lparr>ttx_dst_ipv4_addr = tp_other_ipv4_addr port, ttx_src_port = tp_self_port_num port,
            ttx_dst_port = tp_other_port_num port, ttx_seq_num = ua_seq_num u, ttx_control = ua_control u,
            ttx_isRetransmission = True, ttx_data = ua_data u, ttx_data_len = ua_data_len u\<rparr> s) (\<lambda>(res, s).
         if res \<noteq> ESP_OK
         then sem_give R (tp_unacked_slots (ports s ! p))
                (set_unacked p i (\<lambda>u. u\<lparr>ua_data := None, ua_in_use := False\<rparr>) s)
         else Inr s)))"

definition scan_port :: "'k rtos \<Rightarrow> tick \<Rightarrow> nat \<Rightarrow> ('k, 'z) tcp \<Rightarrow> ('k, 'z) tcp exec" where
  "scan_port R now p s =
     (let port = ports s ! p in
      if tp_self_port_num port = 0 then Inr s
      else if tp_state port = TIME_WAIT \<and> TIME_WAIT_DURATION < now - tp_entered_time_wait_at port
      then tcp_reset_port R p s
      else for_each (retransmit_unacked R now p) [0..<MAX_UNACKED] s)"

text \<open>
  One iteration of \<^verbatim>\<open>tcp_task\<close>; \<open>queue\<close> is what \<^verbatim>\<open>xQueueSelectFromSet\<close> returned (\<open>None\<close> after a
  timeout). Every queue holds items of one type only.
\<close>

definition tcp_task_step ::
  "'k rtos \<Rightarrow> ('k, 'z) app \<Rightarrow> qhandle option \<Rightarrow> ('k, 'z) tcp \<Rightarrow> ('k, 'z) tcp exec" where
  "tcp_task_step R app queue s =
     (if queue = send_queue s then
        rbind (q_receive R (send_queue s) 0 s) (\<lambda>(item, s).
        case item of
          Some (TcpTx tx_buf) \<Rightarrow> rbind (tcp_send_internal R tx_buf s) (\<lambda>(sres, s). Inr s)
        | None \<Rightarrow> Inr s
        | _ \<Rightarrow> Inl Fault)
      else if queue = input_queue s then
        rbind (q_receive R (input_queue s) 0 s) (\<lambda>(item, s).
        case item of
          Some (TcpInput rx_buf) \<Rightarrow>
            rbind (input_tcp_internal R app (tin_buffer rx_buf) (tin_length rx_buf)
                     (tin_src_ipv4_addr rx_buf) s) (\<lambda>s.
            free (tin_buffer rx_buf) s)
        | None \<Rightarrow> Inr s
        | _ \<Rightarrow> Inl Fault)
      else if queue = port_cmd_queue s then
        rbind (q_receive R (port_cmd_queue s) 0 s) (\<lambda>(item, s).
        case item of
          Some (TcpCmd cmd_buf) \<Rightarrow>
            (case cmd_type cmd_buf of
               CMD_CREATE_AND_CONNECT \<Rightarrow>
                 rbind (tcp_connect_port_internal R (cmd_self_port_num cmd_buf) (cmd_other_port_num cmd_buf)
                   (cmd_other_ipv4_addr cmd_buf) (cmd_on_receive cmd_buf) (cmd_on_connect cmd_buf)
                   (cmd_on_disconnect cmd_buf) s) (\<lambda>(res, s). Inr s)
             | CMD_CREATE_AND_LISTEN \<Rightarrow>
                 (let (res, s) = tcp_listen_port_internal R (cmd_self_port_num cmd_buf)
                    (cmd_on_receive cmd_buf) (cmd_on_connect cmd_buf) (cmd_on_disconnect cmd_buf) s in Inr s)
             | CMD_CLOSE \<Rightarrow>
                 rbind (tcp_close_port_internal R (cmd_self_port_num cmd_buf) (cmd_other_port_num cmd_buf)
                   (cmd_other_ipv4_addr cmd_buf) s) (\<lambda>(res, s). Inr s))
        | None \<Rightarrow> Inr s
        | _ \<Rightarrow> Inl Fault)
      else if queue = None then
        (let now = tick_count R s in for_each (scan_port R now) [0..<max_ports] s)
      else Inr s)"

definition init_tcp :: "'k rtos \<Rightarrow> ('k, 'z) tcp \<Rightarrow> (esp_err \<times> ('k, 'z) tcp) exec" where
  "init_tcp R s =
     (let s = (if tcp_task_queue_set s = None
               then let (q, s) = qset_create R 20 s in s\<lparr>tcp_task_queue_set := q\<rparr> else s) in
      rbind (if send_queue s = None
             then let (q, s) = q_create R 8 s; s = s\<lparr>send_queue := q\<rparr> in
                  if q = None then Inr (False, s)
                  else rbind (qset_add R (send_queue s) (tcp_task_queue_set s) s) (\<lambda>s. Inr (True, s))
             else Inr (True, s)) (\<lambda>(ok, s).
      if \<not> ok then Inr (ESP_ERR_NO_MEM, s) else
      rbind (if input_queue s = None
             then let (q, s) = q_create R 8 s; s = s\<lparr>input_queue := q\<rparr> in
                  if q = None then Inr (False, s)
                  else rbind (qset_add R (input_queue s) (tcp_task_queue_set s) s) (\<lambda>s. Inr (True, s))
             else Inr (True, s)) (\<lambda>(ok, s).
      if \<not> ok then Inr (ESP_ERR_NO_MEM, s) else
      rbind (if port_cmd_queue s = None
             then let (q, s) = q_create R 4 s; s = s\<lparr>port_cmd_queue := q\<rparr> in
                  if q = None then Inr (False, s)
                  else rbind (qset_add R (port_cmd_queue s) (tcp_task_queue_set s) s) (\<lambda>s. Inr (True, s))
             else Inr (True, s)) (\<lambda>(ok, s).
      if \<not> ok then Inr (ESP_ERR_NO_MEM, s) else
      (let (xReturned, s) = task_create R ''tcp task'' s in
       if \<not> xReturned then Inr (ESP_ERR_NO_MEM, s) else Inr (ESP_OK, s))))))"

end
