(* ===== verification/Tcp_Segment.thy ===== *)
theory Tcp_Segment
  imports Tcp
begin

text \<open>
  What \<^verbatim>\<open>tcp_send_internal\<close> puts on the wire: the segment of the parameters and the port, with a
  checksum over the pseudo header that every receiver accepts, and what it remembers for
  retransmission.
\<close>

section \<open>Segments\<close>

definition tcp_stamp :: "ipv4_addr \<Rightarrow> ipv4_addr \<Rightarrow> tcp_header \<Rightarrow> bytes \<Rightarrow> u16" where
  "tcp_stamp src dst h data =
     oc_checksum (ipv4_psuedo_header_bytes src dst (htons (of_nat (20 + length data)))
       @ tcp_header_bytes (h\<lparr>th_checksum := 0\<rparr>) @ data)"

definition tcp_segment :: "ipv4_addr \<Rightarrow> ipv4_addr \<Rightarrow> tcp_header \<Rightarrow> bytes \<Rightarrow> bytes" where
  "tcp_segment src dst h data =
     tcp_header_bytes (h\<lparr>th_checksum := htons (tcp_stamp src dst h data)\<rparr>) @ data"

lemma length_tcp_segment [simp]: "length (tcp_segment src dst h data) = 20 + length data"
  by (simp add: tcp_segment_def)

lemma tcp_header_split:
  "tcp_header_bytes (h\<lparr>th_checksum := w\<rparr>) =
     take 16 (tcp_header_bytes h) @ store16 w @ drop 18 (tcp_header_bytes h)"
  by (simp add: tcp_header_bytes_def)

lemma tcp_segment_checksum:
  "oc_checksum (ipv4_psuedo_header_bytes src dst (htons (of_nat (20 + length data)))
     @ tcp_segment src dst h data) = 0"
  using oc_checksum_stamp[of "ipv4_psuedo_header_bytes src dst (htons (of_nat (20 + length data)))
      @ take 16 (tcp_header_bytes h)" "drop 18 (tcp_header_bytes h) @ data"]
  by (simp add: tcp_segment_def tcp_stamp_def tcp_header_split) (simp add: store16_def)

text \<open>The header of the segment for given parameters, sent from \<open>port\<close> with a given sequence number.\<close>

definition segment_header :: "tcp_transmit_params \<Rightarrow> tcp_port \<Rightarrow> u32 \<Rightarrow> tcp_header" where
  "segment_header params port seq =
     \<lparr>th_src_port = htons (ttx_src_port params), th_dst_port = htons (ttx_dst_port params),
      th_seq_num = htonl seq, th_ack_num = htonl (tp_ack_num port), th_reserved = 0, th_dOffset = 5,
      th_control = ttx_control params, th_window = htons (tp_self_window port), th_checksum = 0,
      th_urgent_ptr = 0\<rparr>"

section \<open>Building a segment in a block\<close>

text \<open>
  The block before the sequence number is known (\<open>x\<close> are its four uninitialised bytes), and the
  block that is handed to IPv4: the segment, followed by the twelve bytes the move leaves behind.
\<close>

definition open_block :: "ipv4_addr \<Rightarrow> tcp_transmit_params \<Rightarrow> tcp_port \<Rightarrow> bytes \<Rightarrow> bytes \<Rightarrow> bytes" where
  "open_block src params port x data =
     ipv4_psuedo_header_bytes src (ttx_dst_ipv4_addr params) (htons (20 + ttx_data_len params))
     @ (store16 (htons (ttx_src_port params)) @ store16 (htons (ttx_dst_port params))) @ x
     @ (store32 (htonl (tp_ack_num port)) @ [push_bit 4 (20 div 4) OR 0] @ [ttx_control params]
        @ store16 (htons (tp_self_window port)) @ store16 0 @ store16 0) @ data"

definition sent_block :: "ipv4_addr \<Rightarrow> tcp_transmit_params \<Rightarrow> tcp_port \<Rightarrow> u32 \<Rightarrow> bytes \<Rightarrow> bytes" where
  "sent_block src params port seq data =
     (let seg = tcp_segment src (ttx_dst_ipv4_addr params) (segment_header params port seq) data
      in seg @ drop (length seg) (ipv4_psuedo_header_bytes src (ttx_dst_ipv4_addr params)
                                    (htons (20 + ttx_data_len params)) @ seg))"

lemma take_sent_block:
  "take (20 + length data) (sent_block src params port seq data) =
     tcp_segment src (ttx_dst_ipv4_addr params) (segment_header params port seq) data"
  by (simp add: sent_block_def Let_def)

lemma write_open_block:
  assumes "length blk = 32 + length data"
  obtains b1 b2 b3 x where
    "write_bytes 0 (ipv4_psuedo_header_bytes src (ttx_dst_ipv4_addr params)
        (htons (20 + ttx_data_len params))) blk = Inr b1"
    "write_bytes 12 (store16 (htons (ttx_src_port params)) @ store16 (htons (ttx_dst_port params))) b1 = Inr b2"
    "write_bytes 20 (store32 (htonl (tp_ack_num port)) @ [push_bit 4 (20 div 4) OR 0] @ [ttx_control params]
        @ store16 (htons (tp_self_window port)) @ store16 0 @ store16 0) b2 = Inr b3"
    "write_bytes 32 data b3 = Inr (open_block src params port x data)" "length x = 4"
    "data = [] \<Longrightarrow> b3 = open_block src params port x data"
proof -
  let ?ph = "ipv4_psuedo_header_bytes src (ttx_dst_ipv4_addr params) (htons (20 + ttx_data_len params))"
  let ?p = "store16 (htons (ttx_src_port params)) @ store16 (htons (ttx_dst_port params))"
  let ?r = "store32 (htonl (tp_ack_num port)) @ [push_bit 4 (20 div 4) OR 0] @ [ttx_control params]
    @ store16 (htons (tp_self_window port)) @ store16 0 @ store16 0"
  let ?x = "take 4 (drop 16 blk)"
  show thesis
  proof (rule that[of "?ph @ drop 12 blk" "?ph @ ?p @ drop 16 blk" "?ph @ ?p @ ?x @ ?r @ drop 32 blk" ?x])
    show "write_bytes 32 data (?ph @ ?p @ ?x @ ?r @ drop 32 blk) = Inr (open_block src params port ?x data)"
      using assms by (simp add: write_bytes_def open_block_def)
    show "data = [] \<Longrightarrow> ?ph @ ?p @ ?x @ ?r @ drop 32 blk = open_block src params port ?x data"
      using assms by (simp add: open_block_def)
  qed (use assms in \<open>simp_all add: write_bytes_def\<close>)
qed

lemma open_block_seq:
  assumes "length x = 4"
  shows "write_bytes 16 (store32 (htonl seq)) (open_block src params port x data) =
    Inr (ipv4_psuedo_header_bytes src (ttx_dst_ipv4_addr params) (htons (20 + ttx_data_len params))
      @ tcp_header_bytes (segment_header params port seq) @ data)"
  using assms by (simp add: write_bytes_def open_block_def tcp_header_bytes_def segment_header_def)

text \<open>From there to the call of \<^verbatim>\<open>send_ipv4_packet\<close>.\<close>

lemma tcp_finish_segment_eq:
  assumes "length x = 4" and "length data = unat (ttx_data_len params)"
    and "unat (ttx_data_len params) \<le> 65503" and "src = nc_ip (self_net s)"
  shows "tcp_finish_segment R params (Some a) (20 + ttx_data_len params) seq
      (with_block a (open_block src params port x data) s) =
    send_ipv4_packet R
      \<lparr>ip_src_ipv4_addr = src, ip_dst_ipv4_addr = ttx_dst_ipv4_addr params,
       ip_protocol = TCP_PROTOCOL_NUMBER, ip_data = Some a, ip_data_len = 20 + ttx_data_len params\<rparr>
      (with_block a (sent_block src params port seq data) s)"
proof -
  let ?n = "ttx_data_len params" and ?h = "segment_header params port seq"
  let ?ph = "ipv4_psuedo_header_bytes src (ttx_dst_ipv4_addr params) (htons (20 + ?n))"
  let ?seg = "tcp_segment src (ttx_dst_ipv4_addr params) ?h data"
  let ?b = "?ph @ tcp_header_bytes ?h @ data"
  have n: "unat (20 + ?n) = 20 + unat ?n" "unat (32 + ?n) = 32 + unat ?n"
    using assms(3) by (simp_all add: unat_plus_u16)
  have ofn: "(of_nat (20 + length data) :: u16) = 20 + ?n" using assms(2) by simp
  have len: "length ?b = 32 + unat ?n" by (simp add: assms(2))
  have ck: "net_checksum ?b (32 + ?n) = Inr (tcp_stamp src (ttx_dst_ipv4_addr params) ?h data)"
    unfolding tcp_stamp_def ofn using len n
    by (subst net_checksum_take) (simp_all add: segment_header_def)
  have w: "write_bytes 28 (store16 (htons (tcp_stamp src (ttx_dst_ipv4_addr params) ?h data))) ?b =
      Inr (?ph @ ?seg)"
    by (simp add: write_bytes_def tcp_segment_def tcp_header_split)
  have mv: "write_bytes 0 ?seg (?ph @ ?seg) = Inr (sent_block src params port seq data)"
    by (simp add: write_bytes_def sent_block_def Let_def)
  show ?thesis
    using assms(2) n len
    by (simp add: tcp_finish_segment_def open_block_seq[OF assms(1)] ck w mv assms(4)[symmetric])
qed

section \<open>The whole operation\<close>

lemma tcp_with_block_sel [simp]:
  "ports (with_block a b s) = ports s" "send_queue (with_block a b s) = send_queue s"
  "input_queue (with_block a b s) = input_queue s"
  "port_cmd_queue (with_block a b s) = port_cmd_queue s"
  "tcp_task_queue_set (with_block a b s) = tcp_task_queue_set s"
  by (simp_all add: with_block_def)

lemma find_port_with_block [simp]: "find_port x y z (with_block a b s) = find_port x y z s"
  by (simp add: find_port_def)

lemma set_port_sel [simp]:
  "kern (set_port p f s) = kern s" "heap (set_port p f s) = heap s" "self_net (set_port p f s) = self_net s"
  "ipv4_transmit_queue (set_port p f s) = ipv4_transmit_queue s" "send_queue (set_port p f s) = send_queue s"
  "input_queue (set_port p f s) = input_queue s" "port_cmd_queue (set_port p f s) = port_cmd_queue s"
  "ports (set_port p f s) = (ports s)[p := f (ports s ! p)]"
  by (simp_all add: set_port_def)

lemma set_unacked_sel [simp]:
  "kern (set_unacked p i g s) = kern s" "heap (set_unacked p i g s) = heap s"
  "self_net (set_unacked p i g s) = self_net s" "send_queue (set_unacked p i g s) = send_queue s"
  "input_queue (set_unacked p i g s) = input_queue s"
  "port_cmd_queue (set_unacked p i g s) = port_cmd_queue s"
  "ipv4_transmit_queue (set_unacked p i g s) = ipv4_transmit_queue s"
  by (simp_all add: set_unacked_def)

lemma set_port_with_block: "set_port p f (with_block a b s) = with_block a b (set_port p f s)"
  by (simp add: set_port_def with_block_def)

lemma set_unacked_with_block: "set_unacked p i g (with_block a b s) = with_block a b (set_unacked p i g s)"
  by (simp add: set_unacked_def set_port_with_block)

text \<open>How far a segment moves the sequence number.\<close>

definition seq_increment :: "tcp_transmit_params \<Rightarrow> u16" where
  "seq_increment params = ttx_data_len params +
     (if flag_SYN (ttx_control params) \<or> flag_FIN (ttx_control params) then 1 else 0)"

text \<open>The state in which slot \<open>i\<close> of port \<open>p\<close> remembers the segment and its sequence number is used up.\<close>

definition remember ::
  "'k rtos \<Rightarrow> tcp_transmit_params \<Rightarrow> nat \<Rightarrow> nat \<Rightarrow> ('k, 'z) tcp \<Rightarrow> ('k, 'z) tcp" where
  "remember R params p i s =
     set_port p (\<lambda>port. port\<lparr>tp_seq_num := tp_seq_num port + ucast (seq_increment params)\<rparr>)
       (set_unacked p i (\<lambda>_. \<lparr>ua_seq_num = tp_seq_num (ports s ! p), ua_in_use = True,
          ua_data = ttx_data params, ua_data_len = ttx_data_len params,
          ua_sent_at = tick_count R s, ua_control = ttx_control params\<rparr>) s)"

lemma remember_sel [simp]:
  "kern (remember R params p i s) = kern s" "heap (remember R params p i s) = heap s"
  "self_net (remember R params p i s) = self_net s"
  "ipv4_transmit_queue (remember R params p i s) = ipv4_transmit_queue s"
  by (simp_all add: remember_def)

definition ip_params_of :: "tcp_transmit_params \<Rightarrow> ('k, 'z) tcp \<Rightarrow> ipv4_transmit_params" where
  "ip_params_of params s =
     \<lparr>ip_src_ipv4_addr = nc_ip (self_net s), ip_dst_ipv4_addr = ttx_dst_ipv4_addr params,
      ip_protocol = TCP_PROTOCOL_NUMBER, ip_data = Some (brk (heap s)),
      ip_data_len = 20 + ttx_data_len params\<rparr>"

text \<open>Copying the data, if there is any.\<close>

lemma write_payload:
  assumes "heap_read d (unat n) t = Inr data" and "heap_write (Some a) 32 data t = Inr t'"
    and "data = [] \<Longrightarrow> t = t'"
  shows "(if d \<noteq> None \<and> 0 < (n :: u16)
     then rbind (heap_read d (unat n) t) (\<lambda>data. heap_write (Some a) 32 data t) else Inr t) = Inr t'"
proof (cases "n = 0")
  case True
  then show ?thesis using assms by simp
next
  case False
  then have "d \<noteq> None"
    using assms(1) by (auto simp: heap_read_def unat_eq_0 split: if_splits option.splits)
  then show ?thesis using False assms by (simp add: word_neq_0_conv)
qed

lemma tcp_send_internal_eq:
  assumes "heap_ok s" and "\<not> oom (heap s) (brk (heap s))"
    and "find_port (ttx_src_port params) (ttx_dst_port params) (ttx_dst_ipv4_addr params) s = Some p"
    and "unat (ttx_data_len params) \<le> 65503"
    and "heap_read (ttx_data params) (unat (ttx_data_len params)) s = Inr data"
  defines "a \<equiv> brk (heap s)" and "src \<equiv> nc_ip (self_net s)" and "port \<equiv> ports s ! p"
  shows "\<exists>x. length x = 4 \<and> tcp_send_internal R params s =
     (if 0 < seq_increment params \<and> \<not> ttx_isRetransmission params then
        (case find_empty_unacked port of
           None \<Rightarrow> rbind (free (ttx_data params) (with_block a (open_block src params port x data) s))
             (\<lambda>s. Inr (ESP_ERR_NO_MEM, s))
         | Some i \<Rightarrow> send_ipv4_packet R (ip_params_of params s)
             (with_block a (sent_block src params port (tp_seq_num port) data) (remember R params p i s)))
      else send_ipv4_packet R (ip_params_of params s)
             (with_block a (sent_block src params port (ttx_seq_num params) data) s))"
proof -
  let ?n = "ttx_data_len params"
  define blk where "blk = map (junk (heap s) a) [0..<32 + unat ?n]"
  have n: "unat (20 + ?n) + 12 = 32 + unat ?n" using assms(4) by (simp add: unat_plus_u16)
  have dl: "length data = unat ?n"
    using assms(5) by (auto simp: heap_read_def read_bytes_eq_Inr split: if_splits option.splits)
  then have bl: "length blk = 32 + length data" by (simp add: blk_def)
  obtain b1 b2 b3 x where w:
    "write_bytes 0 (ipv4_psuedo_header_bytes src (ttx_dst_ipv4_addr params) (htons (20 + ?n))) blk = Inr b1"
    "write_bytes 12 (store16 (htons (ttx_src_port params)) @ store16 (htons (ttx_dst_port params))) b1 = Inr b2"
    "write_bytes 20 (store32 (htonl (tp_ack_num port)) @ [push_bit 4 (20 div 4) OR 0] @ [ttx_control params]
        @ store16 (htons (tp_self_window port)) @ store16 0 @ store16 0) b2 = Inr b3"
    "write_bytes 32 data b3 = Inr (open_block src params port x data)" "length x = 4"
    "data = [] \<Longrightarrow> b3 = open_block src params port x data"
    using write_open_block[OF bl, of src params port] by blast
  have rd: "heap_read (ttx_data params) (unat ?n) (with_block a b3 s) = Inr data"
    unfolding a_def using assms(1,5) by (rule heap_read_other_block)
  have load: "(if ttx_data params \<noteq> None \<and> 0 < ?n
      then rbind (heap_read (ttx_data params) (unat ?n) (with_block a b3 s)) (\<lambda>d.
        heap_write (Some a) 32 d (with_block a b3 s))
      else Inr (with_block a b3 s)) = Inr (with_block a (open_block src params port x data) s)"
    by (rule write_payload[OF rd]) (simp add: w(4), drule w(6), simp)
  note fin = tcp_finish_segment_eq[OF w(5) dl assms(4), where R = R]
  have "tcp_send_internal R params s =
     (if 0 < seq_increment params \<and> \<not> ttx_isRetransmission params then
        (case find_empty_unacked port of
           None \<Rightarrow> rbind (free (ttx_data params) (with_block a (open_block src params port x data) s))
             (\<lambda>s. Inr (ESP_ERR_NO_MEM, s))
         | Some i \<Rightarrow> tcp_finish_segment R params (Some a) (20 + ?n) (tp_seq_num port)
             (with_block a (open_block src params port x data) (remember R params p i s)))
      else tcp_finish_segment R params (Some a) (20 + ?n) (ttx_seq_num params)
             (with_block a (open_block src params port x data) s))"
    using assms(2,3) w(1-3) load
    by (simp add: tcp_send_internal_def malloc_with_block n Let_def a_def[symmetric] blk_def[symmetric]
        src_def[symmetric] port_def[symmetric] seq_increment_def[symmetric] remember_def tick_count_def
        set_port_with_block set_unacked_with_block del: split_paired_Ex cong: option.case_cong)
  then show ?thesis
    using w(5) by (intro exI[of _ x]) (simp add: fin ip_params_of_def src_def a_def split: option.splits)
qed

section \<open>A concrete connection\<close>

text \<open>
  Queues 3, 4 and 5 of the TCP task, semaphore 6 with \<open>n\<close> free slots, and one connection in state \<open>st\<close>
  from port 80 to port 5000 of 192.168.1.1, over the state of the IPv4 example.
\<close>

definition port1 :: "tcp_state \<Rightarrow> tcp_port" where
  "port1 st = port_zero\<lparr>tp_self_port_num := 80, tp_other_port_num := 5000,
     tp_other_ipv4_addr := IPv4 192 168 1 1, tp_state := st, tp_seq_num := 7, tp_ack_num := 9,
     tp_self_window := 1500, tp_unacked_slots := Some 6, tp_on_receive := Some 1, tp_on_connect := Some 2,
     tp_on_disconnect := Some 3\<rparr>"

definition tcp1 :: "nat \<Rightarrow> tcp_state \<Rightarrow> refk tcp_net" where
  "tcp1 n st = arp_net.extend
     (ipv4_s1\<lparr>kern := ref_init\<lparr>kv_queues := [0 \<mapsto> (4, []), 1 \<mapsto> (4, []), 2 \<mapsto> (4, []), 3 \<mapsto> (8, []),
        4 \<mapsto> (8, []), 5 \<mapsto> (4, [])], kv_sems := [6 \<mapsto> (8, n)], rk_next := 7, rk_tick := 500\<rparr>\<rparr>)
     \<lparr>send_queue = Some 3, input_queue = Some 4, port_cmd_queue = Some 5, tcp_task_queue_set = Some 9,
      ports = port1 st # replicate 7 port_zero\<rparr>"

lemmas tcp_state_defs = tcp1_def port1_def port_zero_def unacked_zero_def arp_net.extend_def ipv4_state_defs

lemma heap_ok_tcp1 [simp]: "heap_ok (tcp1 n st)"
  by (simp add: heap_ok_def tcp_state_defs)

lemma tcp1_sel [simp]:
  "kern (tcp1 n st) = ref_init\<lparr>kv_queues := [0 \<mapsto> (4, []), 1 \<mapsto> (4, []), 2 \<mapsto> (4, []), 3 \<mapsto> (8, []),
     4 \<mapsto> (8, []), 5 \<mapsto> (4, [])], kv_sems := [6 \<mapsto> (8, n)], rk_next := 7, rk_tick := 500\<rparr>"
  "heap (tcp1 n st) = heap0\<lparr>cells := [0 \<mapsto> [10, 20, 30]], brk := 1\<rparr>"
  "ports (tcp1 n st) = port1 st # replicate 7 port_zero" "send_queue (tcp1 n st) = Some 3"
  "input_queue (tcp1 n st) = Some 4" "port_cmd_queue (tcp1 n st) = Some 5"
  "ipv4_transmit_queue (tcp1 n st) = Some 2"
  "self_net (tcp1 n st) = \<lparr>nc_mac = MAC 0x30 0x83 0x98 0x94 0xEC 0x1B, nc_ip = IPv4 192 168 1 230\<rparr>"
  by (simp_all add: tcp1_def arp_net.extend_def ipv4_state_defs)

lemma heap0_sel [simp]: "oom heap0 = (\<lambda>_. False)" "cells heap0 = Map.empty" "brk heap0 = 0"
  by (simp_all add: heap0_def)

lemma find_port_tcp1 [simp]: "find_port 80 5000 (IPv4 192 168 1 1) (tcp1 n st) = Some 0"
  by (simp add: find_port_def port1_def)

section \<open>Properties\<close>

text \<open>
  C5: \<^verbatim>\<open>tcp_send_internal\<close>, for a known port and at most 65503 bytes of data, hands IPv4 one segment
  from this host to the peer: its header carries the ports, the control bits, the port's
  acknowledgement number and window, and the sequence number of the port (of the parameters for a
  retransmission or a bare acknowledgement); the data follows; the checksum over the pseudo header is
  valid. A new segment that consumes sequence numbers is remembered in a free slot with its data and
  the port's sequence number advances by the bytes sent, plus one for SYN or FIN; nothing else changes.
\<close>

theorem tcp_send_internal_correct:
  assumes "heap_ok s" and "\<not> oom (heap s) (brk (heap s))"
    and "find_port (ttx_src_port params) (ttx_dst_port params) (ttx_dst_ipv4_addr params) s = Some p"
    and "unat (ttx_data_len params) \<le> 65503"
    and "heap_read (ttx_data params) (unat (ttx_data_len params)) s = Inr data"
    and "port = ports s ! p" and "inc = ttx_data_len params +
       (if flag_SYN (ttx_control params) \<or> flag_FIN (ttx_control params) then 1 else 0)"
    and "new \<longleftrightarrow> 0 < inc \<and> \<not> ttx_isRetransmission params"
    and "new \<Longrightarrow> find_empty_unacked port = Some i"
    and "src = nc_ip (self_net s)" and "dst = ttx_dst_ipv4_addr params"
  shows "\<exists>blk h.
     tcp_send_internal R params s =
       send_ipv4_packet R
         \<lparr>ip_src_ipv4_addr = src, ip_dst_ipv4_addr = dst, ip_protocol = 6, ip_data = Some (brk (heap s)),
          ip_data_len = 20 + ttx_data_len params\<rparr>
         (with_block (brk (heap s)) blk (s\<lparr>ports := if new then (ports s)[p := port
            \<lparr>tp_unacked := (tp_unacked port)[i := \<lparr>ua_seq_num = tp_seq_num port, ua_in_use = True,
               ua_data = ttx_data params, ua_data_len = ttx_data_len params,
               ua_sent_at = tick_count R s, ua_control = ttx_control params\<rparr>],
             tp_seq_num := tp_seq_num port + ucast inc\<rparr>] else ports s\<rparr>)) \<and>
     take (20 + length data) blk = tcp_header_bytes h @ data \<and>
     tcp_header_at (take (20 + length data) blk) = h \<and>
     h = \<lparr>th_src_port = htons (ttx_src_port params), th_dst_port = htons (ttx_dst_port params),
        th_seq_num = htonl (if new then tp_seq_num port else ttx_seq_num params),
        th_ack_num = htonl (tp_ack_num port), th_reserved = 0, th_dOffset = 5,
        th_control = ttx_control params, th_window = htons (tp_self_window port),
        th_checksum = th_checksum h, th_urgent_ptr = 0\<rparr> \<and>
     oc_checksum (ipv4_psuedo_header_bytes src dst (htons (of_nat (20 + length data)))
       @ take (20 + length data) blk) = 0"
proof -
  let ?seq = "if new then tp_seq_num port else ttx_seq_num params"
  let ?blk = "sent_block src params port ?seq data"
  let ?hdr = "segment_header params port ?seq"
  let ?h = "?hdr\<lparr>th_checksum := htons (tcp_stamp src dst ?hdr data)\<rparr>"
  have p: "p < length (ports s)" using assms(3) by (auto simp: find_port_def dest: find_index_SomeD)
  have inc: "seq_increment params = inc" by (simp add: seq_increment_def assms(7))
  have "tcp_send_internal R params s = send_ipv4_packet R (ip_params_of params s)
      (with_block (brk (heap s)) ?blk (if new then remember R params p i s else s))"
    using tcp_send_internal_eq[OF assms(1-5), of R] assms(6-10) by (auto simp: inc)
  moreover have "(if new then remember R params p i s else s) =
      s\<lparr>ports := if new then (ports s)[p := port
            \<lparr>tp_unacked := (tp_unacked port)[i := \<lparr>ua_seq_num = tp_seq_num port, ua_in_use = True,
               ua_data = ttx_data params, ua_data_len = ttx_data_len params,
               ua_sent_at = tick_count R s, ua_control = ttx_control params\<rparr>],
             tp_seq_num := tp_seq_num port + ucast inc\<rparr>] else ports s\<rparr>"
    using p assms(6) by (simp add: remember_def set_unacked_def set_port_def inc)
  moreover have "take (20 + length data) ?blk = tcp_header_bytes ?h @ data"
    using take_sent_block[of data src params port ?seq] by (simp add: tcp_segment_def assms(11))
  moreover have "tcp_header_at (tcp_header_bytes ?h @ data) = ?h"
    by (rule tcp_header_roundtrip) (simp_all add: segment_header_def)
  moreover have "oc_checksum (ipv4_psuedo_header_bytes src dst (htons (of_nat (20 + length data)))
       @ take (20 + length data) ?blk) = 0"
    using tcp_segment_checksum[of src dst data ?hdr] take_sent_block[of data src params port ?seq]
    by (simp add: assms(11))
  ultimately show ?thesis
    by (intro exI[of _ ?blk] exI[of _ ?h]) (simp add: ip_params_of_def segment_header_def assms(10,11))
qed

theorem tcp_send_internal_correct_witness:
  "\<exists>s'. tcp_send_internal ref_rtos
       \<lparr>ttx_dst_ipv4_addr = IPv4 192 168 1 1, ttx_src_port = 80, ttx_dst_port = 5000, ttx_seq_num = 0,
        ttx_control = 24, ttx_isRetransmission = False, ttx_data = Some 0, ttx_data_len = 2\<rparr>
       (tcp1 7 ESTABLISHED) = Inr (ESP_OK, s') \<and>
     tp_seq_num (ports s' ! 0) = 9 \<and> ua_data (tp_unacked (ports s' ! 0) ! 0) = Some 0"
  (is "\<exists>s'. tcp_send_internal _ ?ps ?s = _ \<and> _")
proof -
  have rd: "heap_read (ttx_data ?ps) (unat (ttx_data_len ?ps)) ?s = Inr [10, 20]"
    by (simp add: heap_read_def)
  have em: "find_empty_unacked (ports ?s ! 0) = Some 0"
    by (simp add: find_empty_unacked_def port1_def port_zero_def unacked_zero_def eval_nat_numeral)
  have seq: "tp_seq_num (port1 ESTABLISHED) = 7" "length (tp_unacked (port1 ESTABLISHED)) = 8"
    by (simp_all add: port1_def port_zero_def)
  from tcp_send_internal_correct[of ?s ?ps 0, OF _ _ _ _ rd refl refl refl em refl refl, of ref_rtos]
  show ?thesis
    by (auto simp: send_ipv4_packet_def q_send_def kq_send_def seq)
qed

end
