(* ===== verification/Tcp_Input.thy ===== *)
theory Tcp_Input
  imports Tcp_Segment
begin

text \<open>
  The receiving side of TCP: the handler of a segment implements an abstract connection state
  machine, accepts only the next segment in sequence, delivers its payload and acknowledges it.
\<close>

section \<open>The abstract state machine\<close>

text \<open>
  The moves a connection may make when a segment with control byte \<open>c\<close> arrives.
\<close>

inductive tcp_trans :: "u8 \<Rightarrow> tcp_state \<Rightarrow> tcp_state \<Rightarrow> bool" for c where
  stay: "tcp_trans c st st"
| reset: "flag_RST c \<Longrightarrow> st \<noteq> CLOSED \<Longrightarrow> tcp_trans c st CLOSED"
| passive_open: "\<not> flag_RST c \<Longrightarrow> flag_SYN c \<Longrightarrow> tcp_trans c LISTEN SYN_RECEIVED"
| active_open: "\<not> flag_RST c \<Longrightarrow> flag_SYN c \<Longrightarrow> flag_ACK c \<Longrightarrow> tcp_trans c SYN_SENT ESTABLISHED"
| opened: "\<not> flag_RST c \<Longrightarrow> flag_ACK c \<Longrightarrow> tcp_trans c SYN_RECEIVED ESTABLISHED"
| closing: "\<not> flag_RST c \<Longrightarrow> flag_FIN c \<Longrightarrow> tcp_trans c ESTABLISHED LAST_ACK"
| closed: "\<not> flag_RST c \<Longrightarrow> flag_ACK c \<Longrightarrow> tcp_trans c LAST_ACK CLOSED"
| fin_acked: "\<not> flag_RST c \<Longrightarrow> flag_ACK c \<Longrightarrow> \<not> flag_FIN c \<Longrightarrow> tcp_trans c FIN_WAIT_1 FIN_WAIT_2"
| simultaneous: "\<not> flag_RST c \<Longrightarrow> flag_FIN c \<Longrightarrow> tcp_trans c FIN_WAIT_1 TIME_WAIT"
| finished: "\<not> flag_RST c \<Longrightarrow> flag_FIN c \<Longrightarrow> tcp_trans c FIN_WAIT_2 TIME_WAIT"

inductive_cases tcp_trans_from_closed: "tcp_trans c CLOSED st"
inductive_cases tcp_trans_from_time_wait: "tcp_trans c TIME_WAIT st"

section \<open>What leaves the ports alone\<close>

lemma free_ports: "free p s = Inr s' \<Longrightarrow> ports s' = ports s"
  by (auto simp: free_def split: option.splits)

lemma q_send_ports: "q_send R q m t s = Inr (ok, s') \<Longrightarrow> ports s' = ports s"
  by (auto simp: q_send_def rbind_eq_Inr split: option.splits)

lemma sem_give_ports: "sem_give R h s = Inr s' \<Longrightarrow> ports s' = ports s"
  by (auto simp: sem_give_def rbind_eq_Inr split: option.splits)

lemma sem_take_ports: "sem_take R h t s = Inr (ok, s') \<Longrightarrow> ports s' = ports s"
  by (auto simp: sem_take_def rbind_eq_Inr split: option.splits)

lemma sem_delete_ports: "sem_delete R h s = Inr s' \<Longrightarrow> ports s' = ports s"
  by (auto simp: sem_delete_def rbind_eq_Inr split: option.splits)

lemmas ports_kept = free_ports q_send_ports sem_give_ports sem_take_ports sem_delete_ports

lemma tcp_enqueue_ports: "tcp_enqueue R params t s = Inr (e, s') \<Longrightarrow> ports s' = ports s"
  by (auto simp: tcp_enqueue_def rbind_eq_Inr dest: ports_kept split: if_splits)

lemma tcp_enqueue_reliable_ports:
  "tcp_enqueue_reliable R Inr params t s = Inr (e, s') \<Longrightarrow> ports s' = ports s"
  by (auto simp: tcp_enqueue_reliable_def rbind_eq_Inr dest!: ports_kept split: if_splits option.splits)

lemma give_all_ports:
  "for_each (\<lambda>i. sem_give R h) is s = Inr s' \<Longrightarrow> ports s' = ports s"
  by (rule for_each_invariant[where P = "\<lambda>t. ports t = ports s"]) (auto dest: sem_give_ports)

text \<open>An application that does not write to the port table of the stack.\<close>

definition app_keeps_ports :: "('k, 'z) app \<Rightarrow> bool" where
  "app_keeps_ports app \<longleftrightarrow> (\<forall>f c s s'. app f c s = Inr s' \<longrightarrow> ports s' = ports s)"

lemma call_app_ports: "app_keeps_ports app \<Longrightarrow> call_app app fp c s = Inr s' \<Longrightarrow> ports s' = ports s"
  by (auto simp: call_app_def app_keeps_ports_def split: option.splits)

section \<open>Only one port moves\<close>

text \<open>
  From \<open>s\<close> to \<open>s'\<close> only port \<open>p\<close> changed, it still has its slots, and its state made the move \<open>P\<close>.
\<close>

definition moves :: "nat \<Rightarrow> (tcp_state \<Rightarrow> tcp_state \<Rightarrow> bool) \<Rightarrow> ('k, 'z) tcp \<Rightarrow> ('k, 'z) tcp \<Rightarrow> bool" where
  "moves p P s s' \<longleftrightarrow> length (ports s') = length (ports s) \<and>
     (\<forall>q. q \<noteq> p \<longrightarrow> ports s' ! q = ports s ! q) \<and> P (tp_state (ports s ! p)) (tp_state (ports s' ! p))"

lemma moves_refl: "P (tp_state (ports s ! p)) (tp_state (ports s ! p)) \<Longrightarrow> moves p P s s"
  by (simp add: moves_def)

lemma moves_ports: "ports s' = ports s \<Longrightarrow> moves p (=) s s'"
  by (simp add: moves_def)

lemma moves_trans: "moves p (=) s t \<Longrightarrow> moves p P t u \<Longrightarrow> moves p P s u"
  by (simp add: moves_def)

lemma moves_trans2: "moves p P s t \<Longrightarrow> moves p (=) t u \<Longrightarrow> moves p P s u"
  by (simp add: moves_def)

lemma moves_then: "moves p P s t \<Longrightarrow> ports u = ports t \<Longrightarrow> moves p P s u"
  by (simp add: moves_def)

lemma moves_set_port:
  "p < length (ports s) \<Longrightarrow> P (tp_state (ports s ! p)) (tp_state (f (ports s ! p))) \<Longrightarrow> moves p P s (set_port p f s)"
  by (simp add: moves_def)

lemma moves_set_unacked: "p < length (ports s) \<Longrightarrow> moves p (=) s (set_unacked p i g s)"
  by (simp add: set_unacked_def moves_set_port)

lemma reset_unacked_moves:
  "p < length (ports s) \<Longrightarrow> reset_unacked p i s = Inr s' \<Longrightarrow> moves p (=) s s'"
  by (auto simp: reset_unacked_def Let_def rbind_eq_Inr moves_def set_unacked_def
      dest!: free_ports split: if_splits)

lemma ack_unacked_moves:
  "p < length (ports s) \<Longrightarrow> ack_unacked R p n i s = Inr s' \<Longrightarrow> moves p (=) s s'"
  by (auto simp: ack_unacked_def Let_def rbind_eq_Inr moves_def set_unacked_def
      dest!: free_ports sem_give_ports split: if_splits)

lemma for_each_moves:
  assumes "for_each f is s = Inr s'" and "p < length (ports s)"
    and "\<And>i t t'. p < length (ports t) \<Longrightarrow> f i t = Inr t' \<Longrightarrow> moves p (=) t t'"
  shows "moves p (=) s s'"
proof -
  have "p < length (ports s') \<and> moves p (=) s s'"
  proof (rule for_each_invariant[OF _ _ assms(1), where P = "\<lambda>t. p < length (ports t) \<and> moves p (=) s t"])
    show "p < length (ports s) \<and> moves p (=) s s" using assms(2) by (simp add: moves_refl)
    fix i t t'
    assume "p < length (ports t) \<and> moves p (=) s t" and "f i t = Inr t'"
    then show "p < length (ports t') \<and> moves p (=) s t'"
      using assms(3)[of t i t'] by (auto simp: moves_def)
  qed
  then show ?thesis ..
qed

lemma tcp_reset_port_moves:
  assumes "p < length (ports s)" and "tcp_reset_port R p s = Inr s'"
  shows "moves p (\<lambda>st st'. st' = CLOSED) s s'"
proof -
  let ?s0 = "set_port p (\<lambda>port. port\<lparr>tp_state := CLOSED, tp_self_port_num := 0\<rparr>) s"
  from assms(2) obtain s1 n s2 where s1: "for_each (reset_unacked p) [0..<8] ?s0 = Inr s1"
    and s2: "for_each (\<lambda>i. sem_give R (tp_unacked_slots (ports s1 ! p))) [0..<n] s1 = Inr s2"
    and s': "sem_delete R (tp_unacked_slots (ports s1 ! p)) s2 = Inr s'"
    by (auto simp: tcp_reset_port_def Let_def rbind_eq_Inr)
  have "moves p (\<lambda>st st'. st' = CLOSED) s ?s0" using assms(1) by (rule moves_set_port) simp
  moreover have "moves p (=) ?s0 s1"
    using s1 by (rule for_each_moves) (use assms(1) in \<open>auto intro: reset_unacked_moves\<close>)
  ultimately show ?thesis
    using give_all_ports[OF s2] sem_delete_ports[OF s'] by (metis moves_then moves_trans2)
qed

lemma set_port_call:
  assumes "app_keeps_ports app" and "p < length (ports s)"
    and "P (tp_state (ports s ! p)) (tp_state (f (ports s ! p)))"
    and "call_app app fp c (set_port p f s) = Inr s'"
  shows "moves p P s s'"
  using moves_set_port[where f = f, OF assms(2), of P, OF assms(3)] call_app_ports[OF assms(1,4)]
  by (rule moves_then)

text \<open>The \<^verbatim>\<open>switch\<close> makes only the moves of the machine.\<close>

lemma tcp_state_switch_moves:
  assumes app: "app_keeps_ports app" and p: "p < length (ports s)"
    and c: "c = th_control header" "\<not> flag_RST c"
    and run: "tcp_state_switch R app p header buffer len hl src s = Inr s'"
  shows "moves p (tcp_trans c) s s'"
proof (cases "tp_state (ports s ! p)")
  case LISTEN
  then show ?thesis
    using run c p
    by (auto simp: tcp_state_switch_def Let_def rbind_eq_Inr moves_def dest!: tcp_enqueue_reliable_ports
        intro: tcp_trans.intros split: if_splits)
next
  case SYN_SENT
  then show ?thesis
    using run c p call_app_ports[OF app]
    by (auto simp: tcp_state_switch_def Let_def moves_def intro: tcp_trans.intros split: if_splits)
next
  case SYN_RECEIVED
  then show ?thesis
    using run c p call_app_ports[OF app]
    by (auto simp: tcp_state_switch_def Let_def moves_def intro: tcp_trans.intros split: if_splits)
next
  case ESTABLISHED
  then show ?thesis
    using run c p call_app_ports[OF app]
    by (auto simp: tcp_state_switch_def Let_def rbind_eq_Inr moves_def dest!: tcp_enqueue_reliable_ports
        intro: tcp_trans.intros split: if_splits)
next
  case LAST_ACK
  then show ?thesis
    using run c p call_app_ports[OF app]
    by (auto simp: tcp_state_switch_def Let_def rbind_eq_Inr moves_def dest!: tcp_reset_port_moves[OF p]
        intro: tcp_trans.intros split: if_splits)
next
  case FIN_WAIT_1
  then show ?thesis
    using run c p call_app_ports[OF app]
    by (auto simp: tcp_state_switch_def Let_def moves_def intro: tcp_trans.intros split: if_splits)
next
  case FIN_WAIT_2
  then show ?thesis
    using run c p call_app_ports[OF app]
    by (auto simp: tcp_state_switch_def Let_def moves_def intro: tcp_trans.intros split: if_splits)
qed (use run in \<open>auto simp: tcp_state_switch_def Let_def intro: moves_refl tcp_trans.stay\<close>)

lemma tcp_acknowledge_moves:
  assumes "p < length (ports s)" and "tcp_acknowledge R p header len hl src s = Inr t"
  shows "moves p (=) s t"
proof (cases "ports t = ports s")
  case False
  then obtain n where "ports t = ports (set_port p (\<lambda>port. port\<lparr>tp_ack_num := n\<rparr>) s)"
    using assms(2) unfolding tcp_acknowledge_def Let_def
    by (auto simp del: set_port_sel simp: rbind_eq_Inr dest!: tcp_enqueue_ports split: if_split_asm)
  then show ?thesis using assms(1) by (simp add: moves_def)
qed (rule moves_ports)

lemma tcp_accept_segment_moves:
  assumes app: "app_keeps_ports app" and p: "p < length (ports s)"
    and c: "c = th_control header" "\<not> flag_RST c"
    and run: "tcp_accept_segment R app p header buffer len hl src s = Inr s'"
  shows "moves p (tcp_trans c) s s'"
proof -
  from run obtain t where t: "moves p (=) s t"
    and sw: "tcp_state_switch R app p header buffer len hl src
       (set_port p (\<lambda>port. port\<lparr>tp_other_window := ntohs (th_window header)\<rparr>) t) = Inr s'"
    using tcp_acknowledge_moves[OF p, of R header len hl src] by (auto simp: tcp_accept_segment_def Let_def rbind_eq_Inr)
  have pt: "p < length (ports t)" using p t by (simp add: moves_def)
  then have "moves p (=) t (set_port p (\<lambda>port. port\<lparr>tp_other_window := ntohs (th_window header)\<rparr>) t)"
    by (rule moves_set_port) simp
  then show ?thesis
    using tcp_state_switch_moves[OF app _ c sw] pt t by (metis moves_trans set_port_sel(8) length_list_update)
qed

lemma input_tcp_internal_moves:
  assumes app: "app_keeps_ports app" and rd: "heap_read buffer 20 s = Inr raw"
    and run: "input_tcp_internal R app buffer len src s = Inr s'"
  shows "\<exists>p. moves p (tcp_trans (th_control (tcp_header_at raw))) s s'"
proof -
  let ?h = "tcp_header_at raw"
  let ?c = "th_control ?h"
  let ?find = "case find_port (ntohs (th_dst_port ?h)) (ntohs (th_src_port ?h)) src s of
      None \<Rightarrow> if flag_SYN ?c then find_listening_port (ntohs (th_dst_port ?h)) s else None
    | Some p \<Rightarrow> Some p"
  show ?thesis
  proof (cases ?find)
    case None
    then have "s' = s" using run by (auto simp: input_tcp_internal_header[OF rd] Let_def split: if_splits)
    then show ?thesis by (auto intro: moves_refl tcp_trans.stay)
  next
    case (Some p)
    then have p: "p < length (ports s)"
      by (auto simp: find_port_def find_listening_port_def dest: find_index_SomeD
          split: option.splits if_splits)
    have ack: "moves p (=) s t"
      if "for_each (ack_unacked R p n) [0..<8] s = Inr t" for n t
      using that p by (rule for_each_moves) (rule ack_unacked_moves)
    have stay: "moves p (tcp_trans ?c) s s" by (rule moves_refl) (rule tcp_trans.stay)
    consider "s' = s" | "flag_RST ?c" "tp_state (ports s ! p) \<noteq> CLOSED" "tcp_reset_port R p s = Inr s'"
      | t where "\<not> flag_RST ?c" "moves p (=) s t"
          "tcp_accept_segment R app p ?h buffer len (ucast (th_dOffset ?h) * 4) src t = Inr s'"
      using run Some
      by (auto simp: input_tcp_internal_header[OF rd] Let_def rbind_eq_Inr intro: ack moves_refl split: if_splits)
    then show ?thesis
    proof cases
      case 1
      then show ?thesis using stay by blast
    next
      case 2
      then have "moves p (tcp_trans ?c) s s'"
        using tcp_reset_port_moves[OF p 2(3)] by (auto simp: moves_def intro: tcp_trans.reset)
      then show ?thesis ..
    next
      case 3
      have "p < length (ports t)" using p 3(2) by (simp add: moves_def)
      then show ?thesis
        using tcp_accept_segment_moves[OF app _ refl 3(1,3)] 3(2) by (blast intro: moves_trans)
    qed
  qed
qed

end
