(* ===== verification/Tcp_Slots.thy ===== *)
theory Tcp_Slots
  imports Tcp_Input
begin

text \<open>
  The retransmission slots of a port: which blocks they own, what an acknowledgement and a reset
  release, and how the counting semaphore follows.
\<close>

section \<open>Ownership\<close>

text \<open>Every slot in use owns a live block of its own, or none.\<close>

definition slots_own :: "tcp_unacked list \<Rightarrow> (addr \<Rightarrow> bytes option) \<Rightarrow> bool" where
  "slots_own us c \<longleftrightarrow>
     (\<forall>i<length us. \<forall>a. ua_in_use (us ! i) \<longrightarrow> ua_data (us ! i) = Some a \<longrightarrow>
        c a \<noteq> None \<and> (\<forall>j<length us. j \<noteq> i \<longrightarrow> ua_in_use (us ! j) \<longrightarrow> ua_data (us ! j) \<noteq> Some a))"

definition hit :: "u32 \<Rightarrow> tcp_unacked \<Rightarrow> bool" where
  "hit n u \<longleftrightarrow> ua_in_use u \<and> ua_seq_num u \<le> n"

definition acked :: "u32 \<Rightarrow> tcp_unacked \<Rightarrow> tcp_unacked" where
  "acked n u = (if hit n u then u\<lparr>ua_in_use := False, ua_data := None\<rparr> else u)"

text \<open>The blocks that the slots satisfying \<open>P\<close> hold.\<close>

definition blocks_of :: "(tcp_unacked \<Rightarrow> bool) \<Rightarrow> tcp_unacked list \<Rightarrow> addr set" where
  "blocks_of P us = {a. \<exists>u\<in>set us. P u \<and> ua_data u = Some a}"

lemma blocks_of_simps [simp]:
  "blocks_of P [] = {}"
  "blocks_of P (us @ [u]) = blocks_of P us \<union> (if P u then set_option (ua_data u) else {})"
  by (auto simp: blocks_of_def)

lemma owned_elsewhere:
  assumes "slots_own us c" and "k < length us" and "ua_in_use (us ! k)" and "ua_data (us ! k) = Some a"
    and "\<And>u. P u \<Longrightarrow> ua_in_use u"
  shows "a \<notin> blocks_of P (take k us)" and "c a \<noteq> None"
proof -
  show "c a \<noteq> None" using assms(1-4) by (auto simp: slots_own_def)
  show "a \<notin> blocks_of P (take k us)"
  proof
    assume "a \<in> blocks_of P (take k us)"
    then obtain j where "j < k" "ua_in_use (us ! j)" "ua_data (us ! j) = Some a"
      using assms(2,5) by (auto simp: blocks_of_def in_set_conv_nth)
    then show False using assms(1-4) by (auto simp: slots_own_def)
  qed
qed

section \<open>An acknowledgement\<close>

text \<open>The state in which the slots of \<open>p\<close> are \<open>us\<close>, the blocks in \<open>A\<close> are gone and the kernel is \<open>k\<close>.\<close>

definition slots_state ::
  "nat \<Rightarrow> tcp_unacked list \<Rightarrow> addr set \<Rightarrow> 'k \<Rightarrow> ('k, 'z) tcp \<Rightarrow> ('k, 'z) tcp" where
  "slots_state p us A k s = s\<lparr>kern := k, heap := (heap s)\<lparr>cells := cells (heap s) |` (- A)\<rparr>,
     ports := (ports s)[p := (ports s ! p)\<lparr>tp_unacked := us\<rparr>]\<rparr>"

lemma slots_state_sel [simp]:
  "kern (slots_state p us A k s) = k" "cells (heap (slots_state p us A k s)) = cells (heap s) |` (- A)"
  "ports (slots_state p us A k s) = (ports s)[p := (ports s ! p)\<lparr>tp_unacked := us\<rparr>]"
  "send_queue (slots_state p us A k s) = send_queue s" "input_queue (slots_state p us A k s) = input_queue s"
  "port_cmd_queue (slots_state p us A k s) = port_cmd_queue s"
  "self_net (slots_state p us A k s) = self_net s"
  "ipv4_transmit_queue (slots_state p us A k s) = ipv4_transmit_queue s"
  by (simp_all add: slots_state_def)

lemma slots_state_id:
  "us = tp_unacked (ports s ! p) \<Longrightarrow> slots_state p us {} (kern s) s = s"
  by (simp add: slots_state_def restrict_map_def)

lemma free_slots_state:
  assumes "\<And>a. d = Some a \<Longrightarrow> cells (heap s) a \<noteq> None \<and> a \<notin> A"
  shows "free d (slots_state p us A k s) = Inr (slots_state p us (A \<union> set_option d) k s)"
proof (cases d)
  case (Some a)
  have "(cells (heap s) |` (- A))(a := None) = cells (heap s) |` (- insert a A)"
    by (auto simp: restrict_map_def)
  with Some assms show ?thesis by (auto simp: free_def slots_state_def restrict_map_def)
qed simp

lemma set_unacked_slots_state:
  "p < length (ports s) \<Longrightarrow> set_unacked p i f (slots_state p us A k s) = slots_state p (us[i := f (us ! i)]) A k s"
  by (simp add: set_unacked_def set_port_def slots_state_def)

lemma map_take_step:
  assumes "k < length us"
  shows "(map f (take k us) @ drop k us)[k := f (us ! k)] = map f (take (Suc k) us) @ drop (Suc k) us"
    and "(map f (take k us) @ drop k us) ! k = us ! k"
  using assms by (simp_all add: list_update_append take_Suc_conv_app_nth nth_append
      flip: Cons_nth_drop_Suc)

section \<open>Reading a received segment\<close>

lemma switch_data:
  assumes "tp_state (ports s ! p) = ESTABLISHED" and "\<not> flag_FIN (th_control header)"
    and "0 < len - hl" and "tp_on_receive (ports s ! p) = Some f" and "cells (heap s) b = Some blk"
  shows "tcp_state_switch R app p header (Some b) len hl src s =
     app f (OnReceive (drop (unat hl) blk) (len - hl)) s"
  using assms by (simp add: tcp_state_switch_def Let_def heap_tail_def call_app_def)

lemma heap_read_header:
  assumes "cells (heap s) b = Some (tcp_header_bytes h @ payload)"
  shows "heap_read (Some b) 20 s = Inr (tcp_header_bytes h)"
  using assms by (simp add: heap_read_def)

lemma tcp_header_at_bytes:
  "unat (th_reserved h) < 16 \<Longrightarrow> unat (th_dOffset h) < 16 \<Longrightarrow> tcp_header_at (tcp_header_bytes h) = (h :: tcp_header)"
  using tcp_header_roundtrip[of h "[]"] by simp

context rtos_contract
begin

text \<open>The loop over the first \<open>k\<close> slots.\<close>

lemma ack_loop:
  assumes "p < length (ports s)" and "us = tp_unacked (ports s ! p)" and "k \<le> length us"
    and "slots_own us (cells (heap s))" and "tp_unacked_slots (ports s ! p) = Some h"
    and "kv_sems (view (kern s)) h = Some (mx, m)" and "m \<le> mx"
  shows "\<exists>k'. for_each (ack_unacked R p n) [0..<k] s =
       Inr (slots_state p (map (acked n) (take k us) @ drop k us) (blocks_of (hit n) (take k us)) k' s) \<and>
     view k' = kv_count h (min mx (m + length (filter (hit n) (take k us)))) (view (kern s))"
  using assms(3)
proof (induction k)
  case 0
  then show ?case
    using assms(2,6,7) by (intro exI[of _ "kern s"]) (simp add: slots_state_id min_absorb2 kv_count_same)
next
  case (Suc k)
  let ?us = "map (acked n) (take k us) @ drop k us" and ?A = "blocks_of (hit n) (take k us)"
  let ?c = "m + length (filter (hit n) (take k us))"
  from Suc obtain k1 where k1: "for_each (ack_unacked R p n) [0..<k] s = Inr (slots_state p ?us ?A k1 s)"
    and v1: "view k1 = kv_count h (min mx ?c) (view (kern s))" by auto
  have k: "k < length us" using Suc.prems by simp
  note step = map_take_step[OF k, of "acked n"]
  have tk: "take (Suc k) us = take k us @ [us ! k]" using k by (simp add: take_Suc_conv_app_nth)
  show ?case
  proof (cases "hit n (us ! k)")
    case False
    then have "ack_unacked R p n k (slots_state p ?us ?A k1 s) = Inr (slots_state p ?us ?A k1 s)"
      using assms(1) step(2) by (auto simp: ack_unacked_def hit_def Let_def)
    moreover have "acked n (us ! k) = us ! k" using False by (simp add: acked_def)
    then have "map (acked n) (take (Suc k) us) @ drop (Suc k) us = ?us"
      using step by (metis list_update_id)
    ultimately show ?thesis using k1 v1 False by (intro exI[of _ k1]) (simp add: for_each_append tk)
  next
    case True
    let ?s = "slots_state p (?us[k := (us ! k)\<lparr>ua_in_use := False\<rparr>]) ?A k1 s"
    have sem: "kv_sems (view (kern ?s)) h = Some (mx, min mx ?c)" using assms(6) v1 by (simp add: kv_count_at)
    from sem obtain k2 where k2: "sem_give R (Some h) ?s = Inr (?s\<lparr>kern := k2\<rparr>)"
      "view k2 = kv_count h (min mx (Suc (min mx ?c))) (view (kern ?s))"
      by (rule sem_give_ok) simp
    have kk: "?s\<lparr>kern := k2\<rparr> = slots_state p (?us[k := (us ! k)\<lparr>ua_in_use := False\<rparr>]) ?A k2 s"
      by (simp add: slots_state_def)
    have "free (ua_data (us ! k)) (slots_state p (?us[k := (us ! k)\<lparr>ua_in_use := False\<rparr>]) ?A k2 s) =
        Inr (slots_state p (?us[k := (us ! k)\<lparr>ua_in_use := False\<rparr>]) (?A \<union> set_option (ua_data (us ! k))) k2 s)"
      using owned_elsewhere[OF assms(4) k, where P = "hit n"] True
      by (intro free_slots_state) (auto simp: hit_def)
    then have "ack_unacked R p n k (slots_state p ?us ?A k1 s) =
        Inr (slots_state p (map (acked n) (take (Suc k) us) @ drop (Suc k) us)
          (blocks_of (hit n) (take (Suc k) us)) k2 s)"
      using True assms(1,5) step k2(1) kk k
      by (simp add: ack_unacked_def Let_def hit_def acked_def set_unacked_slots_state tk)
    moreover have "view k2 = kv_count h (min mx (m + length (filter (hit n) (take (Suc k) us)))) (view (kern s))"
      using k2(2) v1 True by (simp add: tk) (simp add: min_def)
    ultimately show ?thesis using k1 by (intro exI[of _ k2]) (simp add: for_each_append)
  qed
qed

end

section \<open>A reset\<close>

definition dropped :: "tcp_unacked \<Rightarrow> tcp_unacked" where
  "dropped u = (if ua_in_use u then u\<lparr>ua_data := None\<rparr> else u)"

lemma reset_loop:
  assumes "p < length (ports s)" and "us = tp_unacked (ports s ! p)" and "k \<le> length us"
    and "slots_own us (cells (heap s))"
  shows "for_each (reset_unacked p) [0..<k] s =
     Inr (slots_state p (map dropped (take k us) @ drop k us) (blocks_of ua_in_use (take k us)) (kern s) s)"
  using assms(3)
proof (induction k)
  case 0
  then show ?case using assms(2) by (simp add: slots_state_id)
next
  case (Suc k)
  let ?us = "map dropped (take k us) @ drop k us" and ?A = "blocks_of ua_in_use (take k us)"
  have k: "k < length us" using Suc.prems by simp
  note step = map_take_step[OF k, of dropped]
  have tk: "take (Suc k) us = take k us @ [us ! k]" using k by (simp add: take_Suc_conv_app_nth)
  have IH: "for_each (reset_unacked p) [0..<k] s = Inr (slots_state p ?us ?A (kern s) s)"
    using Suc by simp
  have "reset_unacked p k (slots_state p ?us ?A (kern s) s) =
      Inr (slots_state p (map dropped (take (Suc k) us) @ drop (Suc k) us)
        (blocks_of ua_in_use (take (Suc k) us)) (kern s) s)"
  proof (cases "ua_in_use (us ! k) \<and> ua_data (us ! k) \<noteq> None")
    case True
    then have "free (ua_data (us ! k)) (slots_state p ?us ?A (kern s) s) =
        Inr (slots_state p ?us (?A \<union> set_option (ua_data (us ! k))) (kern s) s)"
      using owned_elsewhere[OF assms(4) k, where P = ua_in_use]
      by (intro free_slots_state) auto
    then show ?thesis
      using True assms(1) step k
      by (simp add: reset_unacked_def Let_def set_unacked_slots_state tk dropped_def)
  next
    case False
    then have "dropped (us ! k) = us ! k" "ua_in_use (us ! k) \<Longrightarrow> set_option (ua_data (us ! k)) = {}"
      by (auto simp: dropped_def)
    moreover from this(1) have "map dropped (take (Suc k) us) @ drop (Suc k) us = ?us"
      using step by (metis list_update_id)
    ultimately show ?thesis
      using False assms(1) step(2) by (auto simp: reset_unacked_def Let_def tk)
  qed
  then show ?case by (simp add: for_each_append IH)
qed

context rtos_contract
begin

lemma give_loop:
  assumes "kv_sems (view (kern s)) h = Some (mx, m)" and "m \<le> mx"
  shows "\<exists>k'. for_each (\<lambda>i. sem_give R (Some h)) is s = Inr (s\<lparr>kern := k'\<rparr>) \<and>
     view k' = kv_count h (min mx (m + length is)) (view (kern s))"
  using assms
proof (induction "is" arbitrary: s m)
  case Nil
  then show ?case by (intro exI[of _ "kern s"]) (simp add: min_absorb2 kv_count_same)
next
  case (Cons i "is")
  from Cons.prems obtain k1 where k1: "sem_give R (Some h) s = Inr (s\<lparr>kern := k1\<rparr>)"
    "view k1 = kv_count h (min mx (Suc m)) (view (kern s))" by (rule sem_give_ok)
  have "kv_sems (view (kern (s\<lparr>kern := k1\<rparr>))) h = Some (mx, min mx (Suc m))"
    using Cons.prems(1) k1(2) by (simp add: kv_count_at)
  from Cons.IH[OF this] k1 show ?case by (auto simp: min_def split: if_splits)
qed

text \<open>A reset ends with the port free for reuse and everything it owned released.\<close>

lemma tcp_reset_port_eq:
  assumes "p < length (ports s)" and "us = tp_unacked (ports s ! p)" and "length us = MAX_UNACKED"
    and "slots_own us (cells (heap s))" and "tp_unacked_slots (ports s ! p) = Some h"
    and "kv_sems (view (kern s)) h = Some (mx, m)" and "m \<le> mx"
  shows "\<exists>k'. tcp_reset_port R p s = Inr (s\<lparr>kern := k', heap := (heap s)\<lparr>cells :=
       cells (heap s) |` (- blocks_of ua_in_use us)\<rparr>, ports := (ports s)[p := (ports s ! p)
         \<lparr>tp_state := CLOSED, tp_self_port_num := 0, tp_unacked := map dropped us\<rparr>]\<rparr>) \<and>
     view k' = (view (kern s))\<lparr>kv_sems := (kv_sems (view (kern s)))(h := None)\<rparr>"
proof -
  let ?s0 = "set_port p (\<lambda>port. port\<lparr>tp_state := CLOSED, tp_self_port_num := 0\<rparr>) s"
  let ?s1 = "slots_state p (map dropped us) (blocks_of ua_in_use us) (kern s) ?s0"
  have "for_each (reset_unacked p) [0..<8] ?s0 = Inr ?s1"
    using reset_loop[of p ?s0 us 8] assms(1-4) by simp
  moreover have slots: "tp_unacked_slots (ports ?s1 ! p) = Some h" using assms(1,5) by simp
  moreover have "sem_count R (Some h) ?s1 = Inr m" using assms(6) by (intro sem_count_ok) simp
  moreover obtain k2 where k2: "for_each (\<lambda>i. sem_give R (Some h)) [0..<unat (8 - of_nat m :: u8)] ?s1 =
      Inr (?s1\<lparr>kern := k2\<rparr>)" "\<exists>c. view k2 = kv_count h c (view (kern s))"
    using give_loop[of ?s1 h mx m "[0..<unat (8 - of_nat m :: u8)]"] assms(6,7) by auto
  moreover from k2(2) obtain c where c2: "view k2 = kv_count h c (view (kern s))" ..
  then have sem: "kv_sems (view (kern (?s1\<lparr>kern := k2\<rparr>))) h = Some (mx, c)"
    using kv_count_at[OF assms(6)] by simp
  obtain k3 where k3: "sem_delete R (Some h) (?s1\<lparr>kern := k2\<rparr>) = Inr (?s1\<lparr>kern := k3\<rparr>)"
    "view k3 = (view k2)\<lparr>kv_sems := (kv_sems (view k2))(h := None)\<rparr>"
    using sem_delete_ok[OF sem] by auto
  moreover have "view k3 = (view (kern s))\<lparr>kv_sems := (kv_sems (view (kern s)))(h := None)\<rparr>"
    using k3(2) k2(2) by (auto simp: kv_count_def)
  moreover have "?s1\<lparr>kern := k3\<rparr> = s\<lparr>kern := k3, heap := (heap s)\<lparr>cells :=
       cells (heap s) |` (- blocks_of ua_in_use us)\<rparr>, ports := (ports s)[p := (ports s ! p)
         \<lparr>tp_state := CLOSED, tp_self_port_num := 0, tp_unacked := map dropped us\<rparr>]\<rparr>"
    using assms(1) by (simp add: slots_state_def set_port_def)
  ultimately show ?thesis by (auto simp: tcp_reset_port_def Let_def)
qed

text \<open>What the acknowledgement number of a segment does before the segment itself is looked at.\<close>

lemma ack_phase:
  assumes "p < length (ports s)" and "us = tp_unacked (ports s ! p)" and "length us = MAX_UNACKED"
    and "slots_own us (cells (heap s))" and "tp_unacked_slots (ports s ! p) = Some h"
    and "kv_sems (view (kern s)) h = Some (mx, m)" and "m \<le> mx"
  shows "\<exists>k' us' A. (if n \<le> tp_seq_num (ports s ! p) then for_each (ack_unacked R p n) [0..<MAX_UNACKED] s
       else Inr s) = Inr (slots_state p us' A k' s) \<and> A \<subseteq> blocks_of ua_in_use us \<and> length us' = MAX_UNACKED \<and>
     kv_queues (view k') = kv_queues (view (kern s))"
proof (cases "n \<le> tp_seq_num (ports s ! p)")
  case True
  from ack_loop[OF assms(1,2) _ assms(4-7), of 8 n] assms(3)
  obtain k' where "for_each (ack_unacked R p n) [0..<8] s =
      Inr (slots_state p (map (acked n) us) (blocks_of (hit n) us) k' s)"
    "kv_queues (view k') = kv_queues (view (kern s))" by auto
  then show ?thesis
    using True assms(3)
    by (intro exI[of _ k'] exI[of _ "map (acked n) us"] exI[of _ "blocks_of (hit n) us"])
       (auto simp: blocks_of_def hit_def)
next
  case False
  then show ?thesis
    using assms(2,3)
    by (intro exI[of _ "kern s"] exI[of _ us] exI[of _ "{}"]) (simp add: slots_state_id)
qed

text \<open>A payload is acknowledged by queueing a bare ACK.\<close>

lemma tcp_acknowledge_eq:
  assumes "p < length (ports s)" and "queue_room (view (kern s)) (send_queue s)"
    and "tp_state (ports s ! p) \<noteq> LAST_ACK" and "tp_state (ports s ! p) \<noteq> LISTEN"
    and "inc = (len - hl) + (if flag_SYN (th_control header) \<or> flag_FIN (th_control header) then 1 else 0)"
    and "0 < inc"
  obtains k where "tcp_acknowledge R p header len hl src s = Inr ((set_port p (\<lambda>port. port\<lparr>tp_ack_num :=
      ntohl (th_seq_num header) + ucast inc\<rparr>) s)\<lparr>kern := k\<rparr>)"
    "view k = kv_push (send_queue s) (TcpTx (tcp_response src ACK (ports s ! p))) (view (kern s))"
proof -
  let ?s = "set_port p (\<lambda>port. port\<lparr>tp_ack_num := ntohl (th_seq_num header) + ucast inc\<rparr>) s"
  have "queue_room (view (kern ?s)) (send_queue ?s)" using assms(2) by simp
  then obtain k where "q_send R (send_queue ?s) (TcpTx (tcp_response src ACK (ports ?s ! p))) portMAX_DELAY ?s =
      Inr (True, ?s\<lparr>kern := k\<rparr>)"
    "view k = kv_push (send_queue ?s) (TcpTx (tcp_response src ACK (ports ?s ! p))) (view (kern ?s))"
    by (rule q_send_room[OF _ disjI2[OF refl]])
  moreover have "tcp_response src ACK (ports ?s ! p) = tcp_response src ACK (ports s ! p)"
    using assms(1) by (simp add: tcp_response_def)
  ultimately show thesis
    using assms(3-6) by (intro that[of k]) (simp_all add: tcp_acknowledge_def tcp_enqueue_def Let_def)
qed

lemma in_order_delivery:
  assumes blk: "cells (heap s) b = Some (tcp_header_bytes h @ payload)"
    and hdr: "th_dOffset h = 5" "unat (th_reserved h) < 16"
    and pl: "payload \<noteq> []" "length payload \<le> 65515"
    and fl: "flag_ACK (th_control h)" "\<not> flag_SYN (th_control h)" "\<not> flag_FIN (th_control h)"
      "\<not> flag_RST (th_control h)"
    and p: "find_port (ntohs (th_dst_port h)) (ntohs (th_src_port h)) src s = Some p"
    and port: "port = ports s ! p" "tp_state port = ESTABLISHED"
      "ntohl (th_seq_num h) = tp_ack_num port" "tp_on_receive port = Some f"
    and slots: "length (tp_unacked port) = MAX_UNACKED" "slots_own (tp_unacked port) (cells (heap s))"
      "b \<notin> blocks_of ua_in_use (tp_unacked port)"
    and sem: "tp_unacked_slots port = Some sem" "kv_sems (view (kern s)) sem = Some (mx, m)" "m \<le> mx"
    and room: "queue_room (view (kern s)) (send_queue s)"
  shows "\<exists>k us A. A \<subseteq> blocks_of ua_in_use (tp_unacked port) \<and> 
     input_tcp_internal R app (Some b) (20 + of_nat (length payload)) src s =
       app f (OnReceive payload (of_nat (length payload)))
         (s\<lparr>kern := k, heap := (heap s)\<lparr>cells := cells (heap s) |` (- A)\<rparr>,
           ports := (ports s)[p := port\<lparr>tp_unacked := us, tp_ack_num := tp_ack_num port + of_nat (length payload),
             tp_other_window := ntohs (th_window h)\<rparr>]\<rparr>) \<and>
     queue_items (view k) (send_queue s) = queue_items (view (kern s)) (send_queue s) @
       [TcpTx (tcp_response src ACK port)]"
proof -
  let ?len = "20 + of_nat (length payload) :: u16" and ?hl = "ucast (th_dOffset h) * 4 :: u16"
  have pl': "p < length (ports s)" using p by (auto simp: find_port_def dest: find_index_SomeD)
  have hl: "?hl = 20" using hdr by simp
  have inc: "?len - ?hl = of_nat (length payload)" using hl by simp
  have n: "unat (of_nat (length payload) :: u16) = length payload" using pl by (simp add: unat_of_nat)
  have pos: "0 < (of_nat (length payload) :: u16)" using n pl by (simp add: word_less_nat_alt)
  have up: "(ucast (of_nat (length payload) :: u16) :: u32) = of_nat (length payload)"
    using n by (metis of_nat_unat)
  from ack_phase[OF pl' refl, of sem mx m "ntohl (th_ack_num h)"] slots sem port(1)
  obtain k1 us A where ack: "(if ntohl (th_ack_num h) \<le> tp_seq_num (ports s ! p)
       then for_each (ack_unacked R p (ntohl (th_ack_num h))) [0..<MAX_UNACKED] s else Inr s) =
       Inr (slots_state p us A k1 s)" and A: "A \<subseteq> blocks_of ua_in_use (tp_unacked port)"
    and q1: "kv_queues (view k1) = kv_queues (view (kern s))" by auto
  let ?s1 = "slots_state p us A k1 s"
  have room1: "queue_room (view (kern ?s1)) (send_queue ?s1)"
    using room queue_room_cong[OF q1] by simp
  have resp: "tcp_response src ACK (ports ?s1 ! p) = tcp_response src ACK port"
    using pl' port(1) by (simp add: tcp_response_def)
  obtain k2 where k2: "tcp_acknowledge R p h ?len ?hl src ?s1 = Inr ((set_port p (\<lambda>port. port\<lparr>tp_ack_num :=
      ntohl (th_seq_num h) + ucast (of_nat (length payload) :: u16)\<rparr>) ?s1)\<lparr>kern := k2\<rparr>)"
    and v2: "view k2 = kv_push (send_queue ?s1) (TcpTx (tcp_response src ACK port)) (view (kern ?s1))"
    using tcp_acknowledge_eq[OF _ room1, of p "of_nat (length payload)" ?len ?hl h src] pl' port fl inc pos resp
    by auto
  let ?s2 = "set_port p (\<lambda>port. port\<lparr>tp_other_window := ntohs (th_window h)\<rparr>) ((set_port p (\<lambda>port.
      port\<lparr>tp_ack_num := ntohl (th_seq_num h) + ucast (of_nat (length payload) :: u16)\<rparr>) ?s1)\<lparr>kern := k2\<rparr>)"
  have live: "b \<notin> A" using A slots(3) by auto
  have "input_tcp_internal R app (Some b) ?len src s =
      tcp_accept_segment R app p h (Some b) ?len ?hl src ?s1"
    using ack p port fl hdr hl
    by (simp add: input_tcp_internal_header[OF heap_read_header[OF blk]] tcp_header_at_bytes Let_def)
  also have "\<dots> = tcp_state_switch R app p h (Some b) ?len ?hl src ?s2"
    by (simp add: tcp_accept_segment_def k2 Let_def)
  also have "\<dots> = app f (OnReceive payload (of_nat (length payload))) ?s2"
    using switch_data[of ?s2 p h ?len ?hl f b] pl' port fl inc pos hl live blk by simp
  also have "?s2 = s\<lparr>kern := k2, heap := (heap s)\<lparr>cells := cells (heap s) |` (- A)\<rparr>,
        ports := (ports s)[p := port\<lparr>tp_unacked := us, tp_ack_num := tp_ack_num port + of_nat (length payload),
          tp_other_window := ntohs (th_window h)\<rparr>]\<rparr>"
    using pl' port by (simp add: up set_port_def slots_state_def)
  finally show ?thesis
    using A v2 queue_items_push[OF room1] queue_items_cong[OF q1]
    by (intro exI[of _ k2] exI[of _ us] exI[of _ A]) simp
qed

end

section \<open>A received segment in the example\<close>

definition data_header :: "u32 \<Rightarrow> u8 \<Rightarrow> tcp_header" where
  "data_header seq c = \<lparr>th_src_port = htons 5000, th_dst_port = htons 80, th_seq_num = htonl seq,
     th_ack_num = htonl 7, th_reserved = 0, th_dOffset = 5, th_control = c, th_window = htons 4096,
     th_checksum = 0, th_urgent_ptr = 0\<rparr>"

lemma data_header_sel [simp]:
  "th_src_port (data_header seq c) = htons 5000" "th_dst_port (data_header seq c) = htons 80"
  "th_seq_num (data_header seq c) = htonl seq" "th_ack_num (data_header seq c) = htonl 7"
  "th_dOffset (data_header seq c) = 5" "th_control (data_header seq c) = c"
  "th_reserved (data_header seq c) = 0" "th_window (data_header seq c) = htons 4096"
  by (simp_all add: data_header_def)

lemma data_header_at [simp]: "tcp_header_at (tcp_header_bytes (data_header seq c)) = data_header seq c"
  by (rule tcp_header_at_bytes) simp_all

text \<open>A segment in block 1.\<close>

definition tcp2 :: "tcp_state \<Rightarrow> tcp_header \<Rightarrow> bytes \<Rightarrow> refk tcp_net" where
  "tcp2 st h payload = with_block 1 (tcp_header_bytes h @ payload) (tcp1 8 st)"

lemma tcp2_sel [simp]:
  "kern (tcp2 st h pl) = kern (tcp1 8 st)" "ports (tcp2 st h pl) = ports (tcp1 8 st)"
  "send_queue (tcp2 st h pl) = Some 3" "input_queue (tcp2 st h pl) = Some 4"
  "cells (heap (tcp2 st h pl)) = [0 \<mapsto> [10, 20, 30], 1 \<mapsto> tcp_header_bytes h @ pl]"
  by (simp_all add: tcp2_def)

lemma find_port_tcp2 [simp]: "find_port 80 5000 (IPv4 192 168 1 1) (tcp2 st h pl) = Some 0"
  by (simp add: tcp2_def)

lemma ntohs_htons [simp]: "ntohs (htons w) = w"
  by (simp add: htons_def)

lemma ntohl_htonl [simp]: "ntohl (htonl w) = w"
  by (simp add: htonl_def)

lemma port1_sel [simp]:
  "tp_state (port1 st) = st" "tp_seq_num (port1 st) = 7" "tp_ack_num (port1 st) = 9"
  "tp_on_receive (port1 st) = Some 1" "tp_on_connect (port1 st) = Some 2"
  "tp_on_disconnect (port1 st) = Some 3" "tp_entered_time_wait_at (port1 st) = 0" "tp_self_port_num (port1 st) = 80"
  "tp_other_port_num (port1 st) = 5000" "tp_other_ipv4_addr (port1 st) = IPv4 192 168 1 1"
  by (simp_all add: port1_def port_zero_def)

lemma port1_idle: "i < 8 \<Longrightarrow> \<not> ua_in_use (tp_unacked (port1 st) ! i)"
  by (simp add: port1_def port_zero_def unacked_zero_def)

lemma ack_loop_idle:
  assumes "\<forall>i<k. \<not> ua_in_use (tp_unacked (ports s ! p) ! i)"
  shows "for_each (ack_unacked R p n) [0..<k] s = Inr s"
  using assms by (induction k) (simp_all add: for_each_append ack_unacked_def)

lemma port1_slots [simp]:
  "length (tp_unacked (port1 st)) = 8" "slots_own (tp_unacked (port1 st)) c"
  "blocks_of ua_in_use (tp_unacked (port1 st)) = {}" "tp_unacked_slots (port1 st) = Some 6"
  by (auto simp: port1_def port_zero_def unacked_zero_def slots_own_def blocks_of_def)

text \<open>The example with one unacknowledged segment, sequence number 5, whose data is block 0.\<close>

definition used1 :: tcp_unacked where
  "used1 = \<lparr>ua_seq_num = 5, ua_in_use = True, ua_data = Some 0, ua_data_len = 2, ua_sent_at = 300,
     ua_control = 24\<rparr>"

definition tcp3 :: "tcp_state \<Rightarrow> refk tcp_net" where
  "tcp3 st = set_unacked 0 0 (\<lambda>_. used1) (tcp1 7 st)"

lemma tcp3_sel [simp]:
  "kern (tcp3 st) = kern (tcp1 7 st)" "heap (tcp3 st) = heap (tcp1 7 st)"
  "ports (tcp3 st) = (port1 st)\<lparr>tp_unacked := used1 # replicate 7 unacked_zero\<rparr> # replicate 7 port_zero"
  "self_net (tcp3 st) = self_net (tcp1 7 st)" "ipv4_transmit_queue (tcp3 st) = Some 2"
  by (simp_all add: tcp3_def set_unacked_def) (simp add: port1_def port_zero_def eval_nat_numeral)

lemma used1_sel [simp]:
  "ua_in_use used1" "ua_data used1 = Some 0" "ua_seq_num used1 = 5" "\<not> ua_in_use unacked_zero"
  "ua_data_len used1 = 2" "ua_sent_at used1 = 300" "ua_control used1 = 24"
  by (simp_all add: used1_def unacked_zero_def)

lemma used1_slots [simp]:
  "slots_own (used1 # replicate 7 unacked_zero) [0 \<mapsto> [10, 20, 30]]"
  by (auto simp: slots_own_def used1_def unacked_zero_def nth_Cons' split: if_splits)

lemma tcp3_hyps:
  "0 < length (ports (tcp3 st))" "used1 # replicate 7 unacked_zero = tp_unacked (ports (tcp3 st) ! 0)"
  "length (used1 # replicate 7 unacked_zero) = 8"
  "slots_own (used1 # replicate 7 unacked_zero) (cells (heap (tcp3 st)))"
  "tp_unacked_slots (ports (tcp3 st) ! 0) = Some 6"
  "kv_sems (kview.truncate (kern (tcp3 st))) 6 = Some (8, 7)"
  by (simp_all add: kview.truncate_def)

section \<open>Properties\<close>

text \<open>
  C2: The handler of a received segment refines the abstract connection state machine: whatever the
  segment, at most one port changes, and the state of that port makes a move that \<open>tcp_trans\<close> allows for
  the control bits of the segment (provided the applications do not write to the port table).
\<close>

theorem tcp_input_refines_state_machine:
  assumes "app_keeps_ports app" and "heap_read buffer 20 s = Inr raw"
    and "input_tcp_internal R app buffer len src s = Inr s'"
  shows "\<exists>p. length (ports s') = length (ports s) \<and> (\<forall>q. q \<noteq> p \<longrightarrow> ports s' ! q = ports s ! q) \<and>
     tcp_trans (th_control (tcp_header_at raw)) (tp_state (ports s ! p)) (tp_state (ports s' ! p))"
  using input_tcp_internal_moves[OF assms] by (simp add: moves_def)

text \<open>
  C4: In-order data is delivered and acknowledged: a data segment for an established connection that
  starts at the expected sequence number makes the handler queue one ACK, advance the expected
  sequence number by the length of the payload and pass exactly the payload to the application. Only
  blocks of acknowledged segments are released.
\<close>

theorem tcp_in_order_delivery:
  assumes "rtos_contract R view"
    and "cells (heap s) b = Some (tcp_header_bytes h @ payload)" and "th_dOffset h = 5"
    and "unat (th_reserved h) < 16" and "payload \<noteq> []" and "length payload \<le> 65515"
    and "flag_ACK (th_control h)" and "\<not> flag_SYN (th_control h)" and "\<not> flag_FIN (th_control h)"
    and "\<not> flag_RST (th_control h)"
    and "find_port (ntohs (th_dst_port h)) (ntohs (th_src_port h)) src s = Some p"
    and "port = ports s ! p" and "tp_state port = ESTABLISHED"
    and "ntohl (th_seq_num h) = tp_ack_num port" and "tp_on_receive port = Some f"
    and "length (tp_unacked port) = MAX_UNACKED" and "slots_own (tp_unacked port) (cells (heap s))"
    and "b \<notin> blocks_of ua_in_use (tp_unacked port)"
    and "tp_unacked_slots port = Some sem" and "kv_sems (view (kern s)) sem = Some (mx, m)" and "m \<le> mx"
    and "queue_room (view (kern s)) (send_queue s)"
  shows "\<exists>s1. input_tcp_internal R app (Some b) (20 + of_nat (length payload)) src s =
       app f (OnReceive payload (of_nat (length payload))) s1 \<and>
     tp_ack_num (ports s1 ! p) = tp_ack_num port + of_nat (length payload) \<and>
     tp_state (ports s1 ! p) = ESTABLISHED \<and> (\<forall>q. q \<noteq> p \<longrightarrow> ports s1 ! q = ports s ! q) \<and>
     queue_items (view (kern s1)) (send_queue s) = queue_items (view (kern s)) (send_queue s) @
       [TcpTx (tcp_response src ACK port)] \<and>
     (\<forall>a. a \<notin> blocks_of ua_in_use (tp_unacked port) \<longrightarrow> cells (heap s1) a = cells (heap s) a)"
proof -
  have p: "p < length (ports s)" using assms(11) by (auto simp: find_port_def dest: find_index_SomeD)
  from rtos_contract.in_order_delivery[OF assms(1-22), of app]
  obtain k us A where A: "A \<subseteq> blocks_of ua_in_use (tp_unacked port)" and run:
    "input_tcp_internal R app (Some b) (20 + of_nat (length payload)) src s =
       app f (OnReceive payload (of_nat (length payload)))
         (s\<lparr>kern := k, heap := (heap s)\<lparr>cells := cells (heap s) |` (- A)\<rparr>,
           ports := (ports s)[p := port\<lparr>tp_unacked := us, tp_ack_num := tp_ack_num port + of_nat (length payload),
             tp_other_window := ntohs (th_window h)\<rparr>]\<rparr>)"
    and q: "queue_items (view k) (send_queue s) = queue_items (view (kern s)) (send_queue s) @
       [TcpTx (tcp_response src ACK port)]" by blast
  let ?s1 = "s\<lparr>kern := k, heap := (heap s)\<lparr>cells := cells (heap s) |` (- A)\<rparr>,
    ports := (ports s)[p := port\<lparr>tp_unacked := us, tp_ack_num := tp_ack_num port + of_nat (length payload),
      tp_other_window := ntohs (th_window h)\<rparr>]\<rparr>"
  show ?thesis using run p q A assms(13) by (intro exI[of _ ?s1]) (auto simp: restrict_map_def)
qed

theorem tcp_in_order_delivery_witness:
  "\<exists>s1. input_tcp_internal ref_rtos (\<lambda>f c s. Inr s) (Some 1) 23 (IPv4 192 168 1 1)
       (tcp2 ESTABLISHED (data_header 9 24) [97, 98, 99]) = Inr s1 \<and> tp_ack_num (ports s1 ! 0) = 12"
  using tcp_in_order_delivery[OF refk.rtos_contract_axioms,
      of "tcp2 ESTABLISHED (data_header 9 24) [97, 98, 99]" 1 "data_header 9 24" "[97, 98, 99]"
        "IPv4 192 168 1 1" 0 "port1 ESTABLISHED" 1 6 8 8 "\<lambda>f c s. Inr s"]
  by (auto simp: queue_room_def kview.truncate_def)

theorem tcp_input_refines_state_machine_witness:
  "\<exists>s1 p. input_tcp_internal ref_rtos (\<lambda>f c s. Inr s) (Some 1) 20 (IPv4 192 168 1 1)
       (tcp2 FIN_WAIT_1 (data_header 9 16) []) = Inr s1 \<and> tp_state (ports s1 ! 0) = FIN_WAIT_2 \<and>
     tcp_trans 16 (tp_state (ports (tcp2 FIN_WAIT_1 (data_header 9 16) []) ! p)) (tp_state (ports s1 ! p))"
proof -
  let ?s = "tcp2 FIN_WAIT_1 (data_header 9 16) []"
  have rd: "heap_read (Some 1) 20 ?s = Inr (tcp_header_bytes (data_header 9 16))"
    by (rule heap_read_header[where payload = "[]"]) simp
  have idle: "for_each (ack_unacked ref_rtos 0 7) [0..<8] ?s = Inr ?s"
    by (rule ack_loop_idle) (simp add: port1_idle)
  obtain s1 where s1: "input_tcp_internal ref_rtos (\<lambda>f c s. Inr s) (Some 1) 20 (IPv4 192 168 1 1) ?s = Inr s1"
    "tp_state (ports s1 ! 0) = FIN_WAIT_2"
    by (simp add: input_tcp_internal_header[OF rd] Let_def idle tcp_accept_segment_def
        tcp_acknowledge_def tcp_state_switch_def del: One_nat_def)
  have "app_keeps_ports (\<lambda>f c s. Inr s)" by (simp add: app_keeps_ports_def)
  from tcp_input_refines_state_machine[OF this rd s1(1)] s1 show ?thesis by auto
qed

text \<open>
  C12: An acknowledgement number releases exactly the slots it covers: the loop over the slots does not
  fault, frees the data of each segment in use that starts at or before the number and nothing else,
  marks those slots free, leaves the other slots and ports as they are, and gives the semaphore once
  per released slot.
\<close>

theorem tcp_ack_releases:
  assumes "rtos_contract R view" and "p < length (ports s)" and "us = tp_unacked (ports s ! p)"
    and "length us = MAX_UNACKED" and "slots_own us (cells (heap s))"
    and "tp_unacked_slots (ports s ! p) = Some sem" and "kv_sems (view (kern s)) sem = Some (mx, m)"
    and "m + length (filter ua_in_use us) \<le> mx"
  shows "\<exists>s'. for_each (ack_unacked R p n) [0..<MAX_UNACKED] s = Inr s' \<and>
     (\<forall>i<MAX_UNACKED. tp_unacked (ports s' ! p) ! i =
        (if ua_in_use (us ! i) \<and> ua_seq_num (us ! i) \<le> n
         then (us ! i)\<lparr>ua_in_use := False, ua_data := None\<rparr> else us ! i)) \<and>
     (\<forall>q. q \<noteq> p \<longrightarrow> ports s' ! q = ports s ! q) \<and>
     (\<forall>a. cells (heap s') a =
        (if \<exists>u\<in>set us. ua_in_use u \<and> ua_seq_num u \<le> n \<and> ua_data u = Some a then None
         else cells (heap s) a)) \<and>
     kv_sems (view (kern s')) sem =
       Some (mx, m + length (filter (\<lambda>u. ua_in_use u \<and> ua_seq_num u \<le> n) us))"
proof -
  have m: "m \<le> mx" using assms(8) by simp
  from rtos_contract.ack_loop[OF assms(1-3) _ assms(5-7) m, of 8 n] assms(4)
  obtain k' where run: "for_each (ack_unacked R p n) [0..<8] s =
      Inr (slots_state p (map (acked n) us) (blocks_of (hit n) us) k' s)"
    and v: "view k' = kv_count sem (min mx (m + length (filter (hit n) us))) (view (kern s))" by auto
  have "length (filter (hit n) us) \<le> length (filter ua_in_use us)"
    by (induction us) (auto simp: hit_def)
  then have "kv_sems (view k') sem = Some (mx, m + length (filter (hit n) us))"
    using assms(8) v kv_count_at[OF assms(7)] by (simp add: min_absorb2)
  then show ?thesis
    using run assms(2,4)
    by (auto simp: acked_def hit_def[abs_def] blocks_of_def restrict_map_def)
qed

theorem tcp_ack_releases_witness:
  "\<exists>s'. for_each (ack_unacked ref_rtos 0 7) [0..<8] (tcp3 ESTABLISHED) = Inr s' \<and>
     cells (heap s') 0 = None \<and> kv_sems (kern s') 6 = Some (8, 8)"
proof -
  have "7 + length (filter ua_in_use (used1 # replicate 7 unacked_zero)) \<le> 8" by simp
  from tcp_ack_releases[OF refk.rtos_contract_axioms tcp3_hyps this, of 7 ESTABLISHED]
  obtain s' where s': "for_each (ack_unacked ref_rtos 0 7) [0..<8] (tcp3 ESTABLISHED) = Inr s'"
    and c: "\<forall>a. cells (heap s') a =
        (if \<exists>u\<in>set (used1 # replicate 7 unacked_zero). ua_in_use u \<and> ua_seq_num u \<le> 7 \<and> ua_data u = Some a
         then None else cells (heap (tcp3 ESTABLISHED)) a)"
    and k: "kv_sems (kview.truncate (kern s')) 6 = Some (8, 7 + length (filter
        (\<lambda>u. ua_in_use u \<and> ua_seq_num u \<le> 7) (used1 # replicate 7 unacked_zero)))" by blast
  have "cells (heap s') 0 = None" unfolding c[rule_format] by simp
  moreover have "kv_sems (kern s') 6 = Some (8, 8)" using k by (simp add: kview.truncate_def)
  ultimately show ?thesis using s' by blast
qed

text \<open>
  C9: A reset returns everything: \<^verbatim>\<open>tcp_reset_port\<close> does not fault, ends with the port closed and its
  number zero, so that it can be allocated again, with the data of every slot in use freed (and no
  other block), the semaphore deleted, and every other port untouched.
\<close>

theorem tcp_reset_releases:
  assumes "rtos_contract R view" and "p < length (ports s)" and "us = tp_unacked (ports s ! p)"
    and "length us = MAX_UNACKED" and "slots_own us (cells (heap s))"
    and "tp_unacked_slots (ports s ! p) = Some sem" and "kv_sems (view (kern s)) sem = Some (mx, m)"
    and "m \<le> mx"
  shows "\<exists>s'. tcp_reset_port R p s = Inr s' \<and>
     tp_state (ports s' ! p) = CLOSED \<and> tp_self_port_num (ports s' ! p) = 0 \<and>
     (\<forall>u\<in>set (tp_unacked (ports s' ! p)). ua_in_use u \<longrightarrow> ua_data u = None) \<and>
     (\<forall>q. q \<noteq> p \<longrightarrow> ports s' ! q = ports s ! q) \<and>
     (\<forall>a. cells (heap s') a =
        (if \<exists>u\<in>set us. ua_in_use u \<and> ua_data u = Some a then None else cells (heap s) a)) \<and>
     kv_sems (view (kern s')) = (kv_sems (view (kern s)))(sem := None) \<and>
     kv_queues (view (kern s')) = kv_queues (view (kern s))"
  using rtos_contract.tcp_reset_port_eq[OF assms] assms(2)
  by (auto simp: blocks_of_def restrict_map_def dropped_def split: if_splits)

theorem tcp_reset_releases_witness:
  "\<exists>s'. tcp_reset_port ref_rtos 0 (tcp3 LAST_ACK) = Inr s' \<and> cells (heap s') 0 = None \<and>
     tp_self_port_num (ports s' ! 0) = 0"
proof -
  from tcp_reset_releases[OF refk.rtos_contract_axioms tcp3_hyps, of LAST_ACK]
  obtain s' where s': "tcp_reset_port ref_rtos 0 (tcp3 LAST_ACK) = Inr s'" "tp_self_port_num (ports s' ! 0) = 0"
    and c: "\<forall>a. cells (heap s') a =
        (if \<exists>u\<in>set (used1 # replicate 7 unacked_zero). ua_in_use u \<and> ua_data u = Some a
         then None else cells (heap (tcp3 LAST_ACK)) a)" by auto
  have "cells (heap s') 0 = None" unfolding c[rule_format] by simp
  with s' show ?thesis by blast
qed

end
