(* ===== verification/Tcp_Connection.thy ===== *)
theory Tcp_Connection
  imports Tcp_Slots
begin

text \<open>
  Opening and closing connections, and retransmission: the commands of the port interface, the
  handshake, and the scan for timeouts.
\<close>

section \<open>Reliable sending\<close>

context rtos_contract
begin

lemma tcp_enqueue_reliable_ok:
  assumes "find_port (ttx_src_port params) (ttx_dst_port params) (ttx_dst_ipv4_addr params) s = Some p"
    and "tp_unacked_slots (ports s ! p) = Some h" and "kv_sems (view (kern s)) h = Some (mx, Suc n)"
    and "tp_state (ports s ! p) \<noteq> CLOSED" and "queue_room (view (kern s)) (send_queue s)"
    and "t = 0 \<or> t = portMAX_DELAY"
  obtains k where "tcp_enqueue_reliable R Inr params t s = Inr (ESP_OK, s\<lparr>kern := k\<rparr>)"
    "view k = kv_push (send_queue s) (TcpTx params) (kv_count h n (view (kern s)))"
proof -
  obtain k1 where k1: "sem_take R (Some h) t s = Inr (True, s\<lparr>kern := k1\<rparr>)"
    "view k1 = kv_count h n (view (kern s))"
    using assms(3,6) by (rule sem_take_ok)
  have "queue_room (view (kern (s\<lparr>kern := k1\<rparr>))) (send_queue s)"
    using assms(5) queue_room_cong[of "view k1" "view (kern s)"] k1(2) by simp
  then obtain k2 where "q_send R (send_queue s) (TcpTx params) 0 (s\<lparr>kern := k1\<rparr>) =
      Inr (True, s\<lparr>kern := k1\<rparr>\<lparr>kern := k2\<rparr>)"
    "view k2 = kv_push (send_queue s) (TcpTx params) (view (kern (s\<lparr>kern := k1\<rparr>)))"
    by (rule q_send_room[OF _ disjI1[OF refl]])
  then show thesis
    using k1 assms(1,2,4) by (intro that[of k2]) (simp_all add: tcp_enqueue_reliable_def)
qed

end

section \<open>The passive open\<close>

text \<open>A new peer on a listening port is found by its own port.\<close>

lemma find_port_after_open:
  assumes "find_port x y ip s = None" and "p < length (ports s)"
    and "tp_self_port_num q = x" and "tp_other_port_num q = y" and "tp_other_ipv4_addr q = ip"
    and "ports t = (ports s)[p := q]"
  shows "find_port x y ip t = Some p"
  unfolding find_port_def find_index_Some assms(6)
proof (intro conjI allI impI)
  show "p < length ((ports s)[p := q])" using assms(2) by simp
next
  fix j
  assume "j < p"
  then show "\<not> \<not> (tp_self_port_num ((ports s)[p := q] ! j) \<noteq> x \<or> tp_other_port_num ((ports s)[p := q] ! j) \<noteq> y \<or>
      tp_other_ipv4_addr ((ports s)[p := q] ! j) \<noteq> ip)"
    using assms(1,2) unfolding find_port_def find_index_None by (auto simp: nth_list_update)
qed (use assms(2-5) in simp)

lemma find_listening_portD:
  assumes "find_listening_port x s = Some p"
  shows "p < length (ports s)" and "tp_self_port_num (ports s ! p) = x" and "tp_state (ports s ! p) = LISTEN"
  using assms by (auto simp: find_listening_port_def find_index_Some)

lemma tcp_acknowledge_listen:
  "tp_state (ports s ! p) = LISTEN \<Longrightarrow> tcp_acknowledge R p h len hl src s = Inr s"
  by (simp add: tcp_acknowledge_def Let_def)

context rtos_contract
begin

lemma passive_open:
  assumes blk: "cells (heap s) b = Some (tcp_header_bytes h @ rest)"
    and hdr: "th_dOffset h = 5" "unat (th_reserved h) < 16"
    and fl: "flag_SYN (th_control h)" "\<not> flag_ACK (th_control h)" "\<not> flag_RST (th_control h)"
    and p: "find_port (ntohs (th_dst_port h)) (ntohs (th_src_port h)) src s = None"
      "find_listening_port (ntohs (th_dst_port h)) s = Some p"
    and sem: "tp_unacked_slots (ports s ! p) = Some sem" "kv_sems (view (kern s)) sem = Some (mx, Suc n)"
    and room: "queue_room (view (kern s)) (send_queue s)"
  shows "\<exists>k. input_tcp_internal R app (Some b) len src s =
      Inr (s\<lparr>kern := k, ports := (ports s)[p := (ports s ! p)\<lparr>tp_other_window := ntohs (th_window h),
        tp_state := SYN_RECEIVED, tp_other_ipv4_addr := src, tp_other_port_num := ntohs (th_src_port h),
        tp_ack_num := ntohl (th_seq_num h) + 1\<rparr>]\<rparr>) \<and>
     view k = kv_push (send_queue s) (TcpTx \<lparr>ttx_dst_ipv4_addr = src, ttx_src_port = ntohs (th_dst_port h),
        ttx_dst_port = ntohs (th_src_port h), ttx_seq_num = tp_seq_num (ports s ! p), ttx_control = SYN + ACK,
        ttx_isRetransmission = False, ttx_data = None, ttx_data_len = 0\<rparr>) (kv_count sem n (view (kern s)))"
proof -
  note l = find_listening_portD[OF p(2)]
  let ?s1 = "set_port p (\<lambda>port. port\<lparr>tp_other_window := ntohs (th_window h)\<rparr>) s"
  let ?s2 = "set_port p (\<lambda>port. port\<lparr>tp_state := SYN_RECEIVED, tp_other_ipv4_addr := src,
      tp_other_port_num := ntohs (th_src_port h), tp_ack_num := ntohl (th_seq_num h) + 1\<rparr>) ?s1"
  let ?resp = "tcp_response src (SYN + ACK) (ports ?s2 ! p)"
  have "find_port (ntohs (th_dst_port h)) (ntohs (th_src_port h)) src ?s2 = Some p"
    using p(1) l by (intro find_port_after_open[where p = p]) auto
  then have fp: "find_port (ttx_src_port ?resp) (ttx_dst_port ?resp) (ttx_dst_ipv4_addr ?resp) ?s2 = Some p"
    using l by (simp add: tcp_response_def)
  obtain k where k: "tcp_enqueue_reliable R Inr ?resp portMAX_DELAY ?s2 = Inr (ESP_OK, ?s2\<lparr>kern := k\<rparr>)"
    "view k = kv_push (send_queue ?s2) (TcpTx ?resp) (kv_count sem n (view (kern ?s2)))"
    by (rule tcp_enqueue_reliable_ok[OF fp _ _ _ _ disjI2[OF refl], of sem mx n]) (use l sem room in simp_all)
  have "input_tcp_internal R app (Some b) len src s =
      tcp_accept_segment R app p h (Some b) len (ucast (th_dOffset h) * 4) src s"
    using hdr fl p l by (simp add: input_tcp_internal_header[OF heap_read_header[OF blk]] tcp_header_at_bytes Let_def)
  also have "\<dots> = Inr (?s2\<lparr>kern := k\<rparr>)"
    using l fl k(1) by (simp add: tcp_accept_segment_def tcp_acknowledge_listen tcp_state_switch_def Let_def)
  also have "?s2\<lparr>kern := k\<rparr> = s\<lparr>kern := k, ports := (ports s)[p := (ports s ! p)
      \<lparr>tp_other_window := ntohs (th_window h), tp_state := SYN_RECEIVED, tp_other_ipv4_addr := src,
        tp_other_port_num := ntohs (th_src_port h), tp_ack_num := ntohl (th_seq_num h) + 1\<rparr>]\<rparr>"
    using l(1) by (simp add: set_port_def)
  finally show ?thesis using k(2) l by (intro exI[of _ k]) (simp add: tcp_response_def)
qed

text \<open>The last step of the handshake.\<close>

lemma handshake_done:
  assumes blk: "cells (heap s) b = Some (tcp_header_bytes h)"
    and hdr: "th_dOffset h = 5" "unat (th_reserved h) < 16"
    and fl: "flag_ACK (th_control h)" "\<not> flag_SYN (th_control h)" "\<not> flag_FIN (th_control h)"
      "\<not> flag_RST (th_control h)"
    and p: "find_port (ntohs (th_dst_port h)) (ntohs (th_src_port h)) src s = Some p"
    and port: "port = ports s ! p" "tp_state port = SYN_RECEIVED" "tp_on_connect port = Some f"
      "ntohl (th_seq_num h) = tp_ack_num port" "ntohl (th_ack_num h) = tp_seq_num port"
    and slots: "length (tp_unacked port) = MAX_UNACKED" "slots_own (tp_unacked port) (cells (heap s))"
    and sem: "tp_unacked_slots port = Some sem" "kv_sems (view (kern s)) sem = Some (mx, m)" "m \<le> mx"
  shows "\<exists>k A us. input_tcp_internal R app (Some b) 20 src s =
      app f (OnConnect (tp_other_port_num port) (tp_other_ipv4_addr port))
        (s\<lparr>kern := k, heap := (heap s)\<lparr>cells := cells (heap s) |` (- A)\<rparr>,
          ports := (ports s)[p := port\<lparr>tp_unacked := us, tp_other_window := ntohs (th_window h),
            tp_state := ESTABLISHED\<rparr>]\<rparr>) \<and>
     A \<subseteq> blocks_of ua_in_use (tp_unacked port) \<and> kv_queues (view k) = kv_queues (view (kern s))"
proof -
  have pl: "p < length (ports s)" using p by (auto simp: find_port_def dest: find_index_SomeD)
  from ack_phase[OF pl refl, of sem mx m "ntohl (th_ack_num h)"] slots sem port(1)
  obtain k us A where ack: "(if ntohl (th_ack_num h) \<le> tp_seq_num (ports s ! p)
       then for_each (ack_unacked R p (ntohl (th_ack_num h))) [0..<MAX_UNACKED] s else Inr s) =
       Inr (slots_state p us A k s)" and A: "A \<subseteq> blocks_of ua_in_use (tp_unacked port)"
    and q: "kv_queues (view k) = kv_queues (view (kern s))" by auto
  let ?s1 = "slots_state p us A k s"
  have st: "tp_state (ports ?s1 ! p) = SYN_RECEIVED" "tp_seq_num (ports ?s1 ! p) = tp_seq_num port"
    "tp_on_connect (ports ?s1 ! p) = Some f" using pl port by simp_all
  have hl: "ucast (th_dOffset h) * 4 = (20 :: u16)" using hdr by simp
  have idle: "tcp_acknowledge R p h 20 20 src ?s1 = Inr ?s1" using fl by (simp add: tcp_acknowledge_def)
  have "input_tcp_internal R app (Some b) 20 src s = tcp_accept_segment R app p h (Some b) 20 20 src ?s1"
    using blk hdr fl p port ack hl
    by (simp add: input_tcp_internal_header[OF heap_read_header[of s b h "[]"]] tcp_header_at_bytes Let_def)
  also have "\<dots> = app f (OnConnect (tp_other_port_num port) (tp_other_ipv4_addr port))
      (set_port p (\<lambda>port. port\<lparr>tp_state := ESTABLISHED\<rparr>)
        (set_port p (\<lambda>port. port\<lparr>tp_other_window := ntohs (th_window h)\<rparr>) ?s1))"
    using pl st port fl by (simp add: tcp_accept_segment_def idle tcp_state_switch_def Let_def call_app_def)
  finally show ?thesis
    using A q pl port(1)
    by (intro exI[of _ k] exI[of _ A] exI[of _ us]) (simp add: set_port_def slots_state_def)
qed

end

section \<open>Retransmission\<close>

lemma find_port_set_unacked [simp]: "find_port x y ip (set_unacked p i f s) = find_port x y ip s"
  unfolding find_port_def
proof (rule find_index_cong)
  fix j
  assume "j < length (ports (set_unacked p i f s))"
  then show "(\<not> (tp_self_port_num (ports (set_unacked p i f s) ! j) \<noteq> x \<or>
      tp_other_port_num (ports (set_unacked p i f s) ! j) \<noteq> y \<or>
      tp_other_ipv4_addr (ports (set_unacked p i f s) ! j) \<noteq> ip)) =
    (\<not> (tp_self_port_num (ports s ! j) \<noteq> x \<or> tp_other_port_num (ports s ! j) \<noteq> y \<or>
      tp_other_ipv4_addr (ports s ! j) \<noteq> ip))"
    by (cases "j = p") (simp_all add: set_unacked_def)
qed (simp add: set_unacked_def)

lemma ports_set_unacked:
  "p < length (ports s) \<Longrightarrow> ports (set_unacked p i f s) =
     (ports s)[p := (ports s ! p)\<lparr>tp_unacked := (tp_unacked (ports s ! p))[i := f (tp_unacked (ports s ! p) ! i)]\<rparr>]"
  by (simp add: set_unacked_def)

lemma heap_ok_set_unacked [simp]: "heap_ok (set_unacked p i f s) = heap_ok s"
  by (simp add: heap_ok_def)

lemma heap_read_set_unacked [simp]: "heap_read d n (set_unacked p i f s) = heap_read d n s"
  by (cases d) (simp_all add: heap_read_def)

text \<open>The parameters with which a slot is sent again.\<close>

definition resend_params :: "tcp_port \<Rightarrow> tcp_unacked \<Rightarrow> tcp_transmit_params" where
  "resend_params port u =
     \<lparr>ttx_dst_ipv4_addr = tp_other_ipv4_addr port, ttx_src_port = tp_self_port_num port,
      ttx_dst_port = tp_other_port_num port, ttx_seq_num = ua_seq_num u, ttx_control = ua_control u,
      ttx_isRetransmission = True, ttx_data = ua_data u, ttx_data_len = ua_data_len u\<rparr>"

lemma resend_segment:
  assumes "heap_ok s" and "\<not> oom (heap s) (brk (heap s))" and "p < length (ports s)"
    and "port = ports s ! p" and "u = tp_unacked port ! i"
    and "find_port (tp_self_port_num port) (tp_other_port_num port) (tp_other_ipv4_addr port) s = Some p"
    and "unat (ua_data_len u) \<le> 65503" and "heap_read (ua_data u) (unat (ua_data_len u)) s = Inr data"
    and "s1 = set_unacked p i (\<lambda>u. u\<lparr>ua_sent_at := now\<rparr>) s"
  shows "\<exists>blk h. tcp_send_internal R (resend_params port u) s1 =
       send_ipv4_packet R (ip_params_of (resend_params port u) s) (with_block (brk (heap s)) blk s1) \<and>
     take (20 + length data) blk = tcp_header_bytes h @ data \<and>
     th_seq_num h = htonl (ua_seq_num u) \<and> th_control h = ua_control u"
proof -
  let ?ps = "resend_params port u"
  let ?blk = "sent_block (nc_ip (self_net s)) ?ps (ports s1 ! p) (ua_seq_num u) data"
  have "tcp_send_internal R ?ps s1 = send_ipv4_packet R (ip_params_of ?ps s1) (with_block (brk (heap s1)) ?blk s1)"
    using tcp_send_internal_eq[of s1 ?ps p data R] assms by (auto simp: resend_params_def)
  moreover have "take (20 + length data) ?blk =
      tcp_segment (nc_ip (self_net s)) (tp_other_ipv4_addr port) (segment_header ?ps (ports s1 ! p) (ua_seq_num u)) data"
    by (simp add: take_sent_block) (simp add: resend_params_def)
  ultimately show ?thesis
    by (intro exI[of _ ?blk]) (auto simp: tcp_segment_def segment_header_def resend_params_def ip_params_of_def assms(9))
qed

section \<open>Properties\<close>

text \<open>
  C13: A SYN opens a connection: a SYN for a listening port from a new peer makes the handler record
  the peer, expect the sequence number after the SYN, enter SYN\_RECEIVED and queue exactly one SYN+ACK
  to the peer, paying for it with one slot of the semaphore; nothing else changes and nothing blocks.
\<close>

theorem tcp_passive_open:
  assumes "rtos_contract R view" and "cells (heap s) b = Some (tcp_header_bytes h @ rest)"
    and "th_dOffset h = 5" and "unat (th_reserved h) < 16"
    and "flag_SYN (th_control h)" and "\<not> flag_ACK (th_control h)" and "\<not> flag_RST (th_control h)"
    and "find_port (ntohs (th_dst_port h)) (ntohs (th_src_port h)) src s = None"
    and "find_listening_port (ntohs (th_dst_port h)) s = Some p"
    and "tp_unacked_slots (ports s ! p) = Some sem" and "kv_sems (view (kern s)) sem = Some (mx, Suc n)"
    and "queue_room (view (kern s)) (send_queue s)"
  shows "\<exists>s'. input_tcp_internal R app (Some b) len src s = Inr s' \<and> heap s' = heap s \<and>
     ports s' = (ports s)[p := (ports s ! p)\<lparr>tp_other_window := ntohs (th_window h),
        tp_state := SYN_RECEIVED, tp_other_ipv4_addr := src, tp_other_port_num := ntohs (th_src_port h),
        tp_ack_num := ntohl (th_seq_num h) + 1\<rparr>] \<and>
     queue_items (view (kern s')) (send_queue s) = queue_items (view (kern s)) (send_queue s) @
       [TcpTx \<lparr>ttx_dst_ipv4_addr = src, ttx_src_port = ntohs (th_dst_port h),
          ttx_dst_port = ntohs (th_src_port h), ttx_seq_num = tp_seq_num (ports s ! p),
          ttx_control = SYN + ACK, ttx_isRetransmission = False, ttx_data = None, ttx_data_len = 0\<rparr>] \<and>
     kv_sems (view (kern s')) sem = Some (mx, n)"
proof -
  from rtos_contract.passive_open[OF assms, of app len] obtain k where
    run: "input_tcp_internal R app (Some b) len src s =
      Inr (s\<lparr>kern := k, ports := (ports s)[p := (ports s ! p)\<lparr>tp_other_window := ntohs (th_window h),
        tp_state := SYN_RECEIVED, tp_other_ipv4_addr := src, tp_other_port_num := ntohs (th_src_port h),
        tp_ack_num := ntohl (th_seq_num h) + 1\<rparr>]\<rparr>)"
    and v: "view k = kv_push (send_queue s) (TcpTx \<lparr>ttx_dst_ipv4_addr = src, ttx_src_port = ntohs (th_dst_port h),
        ttx_dst_port = ntohs (th_src_port h), ttx_seq_num = tp_seq_num (ports s ! p), ttx_control = SYN + ACK,
        ttx_isRetransmission = False, ttx_data = None, ttx_data_len = 0\<rparr>) (kv_count sem n (view (kern s)))"
    by blast
  have same: "kv_queues (kv_count sem n (view (kern s))) = kv_queues (view (kern s))" by simp
  have "queue_room (kv_count sem n (view (kern s))) (send_queue s)"
    using assms(12) queue_room_cong[OF same] by simp
  from queue_items_push[OF this] queue_items_cong[OF same] v run kv_count_at[OF assms(11)]
  show ?thesis by simp
qed

theorem tcp_passive_open_witness:
  "\<exists>s'. input_tcp_internal ref_rtos (\<lambda>f c s. Inr s) (Some 1) 20 (IPv4 192 168 1 1)
       (set_port 0 (\<lambda>p. p\<lparr>tp_other_port_num := 0, tp_other_ipv4_addr := IPv4 0 0 0 0\<rparr>)
         (tcp2 LISTEN (data_header 100 2) [])) = Inr s' \<and>
     tp_state (ports s' ! 0) = SYN_RECEIVED \<and> tp_ack_num (ports s' ! 0) = 101"
  (is "\<exists>s'. input_tcp_internal _ _ _ _ _ ?s = _ \<and> _")
proof -
  have "find_port 80 5000 (IPv4 192 168 1 1) ?s = None" "find_listening_port 80 ?s = Some 0"
    by (simp_all add: find_port_def find_listening_port_def find_index_None port_zero_def)
  then show ?thesis
    using tcp_passive_open[OF refk.rtos_contract_axioms, of ?s 1 "data_header 100 2" "[]" "IPv4 192 168 1 1" 0 6 8 7
        "\<lambda>f c s. Inr s" 20]
    by (auto simp: kview.truncate_def queue_room_def)
qed

text \<open>
  C14: The handshake completes: the peer's ACK of the SYN+ACK, with the expected sequence number, moves
  the connection to ESTABLISHED and calls the application's \<^verbatim>\<open>on_connect\<close> once, with the peer's port and
  address; only data of acknowledged segments is released and no queue changes.
\<close>

theorem tcp_handshake_completes:
  assumes "rtos_contract R view" and "cells (heap s) b = Some (tcp_header_bytes h)"
    and "th_dOffset h = 5" and "unat (th_reserved h) < 16"
    and "flag_ACK (th_control h)" and "\<not> flag_SYN (th_control h)" and "\<not> flag_FIN (th_control h)"
    and "\<not> flag_RST (th_control h)"
    and "find_port (ntohs (th_dst_port h)) (ntohs (th_src_port h)) src s = Some p"
    and "port = ports s ! p" and "tp_state port = SYN_RECEIVED" and "tp_on_connect port = Some f"
    and "ntohl (th_seq_num h) = tp_ack_num port" and "ntohl (th_ack_num h) = tp_seq_num port"
    and "length (tp_unacked port) = MAX_UNACKED" and "slots_own (tp_unacked port) (cells (heap s))"
    and "tp_unacked_slots port = Some sem" and "kv_sems (view (kern s)) sem = Some (mx, m)" and "m \<le> mx"
  shows "\<exists>s1. input_tcp_internal R app (Some b) 20 src s =
      app f (OnConnect (tp_other_port_num port) (tp_other_ipv4_addr port)) s1 \<and>
     tp_state (ports s1 ! p) = ESTABLISHED \<and> (\<forall>q. q \<noteq> p \<longrightarrow> ports s1 ! q = ports s ! q) \<and>
     (\<forall>a. a \<notin> blocks_of ua_in_use (tp_unacked port) \<longrightarrow> cells (heap s1) a = cells (heap s) a) \<and>
     kv_queues (view (kern s1)) = kv_queues (view (kern s))"
proof -
  have p: "p < length (ports s)" using assms(9) by (auto simp: find_port_def dest: find_index_SomeD)
  from rtos_contract.handshake_done[OF assms, of app] obtain k A us where
    run: "input_tcp_internal R app (Some b) 20 src s =
      app f (OnConnect (tp_other_port_num port) (tp_other_ipv4_addr port))
        (s\<lparr>kern := k, heap := (heap s)\<lparr>cells := cells (heap s) |` (- A)\<rparr>,
          ports := (ports s)[p := port\<lparr>tp_unacked := us, tp_other_window := ntohs (th_window h),
            tp_state := ESTABLISHED\<rparr>]\<rparr>)"
    and A: "A \<subseteq> blocks_of ua_in_use (tp_unacked port)" "kv_queues (view k) = kv_queues (view (kern s))"
    by blast
  let ?s1 = "s\<lparr>kern := k, heap := (heap s)\<lparr>cells := cells (heap s) |` (- A)\<rparr>,
    ports := (ports s)[p := port\<lparr>tp_unacked := us, tp_other_window := ntohs (th_window h),
      tp_state := ESTABLISHED\<rparr>]\<rparr>"
  show ?thesis using run A p by (intro exI[of _ ?s1]) (auto simp: restrict_map_def)
qed

theorem tcp_handshake_completes_witness:
  "\<exists>s1. input_tcp_internal ref_rtos (\<lambda>f c s. Inr s) (Some 1) 20 (IPv4 192 168 1 1)
       (tcp2 SYN_RECEIVED (data_header 9 16) []) = Inr s1 \<and> tp_state (ports s1 ! 0) = ESTABLISHED"
  using tcp_handshake_completes[OF refk.rtos_contract_axioms,
      of "tcp2 SYN_RECEIVED (data_header 9 16) []" 1 "data_header 9 16" "IPv4 192 168 1 1" 0
        "port1 SYN_RECEIVED" 2 6 8 8 "\<lambda>f c s. Inr s"]
  by (auto simp: kview.truncate_def)

text \<open>
  C31: The FIN that closes a connection is not accepted by this stack itself: \<^verbatim>\<open>tcp_close_port_internal\<close>
  enters FIN\_WAIT\_1 and queues a segment whose only control bit is FIN, and a segment with only FIN set
  is dropped by \<^verbatim>\<open>input_tcp_internal\<close> in every state, because every segment without SYN must carry ACK.
\<close>

theorem tcp_close_fin_is_ignored:
  assumes "rtos_contract R view" and "find_port x y ip s = Some p"
    and "tp_unacked_slots (ports s ! p) = Some sem" and "kv_sems (view (kern s)) sem = Some (mx, Suc n)"
    and "queue_room (view (kern s)) (send_queue s)"
    and "heap_read buffer 20 t = Inr raw" and "th_control (tcp_header_at raw) = FIN"
  shows "(\<exists>s' fin. tcp_close_port_internal R x y ip s = Inr (ESP_OK, s') \<and>
       tp_state (ports s' ! p) = FIN_WAIT_1 \<and>
       queue_items (view (kern s')) (send_queue s) = queue_items (view (kern s)) (send_queue s) @ [TcpTx fin] \<and>
       ttx_control fin = FIN) \<and>
     input_tcp_internal R' app buffer len src t = Inr t"
proof
  have p: "p < length (ports s)" "tp_self_port_num (ports s ! p) = x" "tp_other_port_num (ports s ! p) = y"
    "tp_other_ipv4_addr (ports s ! p) = ip"
    using assms(2) by (auto simp: find_port_def find_index_Some)
  let ?s = "set_port p (\<lambda>port. port\<lparr>tp_state := FIN_WAIT_1\<rparr>) s" and ?fin = "tcp_response ip FIN (ports s ! p)"
  have fp: "find_port (ttx_src_port ?fin) (ttx_dst_port ?fin) (ttx_dst_ipv4_addr ?fin) ?s = Some p"
    using assms(2) p unfolding tcp_response_def find_port_def find_index_Some by (auto simp: nth_list_update)
  have same: "kv_queues (kv_count sem n (view (kern s))) = kv_queues (view (kern s))" by simp
  have room: "queue_room (kv_count sem n (view (kern s))) (send_queue s)"
    using assms(5) queue_room_cong[OF same] by simp
  obtain k where k: "tcp_enqueue_reliable R Inr ?fin portMAX_DELAY ?s = Inr (ESP_OK, ?s\<lparr>kern := k\<rparr>)"
    "view k = kv_push (send_queue ?s) (TcpTx ?fin) (kv_count sem n (view (kern ?s)))"
    by (rule rtos_contract.tcp_enqueue_reliable_ok[OF assms(1) fp _ _ _ _ disjI2[OF refl], of sem mx n])
       (use assms(3-5) p in simp_all)
  show "\<exists>s' fin. tcp_close_port_internal R x y ip s = Inr (ESP_OK, s') \<and>
       tp_state (ports s' ! p) = FIN_WAIT_1 \<and>
       queue_items (view (kern s')) (send_queue s) = queue_items (view (kern s)) (send_queue s) @ [TcpTx fin] \<and>
       ttx_control fin = FIN"
    using k p assms(2) queue_items_push[OF room] queue_items_cong[OF same]
    by (intro exI[of _ "?s\<lparr>kern := k\<rparr>"] exI[of _ ?fin])
       (simp add: tcp_close_port_internal_def Let_def tcp_response_def)
  show "input_tcp_internal R' app buffer len src t = Inr t"
    using assms(7) by (auto simp: input_tcp_internal_header[OF assms(6)] Let_def split: option.splits)
qed

theorem tcp_close_fin_is_ignored_witness:
  "(\<exists>s'. tcp_close_port_internal ref_rtos 80 5000 (IPv4 192 168 1 1) (tcp1 8 ESTABLISHED) = Inr (ESP_OK, s') \<and>
      tp_state (ports s' ! 0) = FIN_WAIT_1) \<and>
   input_tcp_internal ref_rtos (\<lambda>f c s. Inr s) (Some 1) 20 (IPv4 192 168 1 1)
     (tcp2 ESTABLISHED (data_header 9 1) []) = Inr (tcp2 ESTABLISHED (data_header 9 1) [])"
proof -
  have "heap_read (Some 1) 20 (tcp2 ESTABLISHED (data_header 9 1) []) = Inr (tcp_header_bytes (data_header 9 1))"
    by (rule heap_read_header[where payload = "[]"]) simp
  from tcp_close_fin_is_ignored[OF refk.rtos_contract_axioms, of 80 5000 "IPv4 192 168 1 1"
      "tcp1 8 ESTABLISHED" 0 6 8 7, OF _ _ _ _ this, of ref_rtos "\<lambda>f c s. Inr s" 20 "IPv4 192 168 1 1"]
  show ?thesis by (auto simp: kview.truncate_def queue_room_def)
qed

text \<open>
  C11: A segment that was not acknowledged for 100 ticks is sent again unchanged: the scan hands IPv4 a
  segment with the recorded sequence number, control bits and data, and keeps the slot for the next
  timeout. A younger segment is left alone. If the IPv4 queue is full the slot is given up instead,
  and its data stays allocated with no owner.
\<close>

theorem tcp_retransmits:
  assumes "rtos_contract R view" and "heap_ok s" and "\<not> oom (heap s) (brk (heap s))"
    and "p < length (ports s)" and "port = ports s ! p" and "i < length (tp_unacked port)"
    and "u = tp_unacked port ! i" and "ua_in_use u"
    and "find_port (tp_self_port_num port) (tp_other_port_num port) (tp_other_ipv4_addr port) s = Some p"
    and "unat (ua_data_len u) \<le> 65503" and "heap_read (ua_data u) (unat (ua_data_len u)) s = Inr data"
    and "queue_holds P (view (kern s)) (ipv4_transmit_queue s)"
    and "tp_unacked_slots port = Some sem" and "kv_sems (view (kern s)) sem = Some (mx, m)" and "m \<le> mx"
  shows "\<exists>s'. retransmit_unacked R now p i s = Inr s' \<and>
     (if now - ua_sent_at u < 100 then s' = s
      else if queue_room (view (kern s)) (ipv4_transmit_queue s) then
        tp_unacked (ports s' ! p) ! i = u\<lparr>ua_sent_at := now\<rparr> \<and>
        (\<exists>blk h. cells (heap s') = (cells (heap s))(brk (heap s) \<mapsto> blk) \<and>
           take (20 + length data) blk = tcp_header_bytes h @ data \<and>
           th_seq_num h = htonl (ua_seq_num u) \<and> th_control h = ua_control u) \<and>
        queue_items (view (kern s')) (ipv4_transmit_queue s) =
          queue_items (view (kern s)) (ipv4_transmit_queue s) @
          [Ipv4Tx \<lparr>ip_src_ipv4_addr = nc_ip (self_net s), ip_dst_ipv4_addr = tp_other_ipv4_addr port,
             ip_protocol = 6, ip_data = Some (brk (heap s)), ip_data_len = 20 + ua_data_len u\<rparr>]
      else
        tp_unacked (ports s' ! p) ! i = u\<lparr>ua_sent_at := now, ua_data := None, ua_in_use := False\<rparr> \<and>
        cells (heap s') = cells (heap s))"
proof (cases "now - ua_sent_at u < 100")
  case True
  then show ?thesis using assms(5,7,8) by (simp add: retransmit_unacked_def Let_def)
next
  case False
  let ?s1 = "set_unacked p i (\<lambda>u. u\<lparr>ua_sent_at := now\<rparr>) s" and ?a = "brk (heap s)"
  from resend_segment[OF assms(2-5,7,9-11) refl, of R now]
  obtain blk h where send: "tcp_send_internal R (resend_params port u) ?s1 =
      send_ipv4_packet R (ip_params_of (resend_params port u) s) (with_block ?a blk ?s1)"
    and seg: "take (20 + length data) blk = tcp_header_bytes h @ data"
      "th_seq_num h = htonl (ua_seq_num u)" "th_control h = ua_control u" by blast
  let ?s2 = "with_block ?a blk ?s1" and ?ip = "ip_params_of (resend_params port u) s"
  have step: "retransmit_unacked R now p i s = rbind (send_ipv4_packet R ?ip ?s2) (\<lambda>(res, s).
      if res \<noteq> ESP_OK then sem_give R (tp_unacked_slots (ports s ! p))
        (set_unacked p i (\<lambda>u. u\<lparr>ua_data := None, ua_in_use := False\<rparr>) s) else Inr s)"
    using False assms(5,7,8) send
    by (simp add: retransmit_unacked_def Let_def resend_params_def[symmetric])
  have ip: "?ip = \<lparr>ip_src_ipv4_addr = nc_ip (self_net s), ip_dst_ipv4_addr = tp_other_ipv4_addr port,
      ip_protocol = 6, ip_data = Some ?a, ip_data_len = 20 + ua_data_len u\<rparr>"
    by (simp add: ip_params_of_def resend_params_def)
  have undo: "(cells (heap s))(?a := None) = cells (heap s)"
    using heap_ok_fresh[OF assms(2)] by (simp add: fun_upd_idem)
  note pu = ports_set_unacked
  have q: "queue_holds P (view (kern ?s2)) (ipv4_transmit_queue ?s2)" "cells (heap ?s2) ?a = Some blk"
    "ip_data ?ip = Some ?a" using assms(12) ip by simp_all
  show ?thesis
  proof (rule rtos_contract.send_ipv4_packet_cases[OF assms(1) q])
    fix k qh cap ms
    assume "send_ipv4_packet R ?ip ?s2 = Inr (ESP_OK, ?s2\<lparr>kern := k\<rparr>)"
      "queue_room (view (kern ?s2)) (ipv4_transmit_queue ?s2)"
      "ipv4_transmit_queue ?s2 = Some qh" "kv_queues (view (kern ?s2)) qh = Some (cap, ms)"
      "view k = (view (kern ?s2))\<lparr>kv_queues := (kv_queues (view (kern ?s2)))(qh \<mapsto> (cap, ms @ [Ipv4Tx ?ip]))\<rparr>"
    then show ?thesis
      using False step seg assms(4-7) ip by (auto simp: pu queue_items_def)
  next
    fix k
    assume 2: "send_ipv4_packet R ?ip ?s2 = Inr (ESP_FAIL, release ?a (?s2\<lparr>kern := k\<rparr>))"
      "\<not> queue_room (view (kern ?s2)) (ipv4_transmit_queue ?s2)" "view k = view (kern ?s2)"
    let ?s3 = "set_unacked p i (\<lambda>u. u\<lparr>ua_data := None, ua_in_use := False\<rparr>) (release ?a (?s2\<lparr>kern := k\<rparr>))"
    have "kv_sems (view (kern ?s3)) sem = Some (mx, m)" using 2(3) assms(14) by simp
    then obtain k' where "sem_give R (Some sem) ?s3 = Inr (?s3\<lparr>kern := k'\<rparr>)"
      using assms(15) by (rule rtos_contract.sem_give_ok[OF assms(1)])
    moreover have "ports (release ?a (?s2\<lparr>kern := k\<rparr>)) = ports ?s1" by (simp add: release_def)
    ultimately show ?thesis
      using False step 2(1,2) assms(4-7,13) undo by (auto simp: pu)
  qed
qed

theorem tcp_retransmits_witness:
  "\<exists>s' blk h. retransmit_unacked ref_rtos 500 0 0 (tcp3 ESTABLISHED) = Inr s' \<and>
     cells (heap s') 1 = Some blk \<and> take 22 blk = tcp_header_bytes h @ [10, 20] \<and> th_seq_num h = htonl 5"
proof -
  let ?s = "tcp3 ESTABLISHED" and ?u = "used1"
  have ok: "heap_ok ?s" "\<not> oom (heap ?s) (brk (heap ?s))" "?u = tp_unacked (ports ?s ! 0) ! 0"
    "0 < length (tp_unacked (ports ?s ! 0))"
    by (simp_all add: heap_ok_def)
  have fp: "find_port (tp_self_port_num (ports ?s ! 0)) (tp_other_port_num (ports ?s ! 0))
      (tp_other_ipv4_addr (ports ?s ! 0)) ?s = Some 0"
    by (simp add: find_port_def)
  have rd: "heap_read (ua_data ?u) (unat (ua_data_len ?u)) ?s = Inr [10, 20]" by (simp add: heap_read_def)
  have q: "queue_holds (\<lambda>_. True) (kview.truncate (kern ?s)) (ipv4_transmit_queue ?s)"
    "queue_room (kview.truncate (kern ?s)) (ipv4_transmit_queue ?s)"
    by (simp_all add: queue_holds_def queue_room_def kview.truncate_def)
  have late: "\<not> 500 - ua_sent_at ?u < 100" by simp
  from tcp_retransmits[OF refk.rtos_contract_axioms ok(1,2) tcp3_hyps(1) refl ok(4,3) used1_sel(1) fp _ rd q(1)
      tcp3_hyps(5,6), of 500] late q(2)
  obtain s' blk h where "retransmit_unacked ref_rtos 500 0 0 ?s = Inr s'"
    "cells (heap s') = (cells (heap ?s))(brk (heap ?s) \<mapsto> blk)"
    "take (20 + length [10 :: u8, 20]) blk = tcp_header_bytes h @ [10, 20]" "th_seq_num h = htonl 5"
    by auto
  then show ?thesis by auto
qed

text \<open>
  C32: TIME\_WAIT ends: when a connection has been in TIME\_WAIT for more than 1000 ticks the scan closes
  it and releases all it owns, and its table entry is free again; before that the entry is kept.
\<close>

theorem tcp_time_wait_expires:
  assumes "rtos_contract R view" and "p < length (ports s)" and "port = ports s ! p"
    and "tp_state port = TIME_WAIT" and "tp_self_port_num port \<noteq> 0"
    and "length (tp_unacked port) = MAX_UNACKED" and "slots_own (tp_unacked port) (cells (heap s))"
    and "tp_unacked_slots port = Some sem" and "kv_sems (view (kern s)) sem = Some (mx, m)" and "m \<le> mx"
  shows "(1000 < now - tp_entered_time_wait_at port \<longrightarrow>
       (\<exists>s'. scan_port R now p s = Inr s' \<and>
          tp_state (ports s' ! p) = CLOSED \<and> tp_self_port_num (ports s' ! p) = 0 \<and>
          kv_sems (view (kern s')) sem = None \<and>
          (\<forall>a. cells (heap s') a = (if a \<in> blocks_of ua_in_use (tp_unacked port) then None else cells (heap s) a)))) \<and>
     (now - tp_entered_time_wait_at port \<le> 1000 \<and> (\<forall>u\<in>set (tp_unacked port). \<not> ua_in_use u) \<longrightarrow>
       scan_port R now p s = Inr s)"
proof (intro conjI impI)
  assume *: "1000 < now - tp_entered_time_wait_at port"
  have us: "tp_unacked port = tp_unacked (ports s ! p)" "tp_unacked_slots (ports s ! p) = Some sem"
    using assms(3,8) by simp_all
  show "\<exists>s'. scan_port R now p s = Inr s' \<and>
      tp_state (ports s' ! p) = CLOSED \<and> tp_self_port_num (ports s' ! p) = 0 \<and>
      kv_sems (view (kern s')) sem = None \<and>
      (\<forall>a. cells (heap s') a = (if a \<in> blocks_of ua_in_use (tp_unacked port) then None else cells (heap s) a))"
    using rtos_contract.tcp_reset_port_eq[OF assms(1,2) us(1) assms(6,7) us(2) assms(9,10)] * assms(2-5)
    by (auto simp: scan_port_def Let_def restrict_map_def)
next
  assume *: "now - tp_entered_time_wait_at port \<le> 1000 \<and> (\<forall>u\<in>set (tp_unacked port). \<not> ua_in_use u)"
  have "for_each (retransmit_unacked R now p) [0..<k] s = Inr s" if "k \<le> 8" for k
    using that
  proof (induction k)
    case (Suc k)
    have "\<not> ua_in_use (tp_unacked (ports s ! p) ! k)" using Suc.prems assms(3,6) * by simp
    then show ?case using Suc by (simp add: for_each_append retransmit_unacked_def)
  qed simp
  moreover have "\<not> 1000 < now - tp_entered_time_wait_at port" using * by (simp add: not_less)
  ultimately show "scan_port R now p s = Inr s" using assms(3,5) by (simp add: scan_port_def Let_def)
qed

theorem tcp_time_wait_expires_witness:
  "\<exists>s'. scan_port ref_rtos 1500 0 (tcp1 8 TIME_WAIT) = Inr s' \<and> tp_state (ports s' ! 0) = CLOSED"
proof -
  let ?s = "tcp1 8 TIME_WAIT"
  have h: "0 < length (ports ?s)" "port1 TIME_WAIT = ports ?s ! 0" "tp_state (port1 TIME_WAIT) = TIME_WAIT"
    "tp_self_port_num (port1 TIME_WAIT) \<noteq> 0" "length (tp_unacked (port1 TIME_WAIT)) = 8"
    "slots_own (tp_unacked (port1 TIME_WAIT)) (cells (heap ?s))" "tp_unacked_slots (port1 TIME_WAIT) = Some 6"
    "kv_sems (kview.truncate (kern ?s)) 6 = Some (8, 8)" "(8 :: nat) \<le> 8"
    by (simp_all add: kview.truncate_def)
  have "1000 < 1500 - tp_entered_time_wait_at (port1 TIME_WAIT)" by simp
  then show ?thesis using tcp_time_wait_expires[OF refk.rtos_contract_axioms h, of 1500] by blast
qed

end
