(* ===== verification/Ipv4_Rx.thy ===== *)
theory Ipv4_Rx
  imports Tcp_Connection
begin

text \<open>
  The receiving half of IPv4 and its initialisation (\<^verbatim>\<open>protocols/ipv4.c\<close>): which packets are accepted and
  to which protocol they go.
\<close>

section \<open>Model\<close>

definition ipv4_input :: "'k rtos \<Rightarrow> bytes \<Rightarrow> u16 \<Rightarrow> ('k, 'z) tcp \<Rightarrow> ('k, 'z) tcp exec" where
  "ipv4_input R buffer buffer_len s =
     (if buffer_len < 20 then Inr s
      else
        rbind (read_bytes buffer 0 20) (\<lambda>raw.
        (let header = ipv4_header_at raw; version = drop_bit 4 (h_version_and_ihl header) in
         if version \<noteq> 4 then Inr s
         else
           (let IHL = h_version_and_ihl header AND 0x0F; header_len = ucast IHL * 4 :: u16;
                total_len = ntohs (h_total_length header) in
            if buffer_len < total_len then Inr s
            else
              rbind (net_checksum buffer (ucast IHL * 4)) (\<lambda>checksum.
              if checksum \<noteq> 0 then Inr s
              else if h_dst_ipv4_addr header \<noteq> nc_ip (self_net s) then Inr s
              else if header_len \<noteq> 20 then Inr s
              else
                (let data_len = total_len - header_len in
                 if h_protocol header = ICMP_PROTOCOL_NUMBER then icmpv4_input R buffer total_len s
                 else if h_protocol header = TCP_PROTOCOL_NUMBER then
                   rbind (input_tcp R (drop (unat header_len) buffer) data_len
                            (h_src_ipv4_addr header) s) (\<lambda>(result, s). Inr s)
                 else Inr s))))))"

definition ipv4_init :: "'k rtos \<Rightarrow> ('k, 'z) tcp \<Rightarrow> ('k, 'z) tcp exec" where
  "ipv4_init R s =
     (let s = (if ipv4_transmit_queue s = None
               then let (q, s) = q_create R 4 s in s\<lparr>ipv4_transmit_queue := q\<rparr> else s) in
      if ipv4_transmit_queue s = None then Inr s
      else
        (let (xReturned, s) = task_create R ''ipv4 task'' s in
         if \<not> xReturned then Inr s
         else rbind (init_tcp R s) (\<lambda>(result, s). Inr s)))"

section \<open>Decoding what the sender encodes\<close>

lemma ipv4_version_ihl:
  "drop_bit 4 (push_bit 4 4 OR 20 div 4 :: u8) = 4" "(push_bit 4 4 OR 20 div 4 :: u8) AND 0xF = 5"
  by (simp_all add: push_bit_eq_mult drop_bit_eq_div)

lemma ipv4_header_at_packet:
  "ipv4_header_at (take 20 (ipv4_packet p data)) =
     \<lparr>h_version_and_ihl = push_bit 4 4 OR 20 div 4, h_dscp_and_ecn = 0,
      h_total_length = htons (20 + ip_data_len p), h_identification = 0,
      h_flags_and_fragment_offset = htons (push_bit 13 2), h_ttl = 128, h_protocol = ip_protocol p,
      h_header_checksum = htons (oc_checksum (ipv4_header_bytes p)),
      h_src_ipv4_addr = ip_src_ipv4_addr p, h_dst_ipv4_addr = ip_dst_ipv4_addr p\<rparr>"
  by (cases "ip_src_ipv4_addr p"; cases "ip_dst_ipv4_addr p")
     (simp add: ipv4_header_at_def ipv4_packet_def ipv4_header_bytes_def store16_def load16_of_def
        ip_of_bytes_def, simp add: load16_def)

section \<open>Which packets are delivered\<close>

text \<open>
  The acceptance test in one place: an IPv4 header without options and with a valid checksum,
  addressed to this host, whose total length fits into the frame.
\<close>

definition ipv4_accepts :: "ipv4_addr \<Rightarrow> bytes \<Rightarrow> bool" where
  "ipv4_accepts self buffer =
     (let h = ipv4_header_at (take 20 buffer) in
      20 \<le> length buffer \<and> h_version_and_ihl h = 0x45 \<and>
      unat (ntohs (h_total_length h)) \<le> length buffer \<and> oc_checksum (take 20 buffer) = 0 \<and>
      h_dst_ipv4_addr h = self)"

text \<open>The checksum is computed over the length that the packet claims for its header.\<close>

definition ipv4_overread :: "bytes \<Rightarrow> bool" where
  "ipv4_overread buffer =
     (let h = ipv4_header_at (take 20 buffer) in
      20 \<le> length buffer \<and> drop_bit 4 (h_version_and_ihl h) = 4 \<and>
      unat (ntohs (h_total_length h)) \<le> length buffer \<and>
      length buffer < 4 * unat (h_version_and_ihl h AND 0x0F))"

definition ipv4_deliver :: "'k rtos \<Rightarrow> bytes \<Rightarrow> ('k, 'z) tcp \<Rightarrow> ('k, 'z) tcp exec" where
  "ipv4_deliver R buffer s =
     (let h = ipv4_header_at (take 20 buffer); total_len = ntohs (h_total_length h) in
      if h_protocol h = ICMP_PROTOCOL_NUMBER then icmpv4_input R buffer total_len s
      else if h_protocol h = TCP_PROTOCOL_NUMBER then
        rbind (input_tcp R (drop 20 buffer) (total_len - 20) (h_src_ipv4_addr h) s) (\<lambda>(result, s). Inr s)
      else Inr s)"

lemma u8_nibbles: "(b :: u8) = 0x45 \<longleftrightarrow> drop_bit 4 b = 4 \<and> b AND 0xF = 5"
proof
  assume *: "drop_bit 4 b = 4 \<and> b AND 0xF = 5"
  have "b = push_bit 4 (drop_bit 4 b) OR (b AND mask 4)"
    by (rule bit_eqI) (auto simp: bit_or_iff bit_push_bit_iff bit_drop_bit_eq bit_and_iff bit_mask_iff)
  moreover have "(mask 4 :: u8) = 0xF" by (simp add: mask_eq_exp_minus_1)
  ultimately have "b = push_bit 4 4 OR 5" using * by simp
  then show "b = 0x45" by (simp add: push_bit_eq_mult)
qed (simp add: drop_bit_eq_div)

lemma unat_ihl: "unat (ucast (b AND 0xF :: u8) * 4 :: u16) = 4 * unat (b AND 0xF)"
proof -
  have "unat (b AND 0xF) < 256" by simp
  then have "4 * unat (b AND 0xF) < 65536" by linarith
  then show ?thesis by (simp add: unat_word_ariths mult.commute mod_less)
qed

lemma ihl_is_20: "(ucast (b AND 0xF :: u8) * 4 :: u16) = 20 \<longleftrightarrow> b AND 0xF = 5"
proof -
  have "(ucast (b AND 0xF) * 4 :: u16) = 20 \<longleftrightarrow> 4 * unat (b AND 0xF) = 20"
    by (subst word_unat_eq_iff) (simp only: unat_ihl, simp)
  also have "\<dots> \<longleftrightarrow> unat (b AND 0xF) = unat (5 :: u8)" by simp
  finally show ?thesis by (simp only: word_unat_eq_iff)
qed

lemma ipv4_input_eq:
  assumes "length buffer = unat buffer_len"
  shows "ipv4_input R buffer buffer_len s =
     (if ipv4_accepts (nc_ip (self_net s)) buffer then ipv4_deliver R buffer s
      else if ipv4_overread buffer then Inl Fault else Inr s)"
proof (cases "20 \<le> length buffer")
  case False
  then have "buffer_len < 20" using assms by (simp add: word_less_nat_alt)
  with False show ?thesis by (simp add: ipv4_input_def ipv4_accepts_def ipv4_overread_def Let_def)
next
  case True
  define h where "h = ipv4_header_at (take 20 buffer)"
  define ihl where "ihl = h_version_and_ihl h AND 0xF"
  define total where "total = ntohs (h_total_length h)"
  define c where "c = net_checksum buffer (ucast ihl * 4)"
  have len: "\<not> buffer_len < 20" "buffer_len < total \<longleftrightarrow> \<not> unat total \<le> length buffer"
    using True assms by (simp_all add: word_less_nat_alt not_le)
  have c: "c = (if 4 * unat ihl \<le> length buffer then Inr (oc_checksum (take (4 * unat ihl) buffer))
      else Inl Fault)"
    by (simp only: c_def ihl_def net_checksum_eq unat_ihl)
  have five: "h_version_and_ihl h = 0x45 \<longleftrightarrow> drop_bit 4 (h_version_and_ihl h) = 4 \<and> ihl = 5"
    by (simp add: u8_nibbles ihl_def)
  have hl: "(ucast ihl * 4 :: u16) = 20 \<longleftrightarrow> ihl = 5" by (simp only: ihl_def ihl_is_20)
  have run: "ipv4_input R buffer buffer_len s =
      (if drop_bit 4 (h_version_and_ihl h) \<noteq> 4 \<or> \<not> unat total \<le> length buffer then Inr s
       else rbind c (\<lambda>ck. if ck \<noteq> 0 \<or> h_dst_ipv4_addr h \<noteq> nc_ip (self_net s) \<or> ihl \<noteq> 5 then Inr s
         else ipv4_deliver R buffer s))"
    using True len hl
    by (simp add: ipv4_input_def ipv4_deliver_def Let_def h_def[symmetric] ihl_def[symmetric]
        total_def[symmetric] c_def[symmetric] cong: if_cong)
  show ?thesis
    using True
    by (cases "ihl = 5")
       (simp_all add: run c ipv4_accepts_def ipv4_overread_def Let_def h_def[symmetric] ihl_def[symmetric]
        total_def[symmetric] five)
qed

lemma ipv4_accepts_packet:
  assumes "unat (ip_data_len p) = length data" and "length data \<le> 65515"
  shows "ipv4_accepts self (ipv4_packet p data @ pad) \<longleftrightarrow> ip_dst_ipv4_addr p = self"
proof -
  have "oc_checksum (take 20 (ipv4_packet p data @ pad)) = 0"
    using ipv4_packet_checksum[of p data] by (simp add: net_checksum_eq)
  moreover have "unat (20 + ip_data_len p) = 20 + length data"
    using assms by (simp add: unat_plus_u16)
  ultimately show ?thesis
    by (simp add: ipv4_accepts_def ipv4_header_at_packet Let_def push_bit_eq_mult)
qed

lemma ipv4_deliver_packet:
  assumes "unat (ip_data_len p) = length data" and "length data \<le> 65515"
  shows "ipv4_deliver R (ipv4_packet p data @ pad) s =
     (if ip_protocol p = 1 then icmpv4_input R (ipv4_packet p data @ pad) (20 + ip_data_len p) s
      else if ip_protocol p = 6 then
        rbind (input_tcp R (data @ pad) (ip_data_len p) (ip_src_ipv4_addr p) s) (\<lambda>(result, s). Inr s)
      else Inr s)"
proof -
  have "drop 20 (ipv4_packet p data @ pad) = data @ pad" by (simp add: ipv4_packet_def)
  then show ?thesis by (simp add: ipv4_deliver_def ipv4_header_at_packet Let_def)
qed

section \<open>Handing a segment to TCP\<close>

context rtos_contract
begin

lemma input_tcp_cases:
  assumes "heap_ok s" and "\<not> oom (heap s) (brk (heap s))"
    and "queue_holds P (view (kern s)) (input_queue s)" and "unat len \<le> length buffer"
  shows "\<exists>e s'. input_tcp R buffer len src s = Inr (e, s') \<and>
     (if queue_room (view (kern s)) (input_queue s)
      then e = ESP_OK \<and>
        cells (heap s') = (cells (heap s))(brk (heap s) \<mapsto> take (unat len) buffer) \<and>
        view (kern s') = kv_push (input_queue s) (TcpInput \<lparr>tin_buffer = Some (brk (heap s)),
          tin_length = len, tin_src_ipv4_addr = src\<rparr>) (view (kern s))
      else e = ESP_ERR_NO_MEM \<and> cells (heap s') = cells (heap s) \<and> view (kern s') = view (kern s))"
proof -
  let ?a = "brk (heap s)" and ?bs = "take (unat len) buffer"
  let ?m = "TcpInput \<lparr>tin_buffer = Some ?a, tin_length = len, tin_src_ipv4_addr = src\<rparr>"
  let ?s = "with_block ?a ?bs s"
  have w: "write_bytes 0 ?bs (map (junk (heap s) ?a) [0..<unat len]) = Inr ?bs"
    using assms(4) by (simp add: write_bytes_front)
  have eq: "input_tcp R buffer len src s = rbind (q_send R (input_queue s) ?m 0 ?s) (\<lambda>(sent, s).
      if \<not> sent then rbind (free (Some ?a) s) (\<lambda>s. Inr (ESP_ERR_NO_MEM, s)) else Inr (ESP_OK, s))"
    using assms(2,4) by (simp add: input_tcp_def malloc_with_block w)
  have undo: "(cells (heap s))(?a := None) = cells (heap s)"
    using heap_ok_fresh[OF assms(1)] by (simp add: fun_upd_idem)
  have q: "queue_holds P (view (kern ?s)) (input_queue s)" using assms(3) by simp
  then show ?thesis
  proof (cases rule: q_send_cases[where m = ?m])
    case (full k)
    moreover have "free (Some ?a) (?s\<lparr>kern := k\<rparr>) = Inr (release ?a (?s\<lparr>kern := k\<rparr>))"
      by (rule free_release[where b = ?bs]) simp
    ultimately show ?thesis by (simp add: eq undo)
  next
    case (sent k q cap ms)
    then show ?thesis by (simp add: eq kv_push_def)
  qed
qed

end

section \<open>Properties\<close>

text \<open>
  C10: \<^verbatim>\<open>ipv4_input\<close> delivers exactly the packets that pass the acceptance test: version 4, a header of
  five words, a total length within the frame, a valid header checksum and the address of this host.
  Every other frame leaves the state unchanged, except that the checksum of a header whose claimed
  length exceeds the frame is read past its end.
\<close>

theorem ipv4_input_filter:
  assumes "length buffer = unat buffer_len"
  shows "ipv4_input R buffer buffer_len s =
     (if ipv4_accepts (nc_ip (self_net s)) buffer then ipv4_deliver R buffer s
      else if ipv4_overread buffer then Inl Fault else Inr s)"
  using assms by (rule ipv4_input_eq)

theorem ipv4_input_filter_witness:
  "ipv4_input ref_rtos (0x4F # replicate 29 0) 30 (tcp1 0 ESTABLISHED) = Inl Fault \<and>
   ipv4_input ref_rtos (0x65 # replicate 29 0) 30 (tcp1 0 ESTABLISHED) = Inr (tcp1 0 ESTABLISHED)"
proof
  show "ipv4_input ref_rtos (0x4F # replicate 29 0) 30 (tcp1 0 ESTABLISHED) = Inl Fault"
    by (subst ipv4_input_filter)
       (simp_all add: ipv4_accepts_def ipv4_overread_def ipv4_header_at_def Let_def load16_of_def load16_def
          ntohs_def drop_bit_eq_div)
  show "ipv4_input ref_rtos (0x65 # replicate 29 0) 30 (tcp1 0 ESTABLISHED) = Inr (tcp1 0 ESTABLISHED)"
    by (subst ipv4_input_filter)
       (simp_all add: ipv4_accepts_def ipv4_overread_def ipv4_header_at_def Let_def drop_bit_eq_div)
qed

text \<open>
  C16: Round trip of a TCP packet: what \<^verbatim>\<open>internal_send_ipv4_packet\<close> builds for this host, followed by
  any Ethernet padding, makes \<^verbatim>\<open>ipv4_input\<close> queue exactly one event for TCP with the sender's address
  and a fresh copy of exactly the transmitted data. When the queue is full, nothing is queued and
  nothing is leaked.
\<close>

theorem ipv4_tcp_roundtrip:
  assumes "rtos_contract R view" and "heap_ok s" and "\<not> oom (heap s) (brk (heap s))"
    and "queue_holds P (view (kern s)) (input_queue s)"
    and "unat (ip_data_len p) = length data" and "length data \<le> 65515"
    and "ip_protocol p = 6" and "ip_dst_ipv4_addr p = nc_ip (self_net s)"
    and "unat buffer_len = length (ipv4_packet p data @ pad)"
  shows "\<exists>s'. ipv4_input R (ipv4_packet p data @ pad) buffer_len s = Inr s' \<and>
     (if queue_room (view (kern s)) (input_queue s)
      then cells (heap s') = (cells (heap s))(brk (heap s) \<mapsto> data) \<and>
        queue_items (view (kern s')) (input_queue s) = queue_items (view (kern s)) (input_queue s)
          @ [TcpInput \<lparr>tin_buffer = Some (brk (heap s)), tin_length = ip_data_len p,
               tin_src_ipv4_addr = ip_src_ipv4_addr p\<rparr>]
      else cells (heap s') = cells (heap s) \<and> view (kern s') = view (kern s))"
proof -
  have "ipv4_input R (ipv4_packet p data @ pad) buffer_len s =
      rbind (input_tcp R (data @ pad) (ip_data_len p) (ip_src_ipv4_addr p) s) (\<lambda>(result, s). Inr s)"
    using assms(5-9) by (simp add: ipv4_input_eq ipv4_accepts_packet ipv4_deliver_packet)
  moreover have "unat (ip_data_len p) \<le> length (data @ pad)" using assms(5) by simp
  note rtos_contract.input_tcp_cases[OF assms(1-4) this, of "ip_src_ipv4_addr p"]
  ultimately show ?thesis
    using assms(5) by (auto simp: queue_items_push split: if_splits)
qed

theorem ipv4_tcp_roundtrip_witness:
  "\<exists>s'. ipv4_input ref_rtos (ipv4_packet (ipv4_p1\<lparr>ip_dst_ipv4_addr := IPv4 192 168 1 230\<rparr>) [10, 20] @ [0, 0, 0]) 25
       (tcp1 0 ESTABLISHED) = Inr s' \<and> cells (heap s') 1 = Some [10, 20]"
proof -
  let ?s = "tcp1 0 ESTABLISHED" and ?p = "ipv4_p1\<lparr>ip_dst_ipv4_addr := IPv4 192 168 1 230\<rparr>"
  have room: "queue_room (kview.truncate (kern ?s)) (input_queue ?s)"
    by (simp add: queue_room_def kview.truncate_def)
  have "queue_holds (\<lambda>_. True) (kview.truncate (kern ?s)) (input_queue ?s)"
    by (simp add: queue_holds_def kview.truncate_def)
  moreover have "\<not> oom (heap ?s) (brk (heap ?s))" "unat (ip_data_len ?p) = length [10, 20 :: u8]"
    "length [10, 20 :: u8] \<le> 65515" "ip_protocol ?p = 6" "ip_dst_ipv4_addr ?p = nc_ip (self_net ?s)"
    "unat (25 :: u16) = length (ipv4_packet ?p [10, 20] @ [0, 0, 0])"
    by (simp_all add: ipv4_p1_def)
  ultimately have "\<exists>s'. ipv4_input ref_rtos (ipv4_packet ?p [10, 20] @ [0, 0, 0]) 25 ?s = Inr s' \<and>
      cells (heap s') = (cells (heap ?s))(brk (heap ?s) \<mapsto> [10, 20])"
    using ipv4_tcp_roundtrip[OF refk.rtos_contract_axioms heap_ok_tcp1] room by (metis (no_types, lifting))
  then show ?thesis by auto
qed

text \<open>
  C34: A corruption of one aligned 16-bit word of the header of an accepted packet (any word but the one
  with the version and header length, and not an exchange of 0x0000 and 0xFFFF) is noticed: the packet
  is dropped and the state unchanged, whatever the address of this host.
\<close>

theorem ipv4_header_error_dropped:
  assumes "ipv4_accepts self (pre @ store16 (htons v) @ post @ payload)"
    and "length pre + 2 + length post = 20" and "even (length pre)" and "2 \<le> length pre"
    and "v \<noteq> w" and "{v, w} \<noteq> {0, 0xFFFF}"
    and "buffer = pre @ store16 (htons w) @ post @ payload" and "unat buffer_len = length buffer"
  shows "ipv4_input R buffer buffer_len s = Inr s"
proof -
  have hd: "h_version_and_ihl (ipv4_header_at (take 20 (pre @ bs))) = pre ! 0" for bs
    using assms(4) by (cases pre) (simp_all add: ipv4_header_at_def)
  have tk: "take 20 (pre @ store16 x @ post @ payload) = pre @ store16 x @ post" for x
    using assms(2) by simp
  have "oc_checksum (pre @ store16 (htons v) @ post) = 0" "pre ! 0 = 0x45"
    using assms(1) hd[of "store16 (htons v) @ post @ payload"]
    by (simp_all add: ipv4_accepts_def Let_def del: take_append) (simp only: tk)
  with word_error_detected[OF assms(3) _ assms(5,6), of post]
  have bad: "oc_checksum (pre @ store16 (htons w) @ post) \<noteq> 0" and "pre ! 0 = 0x45" by simp_all
  have "\<not> ipv4_accepts a buffer" for a
    using bad unfolding ipv4_accepts_def Let_def assms(7) tk by simp
  moreover have "\<not> ipv4_overread buffer"
    using \<open>pre ! 0 = 0x45\<close> assms(7) hd[of "store16 (htons w) @ post @ payload"]
    by (auto simp: ipv4_overread_def Let_def simp del: take_append)
  ultimately show ?thesis using assms(8) by (simp add: ipv4_input_eq)
qed

theorem ipv4_header_error_dropped_witness:
  "ipv4_input ref_rtos ([69, 0, 0, 22, 0, 0, 64, 0, 128, 6, 118, 170, 10, 0, 1, 1, 192, 168, 1, 230] @ [7, 7])
     22 (tcp1 0 ESTABLISHED) = Inr (tcp1 0 ESTABLISHED)"
proof (rule ipv4_header_error_dropped[where w = "0xA00"])
  show "ipv4_accepts (IPv4 192 168 1 230) ([69, 0, 0, 22, 0, 0, 64, 0, 128, 6, 118, 170] @ store16 (htons 49320)
      @ [1, 1, 192, 168, 1, 230] @ [7, 7])"
    by (simp add: ipv4_accepts_def ipv4_header_at_def Let_def ip_of_bytes_def load16_of_def oc_checksum_def
        oc_fold_def store16_htons, simp add: load16_def)
qed (simp_all add: store16_htons doubleton_eq_iff)

text \<open>
  C35: A TCP packet that passes the acceptance test but claims a total length below 20 makes
  \<^verbatim>\<open>total_len - header_len\<close> wrap around: the data length given to TCP is at least 65516 and the copy reads
  past the end of the frame.
\<close>

theorem ipv4_short_total_length:
  assumes "ipv4_accepts (nc_ip (self_net s)) buffer" and "unat buffer_len = length buffer"
    and "h_protocol (ipv4_header_at (take 20 buffer)) = 6"
    and "ntohs (h_total_length (ipv4_header_at (take 20 buffer))) < 20"
    and "\<not> oom (heap s) (brk (heap s))"
  shows "65516 \<le> unat (ntohs (h_total_length (ipv4_header_at (take 20 buffer))) - 20) \<and>
    ipv4_input R buffer buffer_len s = Inl Fault"
proof -
  let ?t = "ntohs (h_total_length (ipv4_header_at (take 20 buffer)))"
  have big: "65516 \<le> unat (?t - 20)"
    using assms(4) by (simp add: unat_minus_u16 word_less_nat_alt)
  moreover have "length buffer < 65536" using assms(2) unat_less_65536[of buffer_len] by simp
  ultimately have "length (drop 20 buffer) < unat (?t - 20)" by simp
  then have "read_bytes (drop 20 buffer) 0 (unat (?t - 20)) = Inl Fault" by simp
  then show ?thesis
    using assms(1-3,5) big by (simp add: ipv4_input_eq ipv4_deliver_def Let_def input_tcp_def malloc_with_block)
qed

theorem ipv4_short_total_length_witness:
  "ipv4_input ref_rtos ([69, 0, 0, 10, 0, 0, 64, 0, 128, 6, 118, 182, 192, 168, 1, 1, 192, 168, 1, 230] @ [7, 7])
     22 (tcp1 0 ESTABLISHED) = Inl Fault"
proof -
  let ?b = "[69, 0, 0, 10, 0, 0, 64, 0, 128, 6, 118, 182, 192, 168, 1, 1, 192, 168, 1, 230] @ [7, 7]"
  have h: "ipv4_header_at (take 20 ?b) = \<lparr>h_version_and_ihl = 0x45, h_dscp_and_ecn = 0,
      h_total_length = htons 10, h_identification = 0, h_flags_and_fragment_offset = htons 0x4000,
      h_ttl = 128, h_protocol = 6, h_header_checksum = htons 0x76B6, h_src_ipv4_addr = IPv4 192 168 1 1,
      h_dst_ipv4_addr = IPv4 192 168 1 230\<rparr>"
    by (simp add: ipv4_header_at_def ip_of_bytes_def load16_of_def, simp add: load16_def htons_def ntohs_def)
  have "ipv4_accepts (nc_ip (self_net (tcp1 0 ESTABLISHED))) ?b"
    unfolding ipv4_accepts_def h by (simp add: Let_def oc_checksum_def oc_fold_def)
  from ipv4_short_total_length[OF this, of 22 ref_rtos] show ?thesis
    unfolding h by simp
qed

end
