(* ===== verification/Rx_Safety.thy ===== *)
theory Rx_Safety
  imports Ipv4_Rx
begin

text \<open>
  Memory safety of the receive path. Handling one frame touches only the kernel and the heap, and on the
  heap only blocks that the handler itself allocates: \<open>keeps view n s t\<close> says so for a run from \<open>s\<close> to
  \<open>t\<close>, where \<open>n\<close> bounds the blocks that were there before. One lemma per handler shows that it returns
  and keeps this relation, for every frame that is long enough.
\<close>

section \<open>What a handler leaves alone\<close>

text \<open>The same queues exist, whatever they hold, and the driver is as it was.\<close>

definition same_objects :: "kview \<Rightarrow> kview \<Rightarrow> bool" where
  "same_objects v w \<longleftrightarrow> (\<forall>q. kv_queues v q = None \<longleftrightarrow> kv_queues w q = None) \<and> kv_driver w = kv_driver v"

definition keeps :: "('k \<Rightarrow> kview) \<Rightarrow> addr \<Rightarrow> ('k, 'z) base \<Rightarrow> ('k, 'z) base \<Rightarrow> bool" where
  "keeps view n s t \<longleftrightarrow>
     t = s\<lparr>kern := kern t, heap := heap t\<rparr> \<and> (\<forall>a<n. cells (heap t) a = cells (heap s) a) \<and>
     brk (heap s) \<le> brk (heap t) \<and> (heap_ok s \<longrightarrow> heap_ok t) \<and> same_objects (view (kern s)) (view (kern t))"

named_theorems keeps_intros \<open>steps that leave existing blocks and the other globals alone\<close>

lemma keeps_refl [simp, keeps_intros]: "keeps view n s s"
  by (simp add: keeps_def same_objects_def)

lemma keeps_trans [trans]:
  assumes "keeps view n s t" and "keeps view n t u"
  shows "keeps view n s u"
proof -
  obtain k h where t: "t = s\<lparr>kern := k, heap := h\<rparr>" using assms(1) unfolding keeps_def by blast
  obtain k' h' where "u = t\<lparr>kern := k', heap := h'\<rparr>" using assms(2) unfolding keeps_def by blast
  with t have "u = s\<lparr>kern := kern u, heap := heap u\<rparr>" by simp
  with assms show ?thesis by (simp add: keeps_def same_objects_def)
qed

lemma keeps_kern [keeps_intros]:
  "same_objects (view (kern s)) (view k) \<Longrightarrow> keeps view n s (s\<lparr>kern := k\<rparr>)"
  by (simp add: keeps_def)

lemma keeps_bump [keeps_intros]: "keeps view n s (bump s)"
  by (simp add: keeps_def same_objects_def bump_def heap_ok_def less_SucI)

lemma keeps_with_block [keeps_intros]:
  "n \<le> brk (heap s) \<Longrightarrow> keeps view n s (with_block (brk (heap s)) blk s)"
  by (auto simp: keeps_def same_objects_def with_block_def heap_ok_def less_SucI)

lemma keeps_release [keeps_intros]: "n \<le> a \<Longrightarrow> keeps view n s (release a s)"
  by (auto simp: keeps_def same_objects_def release_def heap_ok_def)

lemma same_objects_push [simp]: "same_objects v (kv_push q m v)"
  by (auto simp: same_objects_def kv_push_def split: option.splits)

lemma same_objects_refl [simp]: "same_objects v v"
  by (simp add: same_objects_def)

lemma same_objects_upd:
  "kv_queues v q \<noteq> None \<Longrightarrow> same_objects v (v\<lparr>kv_queues := (kv_queues v)(q \<mapsto> x)\<rparr>)"
  by (auto simp: same_objects_def)

text \<open>A queue that exists, whatever it holds.\<close>

abbreviation queue_exists :: "kview \<Rightarrow> qhandle option \<Rightarrow> bool" where
  "queue_exists v q \<equiv> queue_holds (\<lambda>_. True) v q"

lemma queue_holds_driver [simp]: "queue_holds P (v\<lparr>kv_driver := d\<rparr>) q = queue_holds P v q"
  by (simp add: queue_holds_def)

lemma queue_exists_same: "same_objects v w \<Longrightarrow> queue_exists v q \<Longrightarrow> queue_exists w q"
  by (auto simp: queue_holds_def same_objects_def) (metis option.exhaust surj_pair)

section \<open>The handlers\<close>

context rtos_contract
begin

lemma q_send_keeps:
  assumes "queue_exists (view (kern s)) qo"
  shows "\<exists>ok t. q_send R qo m 0 s = Inr (ok, t) \<and> keeps view n s t \<and> heap t = heap s"
  using assms
proof (cases rule: q_send_cases[where m = m])
  case (full k)
  then show ?thesis by (auto intro!: keeps_intros)
next
  case (sent k q cap ms)
  then show ?thesis by (auto intro!: keeps_intros same_objects_upd)
qed

lemma send_ipv4_packet_keeps:
  assumes "queue_exists (view (kern s)) (ipv4_transmit_queue s)" and "cells (heap s) d = Some blk"
    and "ip_data p = Some d" and "n \<le> d"
  shows "\<exists>e t. send_ipv4_packet R p s = Inr (e, t) \<and> keeps view n s t"
proof (rule send_ipv4_packet_cases[OF assms(1-3)])
  fix k q cap ms
  assume "send_ipv4_packet R p s = Inr (ESP_OK, s\<lparr>kern := k\<rparr>)" "kv_queues (view (kern s)) q = Some (cap, ms)"
    "view k = (view (kern s))\<lparr>kv_queues := (kv_queues (view (kern s)))(q \<mapsto> (cap, ms @ [Ipv4Tx p]))\<rparr>"
  then show ?thesis by (auto intro!: keeps_intros same_objects_upd)
next
  fix k
  assume "send_ipv4_packet R p s = Inr (ESP_FAIL, release d (s\<lparr>kern := k\<rparr>))" "view k = view (kern s)"
  moreover from this have "keeps view n s (s\<lparr>kern := k\<rparr>)" by (intro keeps_intros) simp
  ultimately show ?thesis using keeps_trans keeps_release[OF assms(4)] by blast
qed

lemma eth_tx_keeps:
  assumes "heap_ok s" and "unat len \<le> 65521" and "unat len \<le> length payload"
  shows "\<exists>e t. eth_tx R d sr ty payload len s = Inr (e, t) \<and> keeps view n s t"
proof -
  have "keeps view n s ((bump s)\<lparr>kern := snd (esp_wifi_internal_tx R fr (kern s))\<rparr>)" for fr
    by (rule keeps_trans[OF keeps_bump keeps_kern]) (simp add: transmit)
  then show ?thesis
    using assms(2,3) keeps_bump[of view n s]
    by (auto simp: eth_tx_eq[OF assms(1)] split: prod.splits) (metis snd_conv)
qed

lemma arp_input_keeps:
  assumes "heap_ok s" and "queue_exists (view (kern s)) (arp_input_queue s)" and "28 \<le> length buffer"
  shows "\<exists>t. arp_input R buffer len s = Inr t \<and> keeps view n s t"
proof -
  have "\<exists>e t. send_arp_reply R mac ip s = Inr (e, t) \<and> keeps view n s t" for mac ip
    unfolding send_arp_reply_def by (rule eth_tx_keeps[OF assms(1)]) (simp_all add: arp_payload_def)
  moreover have "\<exists>ok t. q_send R (arp_input_queue s) m 0 s = Inr (ok, t) \<and> keeps view n s t" for m
    using q_send_keeps[OF assms(2)] by blast
  ultimately show ?thesis
    using assms(3) by (fastforce simp: arp_input_def Let_def rbind_eq_Inr)
qed

lemma ping_reply_keeps:
  assumes "heap_ok s" and "queue_exists (view (kern s)) (ipv4_transmit_queue s)"
    and "unat data_len \<le> length data" and "unat data_len \<le> 65527" and "n \<le> brk (heap s)"
  shows "\<exists>e t. send_icmpv4_ping_reply R dst i q data data_len s = Inr (e, t) \<and> keeps view n s t"
proof (cases "oom (heap s) (brk (heap s))")
  case True
  then have "send_icmpv4_ping_reply R dst i q data data_len s = Inr (ESP_ERR_NO_MEM, bump s)"
    by (simp add: send_icmpv4_ping_reply_def malloc_with_block)
  then show ?thesis by (auto intro: keeps_intros)
next
  case False
  let ?m = "icmp_message 0 0 i q (take (unat data_len) data)"
  let ?s = "with_block (brk (heap s)) ?m s"
  let ?p = "\<lparr>ip_src_ipv4_addr = nc_ip (self_net s), ip_dst_ipv4_addr = dst, ip_protocol = 1,
    ip_data = Some (brk (heap s)), ip_data_len = 8 + data_len\<rparr>"
  have "\<exists>e t. send_ipv4_packet R ?p ?s = Inr (e, t) \<and> keeps view n ?s t"
    by (rule send_ipv4_packet_keeps[where d = "brk (heap s)" and blk = ?m]) (use assms in simp_all)
  then show ?thesis
    unfolding ping_reply_eq[OF assms(1) False assms(3,4)] using keeps_trans keeps_with_block[OF assms(5)] by blast
qed

lemma icmpv4_input_keeps:
  assumes "heap_ok s" and "queue_exists (view (kern s)) (ipv4_transmit_queue s)"
    and "buffer_len = ntohs (h_total_length (ipv4_header_at (take 20 buffer)))"
    and "unat buffer_len \<le> length buffer" and "n \<le> brk (heap s)"
  shows "\<exists>t. icmpv4_input R buffer buffer_len s = Inr t \<and> keeps view n s t"
proof (cases "buffer_len < 28")
  case True
  then show ?thesis by (simp add: icmpv4_input_def)
next
  case False
  let ?pl = "buffer_len - 20 - 8"
  have b: "28 \<le> unat buffer_len" using False by (simp add: word_less_nat_alt)
  then have pl: "unat ?pl = unat buffer_len - 28" by (simp add: unat_minus_u16)
  have "\<exists>e t. send_icmpv4_ping_reply R dst i q (drop (20 + 8) buffer) ?pl s = Inr (e, t) \<and> keeps view n s t" for dst i q
    using b pl assms(4) unat_less_65536[of buffer_len]
    by (intro ping_reply_keeps[OF assms(1,2) _ _ assms(5)]) (simp_all del: unat_less_65536)
  moreover have "28 \<le> length buffer" using b assms(4) by simp
  ultimately show ?thesis
    using False by (fastforce simp: icmpv4_input_def Let_def rbind_eq_Inr assms(3)[symmetric])
qed

lemma input_tcp_keeps:
  assumes "heap_ok s" and "queue_exists (view (kern s)) (input_queue s)" and "unat len \<le> length buffer"
    and "n \<le> brk (heap s)"
  shows "\<exists>e t. input_tcp R buffer len src s = Inr (e, t) \<and> keeps view n s t"
proof (cases "oom (heap s) (brk (heap s))")
  case True
  then have "input_tcp R buffer len src s = Inr (ESP_ERR_NO_MEM, bump s)"
    by (simp add: input_tcp_def malloc_with_block)
  then show ?thesis by (auto intro: keeps_intros)
next
  case False
  let ?a = "brk (heap s)" and ?bs = "take (unat len) buffer"
  let ?s = "with_block ?a ?bs s"
  let ?m = "TcpInput \<lparr>tin_buffer = Some ?a, tin_length = len, tin_src_ipv4_addr = src\<rparr>"
  have "write_bytes 0 ?bs (map (junk (heap s) ?a) [0..<unat len]) = Inr ?bs"
    using assms(3) by (simp add: write_bytes_front)
  then have run: "input_tcp R buffer len src s = rbind (q_send R (input_queue s) ?m 0 ?s) (\<lambda>(sent, s).
      if \<not> sent then rbind (free (Some ?a) s) (\<lambda>s. Inr (ESP_ERR_NO_MEM, s)) else Inr (ESP_OK, s))"
    using assms(3) False by (simp add: input_tcp_def malloc_with_block)
  obtain ok t where t: "q_send R (input_queue s) ?m 0 ?s = Inr (ok, t)" "keeps view n ?s t" "heap t = heap ?s"
    using q_send_keeps[of ?s "input_queue s" ?m n] assms(2) by auto
  have kt: "keeps view n s t" using keeps_with_block[OF assms(4)] t(2) by (rule keeps_trans)
  moreover have "free (Some ?a) t = Inr (release ?a t)"
    using t(3) by (intro free_release[where b = ?bs]) simp
  moreover have "keeps view n s (release ?a t)" using kt keeps_release[OF assms(4)] by (rule keeps_trans)
  ultimately show ?thesis by (cases ok) (simp_all add: run t(1))
qed

lemma ipv4_input_keeps:
  assumes "heap_ok s" and "queue_exists (view (kern s)) (ipv4_transmit_queue s)"
    and "queue_exists (view (kern s)) (input_queue s)" and "length buffer = unat buffer_len"
    and "\<not> ipv4_overread buffer" and "h_protocol (ipv4_header_at (take 20 buffer)) = 6 \<longrightarrow>
      20 \<le> ntohs (h_total_length (ipv4_header_at (take 20 buffer)))"
    and "n \<le> brk (heap s)"
  shows "\<exists>t. ipv4_input R buffer buffer_len s = Inr t \<and> keeps view n s t"
proof (cases "ipv4_accepts (nc_ip (self_net s)) buffer")
  case False
  with assms(4,5) show ?thesis by (simp add: ipv4_input_eq)
next
  case True
  define h where "h = ipv4_header_at (take 20 buffer)"
  define total where "total = ntohs (h_total_length h)"
  have len: "unat total \<le> length buffer" using True by (simp add: ipv4_accepts_def h_def total_def Let_def)
  have icmp: "\<exists>t. icmpv4_input R buffer total s = Inr t \<and> keeps view n s t"
    by (rule icmpv4_input_keeps[OF assms(1,2) _ len assms(7)]) (simp add: total_def h_def)
  have tcp: "\<exists>e t. input_tcp R (drop 20 buffer) (total - 20) (h_src_ipv4_addr h) s = Inr (e, t) \<and> keeps view n s t"
    if "h_protocol h = 6"
  proof (rule input_tcp_keeps[OF assms(1,3) _ assms(7)])
    have "20 \<le> total" using that assms(6) by (simp add: h_def total_def)
    then show "unat (total - 20) \<le> length (drop 20 buffer)"
      using len by (simp add: unat_minus_u16 word_le_nat_alt)
  qed
  have "ipv4_input R buffer buffer_len s = ipv4_deliver R buffer s" using True assms(4) by (simp add: ipv4_input_eq)
  then show ?thesis
    using icmp tcp by (fastforce simp: ipv4_deliver_def Let_def h_def[symmetric] total_def[symmetric] rbind_eq_Inr)
qed

end

end
