(* ===== verification/Debug_Format.thy ===== *)
theory Debug_Format
  imports Net_Types
begin

text \<open>
  Printing addresses (\<^verbatim>\<open>utility/debug.c\<close>) and the part of \<^verbatim>\<open>stdio.h\<close> that the program uses. A C string is
  the list of its character codes; \<^verbatim>\<open>sprintf\<close> writes it and a terminating zero into the caller's
  buffer, whatever its size, so a buffer that is too short is overrun.
\<close>

section \<open>The conversions of \<^verbatim>\<open>printf\<close>\<close>

definition chars :: "string \<Rightarrow> bytes" where
  "chars cs = map of_char cs"

text \<open>The digit characters of \<^verbatim>\<open>%u\<close> and \<^verbatim>\<open>%x\<close>.\<close>

definition digit_char :: "nat \<Rightarrow> u8" where
  "digit_char d = (if d < 10 then 48 + of_nat d else 87 + of_nat d)"

fun radix :: "nat \<Rightarrow> nat \<Rightarrow> bytes" where
  "radix b n = (if n < b \<or> b < 2 then [digit_char n] else radix b (n div b) @ [digit_char (n mod b)])"

declare radix.simps [simp del]

abbreviation (input) print_u :: "nat \<Rightarrow> bytes" where "print_u \<equiv> radix 10"
abbreviation (input) print_x :: "nat \<Rightarrow> bytes" where "print_x \<equiv> radix 16"

definition sprintf :: "bytes \<Rightarrow> bytes \<Rightarrow> bytes exec" where
  "sprintf buffer text_out = write_bytes 0 (text_out @ [0]) buffer"

section \<open>Model\<close>

fun ipv4_to_readable :: "bytes \<Rightarrow> ipv4_addr \<Rightarrow> bytes exec" where
  "ipv4_to_readable buffer (IPv4 a b c d) =
     sprintf buffer (print_u (unat a) @ chars ''.'' @ print_u (unat b) @ chars ''.'' @ print_u (unat c)
       @ chars ''.'' @ print_u (unat d))"

fun mac_to_readable :: "bytes \<Rightarrow> mac_addr \<Rightarrow> bytes exec" where
  "mac_to_readable buffer (MAC a b c d e f) =
     sprintf buffer (print_x (unat a) @ chars '':'' @ print_x (unat b) @ chars '':'' @ print_x (unat c)
       @ chars '':'' @ print_x (unat d) @ chars '':'' @ print_x (unat e) @ chars '':'' @ print_x (unat f))"

section \<open>Reading the text back\<close>

definition char_digit :: "u8 \<Rightarrow> nat" where
  "char_digit c = (if c < 58 then unat c - 48 else unat c - 87)"

definition read_radix :: "nat \<Rightarrow> bytes \<Rightarrow> nat" where
  "read_radix b cs = fold (\<lambda>c n. n * b + char_digit c) cs 0"

fun split_at :: "u8 \<Rightarrow> bytes \<Rightarrow> bytes list" where
  "split_at sep [] = [[]]"
| "split_at sep (c # cs) =
     (if c = sep then [] # split_at sep cs
      else case split_at sep cs of [] \<Rightarrow> [[c]] | w # ws \<Rightarrow> (c # w) # ws)"

text \<open>The words of a C string between separators, as numbers.\<close>

definition read_fields :: "nat \<Rightarrow> u8 \<Rightarrow> bytes \<Rightarrow> u8 list" where
  "read_fields b sep buffer = map (of_nat \<circ> read_radix b) (split_at sep (takeWhile (\<lambda>c. c \<noteq> 0) buffer))"

lemma unat_digit_char: "d < 36 \<Longrightarrow> unat (digit_char d) = (if d < 10 then 48 + d else 87 + d)"
  by (simp add: digit_char_def unat_word_ariths unat_of_nat)

lemma char_digit_inverse [simp]: "d < 36 \<Longrightarrow> char_digit (digit_char d) = d"
  by (simp add: char_digit_def word_less_nat_alt unat_digit_char)

lemma digit_char_neq:
  assumes "d < 36"
  shows "digit_char d \<noteq> 0" "digit_char d \<noteq> 46" "digit_char d \<noteq> 58"
  using assms by (simp_all add: word_unat_eq_iff unat_digit_char)

lemma read_radix_radix:
  assumes "2 \<le> b" and "b \<le> 36"
  shows "read_radix b (radix b n) = n"
  using assms
proof (induction b n rule: radix.induct)
  case (1 b n)
  show ?case
  proof (cases "n < b")
    case True
    with 1 show ?thesis by (simp add: radix.simps[of b n] read_radix_def)
  next
    case False
    then have "read_radix b (radix b (n div b)) = n div b" using 1 by simp
    moreover have "char_digit (digit_char (n mod b)) = n mod b"
      using 1(2,3) by (simp add: less_le_trans[OF mod_less_divisor])
    ultimately show ?thesis
      using False 1(2) by (simp add: radix.simps[of b n] read_radix_def)
  qed
qed

lemma set_radix:
  assumes "2 \<le> b" and "b \<le> 36" and "c \<in> set (radix b n)"
  shows "\<exists>d<36. c = digit_char d"
  using assms
proof (induction b n rule: radix.induct)
  case (1 b n)
  have "n mod b < 36" using 1(2,3) by (simp add: less_le_trans[OF mod_less_divisor])
  with 1 show ?case
    by (cases "n < b") (auto simp: radix.simps[of b n] intro: less_le_trans)
qed

lemma radix_clean:
  assumes "2 \<le> b" and "b \<le> 36"
  shows "0 \<notin> set (radix b n)" "46 \<notin> set (radix b n)" "58 \<notin> set (radix b n)"
  using set_radix[OF assms] digit_char_neq by metis+

lemma length_radix: "n < b ^ Suc k \<Longrightarrow> 2 \<le> b \<Longrightarrow> length (radix b n) \<le> Suc k"
proof (induction k arbitrary: n)
  case 0
  then show ?case by (simp add: radix.simps[of b n])
next
  case (Suc k)
  then have "n div b < b ^ Suc k" by (simp add: less_mult_imp_div_less mult.commute)
  with Suc show ?case by (simp add: radix.simps[of b n])
qed

lemma radix_nonempty [simp]: "radix b n \<noteq> []"
  by (simp add: radix.simps[of b n])

lemma split_at_word: "sep \<notin> set w \<Longrightarrow> split_at sep w = [w]"
  by (induction w) auto

lemma split_at_append:
  "sep \<notin> set w \<Longrightarrow> split_at sep (w @ sep # rest) = w # split_at sep rest"
  by (induction w) auto

lemma takeWhile_string: "0 \<notin> set cs \<Longrightarrow> takeWhile (\<lambda>c. c \<noteq> (0 :: u8)) (cs @ 0 # rest) = cs"
  by (induction cs) auto

section \<open>Properties\<close>

text \<open>The text of an address, without the terminating zero.\<close>

fun ipv4_text :: "ipv4_addr \<Rightarrow> bytes" where
  "ipv4_text (IPv4 a b c d) =
     print_u (unat a) @ 46 # print_u (unat b) @ 46 # print_u (unat c) @ 46 # print_u (unat d)"

fun mac_text :: "mac_addr \<Rightarrow> bytes" where
  "mac_text (MAC a b c d e f) = print_x (unat a) @ 58 # print_x (unat b) @ 58 # print_x (unat c)
     @ 58 # print_x (unat d) @ 58 # print_x (unat e) @ 58 # print_x (unat f)"

lemma length_print_u: "length (print_u (unat (x :: u8))) \<le> 3"
proof -
  have "unat x < 10 ^ Suc 2" using unat_less_256[of x] by (simp del: unat_less_256)
  then show ?thesis using length_radix[of "unat x" 10 2] by simp
qed

lemma length_print_x: "length (print_x (unat (x :: u8))) \<le> 2"
  using length_radix[of "unat x" 16 1] by simp

lemma length_ipv4_text: "length (ipv4_text a) \<le> 15"
proof (cases a)
  case (IPv4 x1 x2 x3 x4)
  then show ?thesis
    using length_print_u[of x1] length_print_u[of x2] length_print_u[of x3] length_print_u[of x4] by simp
qed

lemma length_mac_text: "length (mac_text m) \<le> 17"
proof (cases m)
  case (MAC x1 x2 x3 x4 x5 x6)
  then show ?thesis
    using length_print_x[of x1] length_print_x[of x2] length_print_x[of x3] length_print_x[of x4]
      length_print_x[of x5] length_print_x[of x6] by simp
qed

lemma ipv4_to_readable_text: "ipv4_to_readable buffer a = sprintf buffer (ipv4_text a)"
  by (cases a) (simp add: chars_def of_char_def)

lemma mac_to_readable_text: "mac_to_readable buffer m = sprintf buffer (mac_text m)"
  by (cases m) (simp add: chars_def of_char_def)

lemma sprintf_fits:
  "length txt < length buffer \<Longrightarrow> sprintf buffer txt = Inr (txt @ 0 # drop (Suc (length txt)) buffer)"
  by (simp add: sprintf_def write_bytes_def)

lemma read_ipv4_text: "read_fields 10 46 (ipv4_text a @ 0 # rest) = ip_bytes a"
proof (cases a)
  case (IPv4 x1 x2 x3 x4)
  have "0 \<notin> set (ipv4_text a)" using IPv4 by (simp add: radix_clean)
  then show ?thesis
    using IPv4 unfolding read_fields_def
    by (simp add: takeWhile_string split_at_append split_at_word radix_clean read_radix_radix del: ipv4_text.simps,
        simp add: split_at_append split_at_word radix_clean read_radix_radix)
qed

lemma read_mac_text: "read_fields 16 58 (mac_text m @ 0 # rest) = mac_bytes m"
proof (cases m)
  case (MAC x1 x2 x3 x4 x5 x6)
  have "0 \<notin> set (mac_text m)" using MAC by (simp add: radix_clean)
  then show ?thesis
    using MAC unfolding read_fields_def
    by (simp add: takeWhile_string del: mac_text.simps,
        simp add: split_at_append split_at_word radix_clean read_radix_radix)
qed

text \<open>
  C39: Printing an address never overruns the buffers the program uses (16 bytes for an IPv4 address, 18
  for a MAC address), whatever they held, and loses nothing: the decimal or hexadecimal numbers between
  the separators of the zero-terminated text are the bytes of the address.
\<close>

theorem readable_addresses:
  assumes "16 \<le> length ip_buffer" and "18 \<le> length mac_buffer"
  shows "(\<exists>t. ipv4_to_readable ip_buffer a = Inr t \<and> length t = length ip_buffer \<and> read_fields 10 46 t = ip_bytes a) \<and>
    (\<exists>t. mac_to_readable mac_buffer m = Inr t \<and> length t = length mac_buffer \<and> read_fields 16 58 t = mac_bytes m)"
proof -
  have "length (ipv4_text a) < length ip_buffer" using length_ipv4_text[of a] assms(1) by linarith
  moreover have "length (mac_text m) < length mac_buffer" using length_mac_text[of m] assms(2) by linarith
  ultimately show ?thesis
    by (simp add: ipv4_to_readable_text mac_to_readable_text sprintf_fits read_ipv4_text read_mac_text, arith)
qed

theorem readable_addresses_witness:
  "\<exists>t. ipv4_to_readable (replicate 16 7) (IPv4 192 168 1 230) = Inr t \<and> read_fields 10 46 t = [192, 168, 1, 230]"
  using readable_addresses[of "replicate 16 7" "replicate 18 7" "IPv4 192 168 1 230" 0] by auto

end
