(* ===== verification/Wifi_Manager.thy ===== *)
theory Wifi_Manager
  imports Rx_Safety Debug_Format
begin

text \<open>
  The Wi-Fi manager (\<^verbatim>\<open>wifi_manager/src/wifi_manager.c\<close>): start-up of the driver and the protocols, the
  event handler, and the receive callback through which every frame enters the stack. The calls of the
  ESP8266 SDK are a parameter \<open>E\<close>, one function per call over the same opaque kernel state as the calls of
  FreeRTOS.
\<close>

section \<open>The SDK\<close>

text \<open>
  The constants of the SDK that the program passes. A function is passed by its C name, the default
  configuration of the driver (a macro of the SDK) is a field of the parameter.
\<close>

datatype esp_interface = ESP_IF_WIFI_STA | ESP_IF_OTHER int
datatype pbuf_mem_type = WIFI_RX_PBUF_DRAM | WIFI_RX_PBUF_OTHER int
datatype wifi_ps_type = WIFI_PS_NONE | WIFI_PS_OTHER int
datatype wifi_mode = WIFI_MODE_STA | WIFI_MODE_OTHER int
datatype wifi_auth_mode = WIFI_AUTH_WPA2_PSK | WIFI_AUTH_OTHER int

record wifi_config =
  sta_ssid :: string
  sta_password :: string
  sta_threshold_authmode :: wifi_auth_mode

record 'k esp_idf =
  nvs_flash_init :: "'k \<Rightarrow> esp_err \<times> 'k"
  esp_event_loop_create_default :: "'k \<Rightarrow> esp_err \<times> 'k"
  mac_init :: "'k \<Rightarrow> esp_err \<times> 'k"
  esp_wifi_set_rx_pbuf_mem_type :: "pbuf_mem_type \<Rightarrow> 'k \<Rightarrow> esp_err \<times> 'k"
  WIFI_INIT_CONFIG_DEFAULT :: bytes
  esp_wifi_init_internal :: "bytes \<Rightarrow> 'k \<Rightarrow> esp_err \<times> 'k"
  esp_supplicant_init :: "'k \<Rightarrow> esp_err \<times> 'k"
  esp_wifi_set_ps :: "wifi_ps_type \<Rightarrow> 'k \<Rightarrow> esp_err \<times> 'k"
  esp_wifi_get_mac :: "esp_interface \<Rightarrow> mac_addr \<Rightarrow> 'k \<Rightarrow> (esp_err \<times> mac_addr) \<times> 'k"
  esp_wifi_set_mode :: "wifi_mode \<Rightarrow> 'k \<Rightarrow> esp_err \<times> 'k"
  esp_wifi_set_config :: "esp_interface \<Rightarrow> wifi_config \<Rightarrow> 'k \<Rightarrow> esp_err \<times> 'k"
  esp_event_handler_register :: "event_base \<Rightarrow> event_id \<Rightarrow> string \<Rightarrow> 'k \<Rightarrow> esp_err \<times> 'k"
  esp_wifi_start :: "'k \<Rightarrow> esp_err \<times> 'k"
  esp_wifi_connect :: "'k \<Rightarrow> esp_err \<times> 'k"
  esp_wifi_internal_reg_rxcb :: "esp_interface \<Rightarrow> string \<Rightarrow> 'k \<Rightarrow> esp_err \<times> 'k"
  esp_wifi_internal_free_rx_buffer :: "nat \<Rightarrow> 'k \<Rightarrow> 'k"

text \<open>
  None of these calls touches the queues, semaphores and notifications of the application. Of the driver,
  reading the hardware address changes nothing and delivers the address of the station when it succeeds,
  a successful registration of a receive callback replaces the one registered before, that of an event
  handler adds it, a failed one changes nothing, and giving back a receive buffer takes it from those
  lent out.
\<close>

definition set_rxcb :: "string \<Rightarrow> kview \<Rightarrow> kview" where
  "set_rxcb f v = v\<lparr>kv_driver := (kv_driver v)\<lparr>wd_rxcb := Some f\<rparr>\<rparr>"

definition add_handler :: "event_base \<times> event_id \<times> string \<Rightarrow> wifi_driver \<Rightarrow> wifi_driver" where
  "add_handler h d = d\<lparr>wd_event_handlers := insert h (wd_event_handlers d)\<rparr>"

definition give_back :: "nat \<Rightarrow> wifi_driver \<Rightarrow> wifi_driver" where
  "give_back eb d = d\<lparr>wd_rx_buffers := (wd_rx_buffers d)(eb := wd_rx_buffers d eb - 1)\<rparr>"

locale esp_contract = rtos_contract R view for R :: "'k rtos" and view :: "'k \<Rightarrow> kview" +
  fixes E :: "'k esp_idf"
  assumes sdk_calls: "view (snd (nvs_flash_init E k)) = view k" "view (snd (esp_event_loop_create_default E k)) = view k"
      "view (snd (mac_init E k)) = view k" "view (snd (esp_wifi_set_rx_pbuf_mem_type E mem k)) = view k"
      "view (snd (esp_wifi_init_internal E cfg k)) = view k" "view (snd (esp_supplicant_init E k)) = view k"
      "view (snd (esp_wifi_set_ps E ps k)) = view k" "view (snd (esp_wifi_set_mode E mode k)) = view k"
      "view (snd (esp_wifi_set_config E i config k)) = view k" "view (snd (esp_wifi_start E k)) = view k"
      "view (snd (esp_wifi_connect E k)) = view k"
    and get_mac: "view (snd (esp_wifi_get_mac E i mac k)) = view k"
    and get_mac_ok: "fst (esp_wifi_get_mac E ESP_IF_WIFI_STA mac k) = (ESP_OK, m) \<Longrightarrow>
      m = wd_mac (kv_driver (view k))"
    and reg_handler: "view (snd (esp_event_handler_register E base ev h k)) =
      (if fst (esp_event_handler_register E base ev h k) = ESP_OK then (view k)\<lparr>kv_driver := add_handler (base, ev, h) (kv_driver (view k))\<rparr>
       else view k)"
    and reg_rxcb: "view (snd (esp_wifi_internal_reg_rxcb E ESP_IF_WIFI_STA h k)) =
      (if fst (esp_wifi_internal_reg_rxcb E ESP_IF_WIFI_STA h k) = ESP_OK then set_rxcb h (view k) else view k)"
    and free_rx_buffer: "view (esp_wifi_internal_free_rx_buffer E eb k) =
      (view k)\<lparr>kv_driver := give_back eb (kv_driver (view k))\<rparr>"

section \<open>State\<close>

record 'k wifi_net = "'k tcp_net" +
  wifi_rx_count :: u32
  wifi_buf_free_enter_count :: u32
  wifi_buf_free_exit_count :: u32
  wifi_buf_freed_count :: u32
  wifi_buf_queue_fail_count :: u32
  wifi_buf_eb_null_count :: u32
  wifi_buf_eb_non_null_count :: u32
  rx_buffer_free_queue :: "qhandle option"
  wifi_net_context :: net_context

type_synonym ('k, 'z) wifi = "('k, 'z) wifi_net_scheme"

record eth_hdr =
  eh_dst_mac :: mac_addr
  eh_src_mac :: mac_addr
  eh_ethertype :: u16

definition eth_hdr_at :: "bytes \<Rightarrow> eth_hdr" where
  "eth_hdr_at b = \<lparr>eh_dst_mac = mac_of_bytes b, eh_src_mac = mac_of_bytes (drop 6 b),
     eh_ethertype = load16_of (drop 12 b)\<rparr>"

text \<open>
  The driver delivers a frame either in a block of the heap, with \<^verbatim>\<open>eb\<close> null, or in memory of its own,
  with a handle \<^verbatim>\<open>eb\<close> to give it back.
\<close>

datatype rx_buffer = RxHeap addr | RxDriver bytes

fun rx_bytes :: "rx_buffer \<Rightarrow> ('k, 'z) base \<Rightarrow> bytes exec" where
  "rx_bytes (RxHeap a) s = heap_tail (Some a) 0 s"
| "rx_bytes (RxDriver bs) s = Inr bs"

fun rx_free :: "rx_buffer \<Rightarrow> ('k, 'z) base \<Rightarrow> ('k, 'z) base exec" where
  "rx_free (RxHeap a) s = free (Some a) s"
| "rx_free (RxDriver bs) s = Inl Fault"

section \<open>Model\<close>

definition wifi_rxcb ::
  "'k rtos \<Rightarrow> 'k esp_idf \<Rightarrow> rx_buffer \<Rightarrow> u16 \<Rightarrow> nat option \<Rightarrow> ('k, 'z) wifi \<Rightarrow> ('k, 'z) wifi exec" where
  "wifi_rxcb R E buffer len eb s =
     rbind (rx_bytes buffer s) (\<lambda>frame.
     rbind (read_bytes frame 0 14) (\<lambda>raw.
     (let hdr = eth_hdr_at raw in
      rbind (mac_to_readable (replicate (12 + 5 + 1) 0) (eh_src_mac hdr)) (\<lambda>readable_src_mac.
      rbind (mac_to_readable (replicate (12 + 5 + 1) 0) (eh_dst_mac hdr)) (\<lambda>readable_dst_mac.
      (let buffer_data = drop 14 frame; buffer_data_len = len - 14 in
       rbind (if ntohs (eh_ethertype hdr) = ARP_ETHERTYPE then arp_input R buffer_data buffer_data_len s
              else if ntohs (eh_ethertype hdr) = IPV4_ETHERTYPE then ipv4_input R buffer_data buffer_data_len s
              else Inr s) (\<lambda>s.
       (let s = s\<lparr>wifi_rx_count := wifi_rx_count s + 1\<rparr>;
            s = (if eb = None then s\<lparr>wifi_buf_eb_null_count := wifi_buf_eb_null_count s + 1\<rparr>
                 else s\<lparr>wifi_buf_eb_non_null_count := wifi_buf_eb_non_null_count s + 1\<rparr>) in
        case eb of
          Some e \<Rightarrow> Inr (s\<lparr>kern := esp_wifi_internal_free_rx_buffer E e (kern s)\<rparr>)
        | None \<Rightarrow> rx_free buffer s))))))))"

text \<open>\<^verbatim>\<open>ESP_ERROR_CHECK(call)\<close> ends the program unless the call returned \<open>ESP_OK\<close>.\<close>

definition sdk :: "('k \<Rightarrow> esp_err \<times> 'k) \<Rightarrow> ('k, 'z) base \<Rightarrow> esp_err \<times> ('k, 'z) base" where
  "sdk f s = (let (e, k) = f (kern s) in (e, s\<lparr>kern := k\<rparr>))"

definition esp_error_check :: "('k \<Rightarrow> esp_err \<times> 'k) \<Rightarrow> ('k, 'z) base \<Rightarrow> ('k, 'z) base exec" where
  "esp_error_check f s = (let (e, s) = sdk f s in if e = ESP_OK then Inr s else Inl Abort)"

definition wifi_event_handler :: "'k esp_idf \<Rightarrow> wifi_event \<Rightarrow> ('k, 'z) base \<Rightarrow> ('k, 'z) base exec" where
  "wifi_event_handler E event_id s =
     (if event_id = WIFI_EVENT_STA_START then esp_error_check (esp_wifi_connect E) s
      else Inr s)"

text \<open>\<^verbatim>\<open>wifi_begin\<close> in three parts: initialise the driver and read the hardware address, \<close>

definition wifi_init_driver :: "'k esp_idf \<Rightarrow> ('k, 'z) wifi \<Rightarrow> ('k, 'z) wifi exec" where
  "wifi_init_driver E s =
     rbind (esp_error_check (nvs_flash_init E) s) (\<lambda>s.
     let cfg = WIFI_INIT_CONFIG_DEFAULT E in
     rbind (esp_error_check (esp_event_loop_create_default E) s) (\<lambda>s.
     (let (_, s) = sdk (mac_init E) s; (_, s) = sdk (esp_wifi_set_rx_pbuf_mem_type E WIFI_RX_PBUF_DRAM) s in
      rbind (esp_error_check (esp_wifi_init_internal E cfg) s) (\<lambda>s.
      rbind (esp_error_check (esp_supplicant_init E) s) (\<lambda>s.
      rbind (esp_error_check (esp_wifi_set_ps E WIFI_PS_NONE) s) (\<lambda>s.
      (let ((e, mac), k) = esp_wifi_get_mac E ESP_IF_WIFI_STA (nc_mac (wifi_net_context s)) (kern s) in
       if e \<noteq> ESP_OK then Inl Abort
       else Inr (s\<lparr>kern := k, wifi_net_context := (wifi_net_context s)\<lparr>nc_mac := mac\<rparr>\<rparr>))))))))"

text \<open>tell the protocols their addresses and start the station, \<close>

definition wifi_start_station :: "'k esp_idf \<Rightarrow> string \<Rightarrow> string \<Rightarrow> ('k, 'z) wifi \<Rightarrow> ('k, 'z) wifi exec" where
  "wifi_start_station E ssid password s =
     (let s = arp_set_local_info (nc_mac (wifi_net_context s)) (nc_ip (wifi_net_context s)) s;
          s = ipv4_set_self_net_context (wifi_net_context s) s;
          s = icmpv4_set_self_net_context (wifi_net_context s) s in
      rbind (esp_error_check (esp_wifi_set_mode E WIFI_MODE_STA) s) (\<lambda>s.
      rbind (esp_error_check (esp_wifi_set_config E ESP_IF_WIFI_STA
        \<lparr>sta_ssid = ssid, sta_password = password, sta_threshold_authmode = WIFI_AUTH_WPA2_PSK\<rparr>) s) (\<lambda>s.
      rbind (esp_error_check (esp_event_handler_register E WIFI_EVENT ESP_EVENT_ANY_ID ''wifi_event_handler'') s) (\<lambda>s.
      esp_error_check (esp_wifi_start E) s))))"

text \<open>initialise the protocols and register the receive callback.\<close>

definition wifi_begin ::
  "'k rtos \<Rightarrow> 'k esp_idf \<Rightarrow> string \<Rightarrow> string \<Rightarrow> ('k, 'z) wifi \<Rightarrow> ('k, 'z) wifi exec" where
  "wifi_begin R E ssid password s =
     rbind (wifi_init_driver E s) (\<lambda>s.
     rbind (wifi_start_station E ssid password s) (\<lambda>s.
     rbind (arp_init R s) (\<lambda>s.
     rbind (ipv4_init R s) (\<lambda>s.
     (let (q, s) = q_create R 16 s; s = s\<lparr>rx_buffer_free_queue := q\<rparr> in
      if q = None then Inr s
      else (let (_, s) = sdk (esp_wifi_internal_reg_rxcb E ESP_IF_WIFI_STA ''wifi_rxcb'') s in Inr s))))))"

section \<open>The receive callback\<close>

text \<open>The state in which frames are received: the queues of the protocols exist.\<close>

definition net_ready :: "('k \<Rightarrow> kview) \<Rightarrow> ('k, 'z) tcp \<Rightarrow> bool" where
  "net_ready view s \<longleftrightarrow> heap_ok s \<and> queue_exists (view (kern s)) (arp_input_queue s) \<and>
     queue_exists (view (kern s)) (ipv4_transmit_queue s) \<and> queue_exists (view (kern s)) (input_queue s)"

text \<open>
  The frames on which the callback stays inside the frame: an ARP packet is complete, the header length
  of an IPv4 packet lies within the frame, and the total length of a TCP packet covers its header.
\<close>

definition frame_safe :: "bytes \<Rightarrow> bool" where
  "frame_safe frame \<longleftrightarrow>
     (let ethertype = ntohs (eh_ethertype (eth_hdr_at (take 14 frame))); packet = drop 14 frame;
          h = ipv4_header_at (take 20 packet) in
      14 \<le> length frame \<and> (ethertype = 0x806 \<longrightarrow> 42 \<le> length frame) \<and>
      (ethertype = 0x800 \<longrightarrow> \<not> ipv4_overread packet \<and>
         (h_protocol h = 6 \<longrightarrow> 20 \<le> ntohs (h_total_length h))))"

lemma mac_to_readable_ok: "\<exists>t. mac_to_readable (replicate 18 0) m = Inr t"
  using length_mac_text[of m] by (simp add: mac_to_readable_text sprintf_fits le_imp_less_Suc)

lemma keeps_record: "keeps view n s t \<Longrightarrow> \<exists>k h. t = s\<lparr>kern := k, heap := h\<rparr>"
  unfolding keeps_def by blast

lemma wifi_keeps:
  assumes "keeps view n (s :: ('k, 'z) wifi) t"
  shows "wifi_rx_count t = wifi_rx_count s" "wifi_buf_eb_null_count t = wifi_buf_eb_null_count s"
    "wifi_buf_eb_non_null_count t = wifi_buf_eb_non_null_count s"
  using keeps_record[OF assms] by auto

lemma net_ready_keeps:
  assumes "keeps view n (s :: ('k, 'z) tcp) t" and "net_ready view s"
  shows "net_ready view t"
proof -
  have "same_objects (view (kern s)) (view (kern t))" "heap_ok t" using assms by (simp_all add: keeps_def net_ready_def)
  moreover have "arp_input_queue t = arp_input_queue s" "input_queue t = input_queue s"
    "ipv4_transmit_queue t = ipv4_transmit_queue s"
    using keeps_record[OF assms(1)] by auto
  ultimately show ?thesis using assms(2) by (simp add: net_ready_def queue_exists_same)
qed

context rtos_contract
begin

lemma dispatch_keeps:
  assumes "net_ready view s" and "frame_safe frame" and "length frame = unat len" and "n \<le> brk (heap s)"
    and "ethertype = ntohs (eh_ethertype (eth_hdr_at (take 14 frame)))"
  shows "\<exists>t. (if ethertype = 0x806 then arp_input R (drop 14 frame) (len - 14) s
       else if ethertype = 0x800 then ipv4_input R (drop 14 frame) (len - 14) s else Inr s) = Inr t \<and>
     keeps view n s t"
proof -
  have len: "14 \<le> length frame" "length (drop 14 frame) = unat (len - 14)"
    using assms(2,3) by (simp_all add: frame_safe_def Let_def unat_minus_u16)
  have "\<exists>t. arp_input R (drop 14 frame) (len - 14) s = Inr t \<and> keeps view n s t" if "ethertype = 0x806"
    by (rule arp_input_keeps)
       (use that assms(1,2,5) in \<open>auto simp: net_ready_def frame_safe_def Let_def\<close>)
  moreover have "\<exists>t. ipv4_input R (drop 14 frame) (len - 14) s = Inr t \<and> keeps view n s t" if "ethertype = 0x800"
    by (rule ipv4_input_keeps[OF _ _ _ len(2) _ _ assms(4)])
       (use that assms(1,2,5) in \<open>simp_all add: net_ready_def frame_safe_def Let_def\<close>)
  ultimately show ?thesis by simp
qed

end

context esp_contract
begin

lemma rxcb_safe:
  assumes "net_ready view s" and "frame_safe frame" and "length frame = unat len"
    and "rx_bytes buffer s = Inr frame" and "eb = None \<longleftrightarrow> (\<exists>a. buffer = RxHeap a)"
  shows "\<exists>s'. wifi_rxcb R E buffer len eb s = Inr s' \<and> net_ready view s' \<and>
     (\<forall>a<brk (heap s). cells (heap s') a = (if buffer = RxHeap a then None else cells (heap s) a)) \<and>
     kv_driver (view (kern s')) =
       (case eb of None \<Rightarrow> kv_driver (view (kern s)) | Some e \<Rightarrow> give_back e (kv_driver (view (kern s)))) \<and>
     wifi_rx_count s' = wifi_rx_count s + 1 \<and>
     wifi_buf_eb_null_count s' = wifi_buf_eb_null_count s + (if eb = None then 1 else 0) \<and>
     wifi_buf_eb_non_null_count s' = wifi_buf_eb_non_null_count s + (if eb = None then 0 else 1)"
proof -
  let ?n = "brk (heap s)" and ?hdr = "eth_hdr_at (take 14 frame)"
  obtain t where t: "(if ntohs (eh_ethertype ?hdr) = 0x806 then arp_input R (drop 14 frame) (len - 14) s
       else if ntohs (eh_ethertype ?hdr) = 0x800 then ipv4_input R (drop 14 frame) (len - 14) s else Inr s) = Inr t"
    and kt: "keeps view ?n s t"
    using dispatch_keeps[OF assms(1-3) order_refl refl] by blast
  note same = wifi_keeps[OF kt] and ready = net_ready_keeps[OF kt assms(1)]
  have old: "\<forall>a<?n. cells (heap t) a = cells (heap s) a" "kv_driver (view (kern t)) = kv_driver (view (kern s))"
    using kt by (simp_all add: keeps_def same_objects_def)
  obtain x y where xy: "mac_to_readable (replicate 18 0) (eh_src_mac ?hdr) = Inr x"
    "mac_to_readable (replicate 18 0) (eh_dst_mac ?hdr) = Inr y"
    using mac_to_readable_ok by metis
  have "14 \<le> length frame" using assms(2) by (simp add: frame_safe_def Let_def)
  then have run: "wifi_rxcb R E buffer len eb s =
      (let s = t\<lparr>wifi_rx_count := wifi_rx_count t + 1\<rparr>;
           s = (if eb = None then s\<lparr>wifi_buf_eb_null_count := wifi_buf_eb_null_count s + 1\<rparr>
                else s\<lparr>wifi_buf_eb_non_null_count := wifi_buf_eb_non_null_count s + 1\<rparr>) in
       case eb of
         Some e \<Rightarrow> Inr (s\<lparr>kern := esp_wifi_internal_free_rx_buffer E e (kern s)\<rparr>)
       | None \<Rightarrow> rx_free buffer s)"
    by (simp add: wifi_rxcb_def assms(4) xy t Let_def)
  show ?thesis
  proof (cases eb)
    case (Some e)
    then have "buffer \<noteq> RxHeap a" for a using assms(5) by blast
    then show ?thesis
      unfolding run using Some old ready by (simp add: Let_def same net_ready_def heap_ok_def free_rx_buffer)
  next
    case None
    then obtain a where a: "buffer = RxHeap a" using assms(5) by blast
    then have live: "cells (heap s) a = Some frame" using assms(4) by (auto simp: heap_tail_def split: option.splits)
    moreover have "a < ?n" using assms(1) live by (auto simp: net_ready_def intro: heap_ok_live)
    ultimately have "cells (heap t) a = Some frame" using old by simp
    then show ?thesis
      unfolding run using None a old ready by (simp add: Let_def same net_ready_def heap_ok_def free_def)
  qed
qed

end

section \<open>A reference SDK and a concrete state\<close>

definition ref_esp :: "refk esp_idf" where
  "ref_esp = \<lparr>nvs_flash_init = Pair ESP_OK, esp_event_loop_create_default = Pair ESP_OK, mac_init = Pair ESP_OK,
     esp_wifi_set_rx_pbuf_mem_type = (\<lambda>_. Pair ESP_OK), WIFI_INIT_CONFIG_DEFAULT = [],
     esp_wifi_init_internal = (\<lambda>_. Pair ESP_OK), esp_supplicant_init = Pair ESP_OK,
     esp_wifi_set_ps = (\<lambda>_. Pair ESP_OK),
     esp_wifi_get_mac = (\<lambda>_ _ k. ((ESP_OK, wd_mac (kv_driver k)), k)),
     esp_wifi_set_mode = (\<lambda>_. Pair ESP_OK), esp_wifi_set_config = (\<lambda>_ _. Pair ESP_OK),
     esp_event_handler_register = (\<lambda>base ev h k. (ESP_OK, k\<lparr>kv_driver := add_handler (base, ev, h) (kv_driver k)\<rparr>)),
     esp_wifi_start = Pair ESP_OK, esp_wifi_connect = Pair ESP_OK,
     esp_wifi_internal_reg_rxcb = (\<lambda>_ h k. (ESP_OK, k\<lparr>kv_driver := (kv_driver k)\<lparr>wd_rxcb := Some h\<rparr>\<rparr>)),
     esp_wifi_internal_free_rx_buffer = (\<lambda>eb k. k\<lparr>kv_driver := give_back eb (kv_driver k)\<rparr>)\<rparr>"

interpretation refe: esp_contract ref_rtos kview.truncate ref_esp
  by unfold_locales
     (auto simp: ref_esp_def kview.truncate_def set_rxcb_def give_back_def)

text \<open>A frame in heap block 0, in the state of the TCP example.\<close>

definition wifi1 :: "bytes \<Rightarrow> tcp_state \<Rightarrow> refk wifi_net" where
  "wifi1 frame st = (tcp_net.extend (tcp1 8 st)
     \<lparr>wifi_rx_count = 0, wifi_buf_free_enter_count = 0, wifi_buf_free_exit_count = 0,
      wifi_buf_freed_count = 0, wifi_buf_queue_fail_count = 0, wifi_buf_eb_null_count = 0, wifi_buf_eb_non_null_count = 0,
      rx_buffer_free_queue = None, wifi_net_context = self_net (tcp1 8 st)\<rparr>)
     \<lparr>heap := heap0\<lparr>cells := [0 \<mapsto> frame], brk := 1\<rparr>\<rparr>"

lemma wifi1_sel [simp]:
  "kern (wifi1 fr st) = kern (tcp1 8 st)" "heap (wifi1 fr st) = heap0\<lparr>cells := [0 \<mapsto> fr], brk := 1\<rparr>"
  "self_net (wifi1 fr st) = self_net (tcp1 8 st)" "ports (wifi1 fr st) = port1 st # replicate 7 port_zero"
  "ipv4_transmit_queue (wifi1 fr st) = Some 2" "arp_input_queue (wifi1 fr st) = Some 1"
  "input_queue (wifi1 fr st) = Some 4" "wifi_rx_count (wifi1 fr st) = 0"
  by (simp_all add: wifi1_def tcp_net.extend_def tcp_state_defs)

lemma net_ready_wifi1 [simp]: "net_ready kview.truncate (wifi1 fr st)"
  by (simp add: net_ready_def heap_ok_def queue_holds_def kview.truncate_def)

section \<open>Properties\<close>

text \<open>
  C1: The receive callback is memory safe and gives every frame back exactly once: in a state in which the
  queues of the protocols exist, every frame on which the handlers stay inside the frame, whatever its
  content, is processed without fault and without blocking; the callback returns to such a state. A frame
  without a driver handle is a heap block, which is freed while the driver keeps all its buffers; with a
  handle, that buffer is given back to the driver, once, and no heap block is freed. No other block that
  existed before changes, nothing else in the driver changes, and the frame is counted once, as one with or
  as one without a handle.
\<close>

theorem wifi_rxcb_safe:
  assumes "esp_contract R view E" and "net_ready view s" and "frame_safe frame" and "length frame = unat len"
    and "rx_bytes buffer s = Inr frame" and "eb = None \<longleftrightarrow> (\<exists>a. buffer = RxHeap a)"
  shows "\<exists>s'. wifi_rxcb R E buffer len eb s = Inr s' \<and> net_ready view s' \<and>
     (\<forall>a<brk (heap s). cells (heap s') a = (if buffer = RxHeap a then None else cells (heap s) a)) \<and>
     kv_driver (view (kern s')) =
       (case eb of None \<Rightarrow> kv_driver (view (kern s)) | Some e \<Rightarrow> give_back e (kv_driver (view (kern s)))) \<and>
     wifi_rx_count s' = wifi_rx_count s + 1 \<and>
     wifi_buf_eb_null_count s' = wifi_buf_eb_null_count s + (if eb = None then 1 else 0) \<and>
     wifi_buf_eb_non_null_count s' = wifi_buf_eb_non_null_count s + (if eb = None then 0 else 1)"
  using assms(2-6) by (rule esp_contract.rxcb_safe[OF assms(1)])

text \<open>A driver buffer, handle 5, with an IPv4 frame that is not for this host.\<close>

definition driver_frame :: bytes where
  "driver_frame = [1, 2, 3, 4, 5, 6, 7, 8, 9, 10, 11, 12, 8, 0, 0x45, 0, 0, 0, 0, 0, 0, 0, 0, 0, 0, 0, 0, 0, 0, 0,
     0, 0, 0, 0] @ replicate 26 0"

theorem wifi_rxcb_safe_witness:
  "\<exists>s'. wifi_rxcb ref_rtos ref_esp (RxDriver driver_frame) 60 (Some 5)
       ((wifi1 [] ESTABLISHED)\<lparr>kern := (kern (wifi1 [] ESTABLISHED))\<lparr>kv_driver :=
          (kv_driver ref_init)\<lparr>wd_rx_buffers := (\<lambda>_. 0)(5 := 1)\<rparr>\<rparr>\<rparr>) = Inr s' \<and>
     wd_rx_buffers (kv_driver (kern s')) 5 = 0 \<and> cells (heap s') 0 = Some [] \<and> wifi_rx_count s' = 1"
  (is "\<exists>s'. wifi_rxcb _ _ _ _ _ ?s = _ \<and> _")
proof -
  have "frame_safe driver_frame"
    unfolding driver_frame_def
    by (simp add: frame_safe_def eth_hdr_at_def Let_def load16_of_def ipv4_overread_def ipv4_header_at_def
        drop_bit_eq_div)
  moreover have "net_ready kview.truncate ?s"
    by (simp add: net_ready_def heap_ok_def queue_holds_def kview.truncate_def)
  moreover have "length driver_frame = unat (60 :: u16)" by (simp add: driver_frame_def)
  ultimately obtain s' where "wifi_rxcb ref_rtos ref_esp (RxDriver driver_frame) 60 (Some 5) ?s = Inr s'"
    "wifi_rx_count s' = wifi_rx_count ?s + 1"
    "\<forall>a<brk (heap ?s). cells (heap s') a = (if RxDriver driver_frame = RxHeap a then None else cells (heap ?s) a)"
    "kv_driver (kview.truncate (kern s')) = give_back 5 (kv_driver (kview.truncate (kern ?s)))"
    using wifi_rxcb_safe[OF refe.esp_contract_axioms, of ?s driver_frame 60 "RxDriver driver_frame" "Some 5"] by auto
  then show ?thesis by (simp add: kview.truncate_def give_back_def)
qed

end
