(* ===== verification/Start_Up.thy ===== *)
theory Start_Up
  imports Wifi_Manager
begin

text \<open>
  Start-up: what holds when \<^verbatim>\<open>wifi_begin\<close> has run \<^verbatim>\<open>arp_init\<close>, \<^verbatim>\<open>ipv4_init\<close> and \<^verbatim>\<open>init_tcp\<close>. Every queue
  handle that is not null refers to an existing queue, at every moment; the addresses are configured once
  and the heap is not used.
\<close>

section \<open>The invariant of start-up\<close>

definition handles :: "('k, 'z) tcp \<Rightarrow> qhandle option list" where
  "handles s = [arp_request_queue s, arp_input_queue s, ipv4_transmit_queue s, send_queue s, input_queue s,
     port_cmd_queue s]"

definition boot_inv :: "('k \<Rightarrow> kview) \<Rightarrow> wifi_driver \<Rightarrow> cheap \<Rightarrow> net_context \<Rightarrow> mac_addr \<times> ipv4_addr \<Rightarrow> ('k, 'z) tcp \<Rightarrow> bool" where
  "boot_inv view d h net loc s \<longleftrightarrow>
     kv_driver (view (kern s)) = d \<and> heap s = h \<and> self_net s = net \<and> (self_mac_addr s, self_ip_addr s) = loc \<and>
     (\<forall>qo\<in>set (handles s). qo = None \<or> queue_exists (view (kern s)) qo)"

definition grows :: "kview \<Rightarrow> kview \<Rightarrow> bool" where
  "grows v w \<longleftrightarrow> (\<forall>q. kv_queues v q \<noteq> None \<longrightarrow> kv_queues w q \<noteq> None) \<and> kv_driver w = kv_driver v"

lemma queue_exists_iff: "queue_exists v qo \<longleftrightarrow> (\<exists>q. qo = Some q \<and> kv_queues v q \<noteq> None)"
  by (auto simp: queue_holds_def)

lemma queue_exists_grows: "grows v w \<Longrightarrow> queue_exists v qo \<Longrightarrow> queue_exists w qo"
  by (auto simp: queue_exists_iff grows_def)

lemma grows_driver: "grows v w \<Longrightarrow> kv_driver w = kv_driver v"
  by (simp add: grows_def)

text \<open>The same queues with another driver.\<close>

lemma boot_inv_driver:
  "boot_inv view d h net loc s \<Longrightarrow> view k = (view (kern s))\<lparr>kv_driver := d'\<rparr> \<Longrightarrow>
   boot_inv view d' h net loc (s\<lparr>kern := k\<rparr>)"
  by (simp add: boot_inv_def handles_def)

lemma boot_inv_kern:
  "boot_inv view d h net loc s \<Longrightarrow> grows (view (kern s)) (view k) \<Longrightarrow> boot_inv view d h net loc (s\<lparr>kern := k\<rparr>)"
  using queue_exists_grows[of "view (kern s)" "view k"] grows_driver[of "view (kern s)" "view k"]
  by (simp add: boot_inv_def handles_def) blast

text \<open>Storing a null or valid handle in one of the globals.\<close>

lemma boot_inv_handle:
  assumes "boot_inv view d h net loc s" and "qo = None \<or> queue_exists (view (kern s)) qo"
  shows "boot_inv view d h net loc (s\<lparr>arp_request_queue := qo\<rparr>)" "boot_inv view d h net loc (s\<lparr>arp_input_queue := qo\<rparr>)"
    "boot_inv view d h net loc (s\<lparr>ipv4_transmit_queue := qo\<rparr>)" "boot_inv view d h net loc (s\<lparr>send_queue := qo\<rparr>)"
    "boot_inv view d h net loc (s\<lparr>input_queue := qo\<rparr>)" "boot_inv view d h net loc (s\<lparr>port_cmd_queue := qo\<rparr>)"
  using assms by (simp_all add: boot_inv_def handles_def)

lemma boot_inv_other:
  assumes "boot_inv view d h net loc s"
  shows "boot_inv view d h net loc (s\<lparr>arp_queue_set := qs\<rparr>)" "boot_inv view d h net loc (s\<lparr>tcp_task_queue_set := qs\<rparr>)"
  using assms by (simp_all add: boot_inv_def handles_def)

text \<open>The three queues of TCP are created by the same steps.\<close>

definition ensure_queue ::
  "'k rtos \<Rightarrow> nat \<Rightarrow> (('k, 'z) tcp \<Rightarrow> qhandle option) \<Rightarrow> (qhandle option \<Rightarrow> ('k, 'z) tcp \<Rightarrow> ('k, 'z) tcp)
    \<Rightarrow> ('k, 'z) tcp \<Rightarrow> (bool \<times> ('k, 'z) tcp) exec" where
  "ensure_queue R n get upd s =
     (if get s = None
      then let (q, s) = q_create R n s; s = upd q s in
           if q = None then Inr (False, s)
           else rbind (qset_add R (get s) (tcp_task_queue_set s) s) (\<lambda>s. Inr (True, s))
      else Inr (True, s))"

definition init_tcp_queues :: "'k rtos \<Rightarrow> ('k, 'z) tcp \<Rightarrow> (esp_err \<times> ('k, 'z) tcp) exec" where
  "init_tcp_queues R s =
     rbind (ensure_queue R 8 send_queue (\<lambda>q s. s\<lparr>send_queue := q\<rparr>) s) (\<lambda>(ok, s).
     if \<not> ok then Inr (ESP_ERR_NO_MEM, s) else
     rbind (ensure_queue R 8 input_queue (\<lambda>q s. s\<lparr>input_queue := q\<rparr>) s) (\<lambda>(ok, s).
     if \<not> ok then Inr (ESP_ERR_NO_MEM, s) else
     rbind (ensure_queue R 4 port_cmd_queue (\<lambda>q s. s\<lparr>port_cmd_queue := q\<rparr>) s) (\<lambda>(ok, s).
     if \<not> ok then Inr (ESP_ERR_NO_MEM, s) else
     (let (xReturned, s) = task_create R ''tcp task'' s in
      if \<not> xReturned then Inr (ESP_ERR_NO_MEM, s) else Inr (ESP_OK, s)))))"

lemma init_tcp_eq:
  "init_tcp R s = init_tcp_queues R (if tcp_task_queue_set s = None
     then let (q, s) = qset_create R 20 s in s\<lparr>tcp_task_queue_set := q\<rparr> else s)"
  unfolding init_tcp_def init_tcp_queues_def ensure_queue_def by (simp only: Let_def)

lemma rbind_guarded:
  assumes "rbind m (\<lambda>(ok, s). if \<not> ok then Inr (x, s) else f s) = Inr (e, t)"
    and "\<And>ok u. m = Inr (ok, u) \<Longrightarrow> I u" and "\<And>u. I u \<Longrightarrow> f u = Inr (e, t) \<Longrightarrow> I t"
  shows "I t"
  using assms by (auto simp: rbind_eq_Inr split: if_split_asm)

context rtos_contract
begin

lemma boot_q_create:
  assumes "boot_inv view d h net loc s" and "q_create R n s = (qo, t)"
  shows "boot_inv view d h net loc t" "qo = None \<or> queue_exists (view (kern t)) qo"
proof -
  obtain k where k: "xQueueCreate R n (kern s) = (qo, k)" "t = s\<lparr>kern := k\<rparr>"
    using assms(2) by (auto simp: q_create_def split: prod.splits)
  have "grows (view (kern s)) (view k) \<and> (qo = None \<or> queue_exists (view k) qo)"
  proof (cases qo)
    case None
    then show ?thesis using create_queue_fail k(1) by (simp add: grows_def)
  next
    case (Some q)
    then show ?thesis using create_queue[of n "kern s" q k] k(1) by (auto simp: grows_def queue_exists_iff)
  qed
  then show "boot_inv view d h net loc t" "qo = None \<or> queue_exists (view (kern t)) qo"
    using assms(1) k(2) by (simp_all add: boot_inv_kern)
qed

lemma boot_same_view:
  "boot_inv view d h net loc s \<Longrightarrow> view k = view (kern s) \<Longrightarrow> boot_inv view d h net loc (s\<lparr>kern := k\<rparr>)"
  by (rule boot_inv_kern) (simp_all add: grows_def)

lemma boot_qset_create:
  assumes "boot_inv view d h net loc s" and "qset_create R n s = (qs, t)"
  shows "boot_inv view d h net loc t"
  using assms create_set[of n "kern s"]
  by (auto simp: qset_create_def split: prod.splits intro!: boot_same_view)

lemma boot_qset_add:
  assumes "boot_inv view d h net loc s" and "qset_add R q qs s = Inr t"
  shows "boot_inv view d h net loc t"
  using assms by (auto simp: qset_add_def add_to_set split: option.splits intro!: boot_same_view)

lemma boot_task_create:
  assumes "boot_inv view d h net loc s" and "task_create R name s = (ok, t)"
  shows "boot_inv view d h net loc t"
  using assms create_task[of name "kern s"]
  by (auto simp: task_create_def grows_def split: prod.splits if_split_asm intro!: boot_inv_kern)

lemma boot_task_create_snd:
  "boot_inv view d h net loc s \<Longrightarrow> boot_inv view d h net loc (snd (task_create R name s))"
  by (rule boot_task_create) (auto intro: prod.collapse[symmetric])

text \<open>Creating a queue set and adding two queues, and creating a queue and adding it to a set.\<close>

lemma boot_arp_set:
  assumes "boot_inv view d h net loc s"
    and "(let (qs, s) = qset_create R 8 s; s = s\<lparr>arp_queue_set := qs\<rparr> in
          if qs \<noteq> None
          then rbind (qset_add R (arp_request_queue s) qs s) (\<lambda>s.
               rbind (qset_add R (arp_input_queue s) qs s) (\<lambda>s. Inr (True, s)))
          else Inr (False, s)) = Inr (ok, t)"
  shows "boot_inv view d h net loc t"
proof -
  obtain qs u where u: "qset_create R 8 s = (qs, u)" by force
  have bu: "boot_inv view d h net loc (u\<lparr>arp_queue_set := qs\<rparr>)"
    using boot_qset_create[OF assms(1) u] by (rule boot_inv_other)
  show ?thesis
  proof (cases "qs = None")
    case True
    with assms(2) u bu show ?thesis by (simp add: Let_def)
  next
    case False
    then obtain v where "qset_add R (arp_request_queue u) qs (u\<lparr>arp_queue_set := qs\<rparr>) = Inr v"
      "qset_add R (arp_input_queue v) qs v = Inr t"
      using assms(2) u by (auto simp: Let_def rbind_eq_Inr)
    then show ?thesis using boot_qset_add[OF boot_qset_add[OF bu]] by blast
  qed
qed

lemma boot_arp_init:
  assumes "boot_inv view d h net loc s" and "arp_init R s = Inr t"
  shows "boot_inv view d h net loc t"
proof -
  define s1 where "s1 = (if arp_request_queue s = None
     then let (q, s) = q_create R 4 s in s\<lparr>arp_request_queue := q\<rparr> else s)"
  define s2 where "s2 = (if arp_input_queue s1 = None
     then let (q, s) = q_create R 4 s1 in s\<lparr>arp_input_queue := q\<rparr> else s1)"
  define m where "m = (if arp_queue_set s2 = None
     then let (qs, s) = qset_create R 8 s2; s = s\<lparr>arp_queue_set := qs\<rparr> in
          if qs \<noteq> None
          then rbind (qset_add R (arp_request_queue s) qs s) (\<lambda>s.
               rbind (qset_add R (arp_input_queue s) qs s) (\<lambda>s. Inr (True, s)))
          else Inr (False, s)
     else Inr (True, s2))"
  have run: "arp_init R s = (if arp_request_queue s1 = None then Inr s1 else if arp_input_queue s2 = None then Inr s2
      else rbind m (\<lambda>(ok, s). if ok then let (xReturned, s) = task_create R ''arp task'' s in Inr s else Inr s))"
    unfolding arp_init_def s1_def s2_def m_def by (simp only: Let_def)
  have b1: "boot_inv view d h net loc s1"
    using assms(1) boot_q_create[OF assms(1)] by (auto simp: s1_def boot_inv_handle split: prod.splits)
  then have b2: "boot_inv view d h net loc s2"
    using boot_q_create[OF b1] by (auto simp: s2_def boot_inv_handle split: prod.splits)
  have b3: "boot_inv view d h net loc u" if "m = Inr (ok, u)" for ok u
    using that b2 boot_arp_set[OF b2, of ok u] by (simp add: m_def split: if_splits)
  show ?thesis
    using assms(2) b1 b2 unfolding run
    by (auto simp: rbind_eq_Inr split: if_splits prod.splits dest!: b3 intro: boot_task_create)
qed

lemma boot_ensure_queue:
  assumes "boot_inv view d h net loc s"
    and "\<And>q t. boot_inv view d h net loc t \<Longrightarrow> q = None \<or> queue_exists (view (kern t)) q \<Longrightarrow>
      boot_inv view d h net loc (upd q t)"
    and "ensure_queue R n get upd s = Inr (ok, t)"
  shows "boot_inv view d h net loc t"
proof (cases "get s = None")
  case True
  obtain q u where u: "q_create R n s = (q, u)" by force
  have bu: "boot_inv view d h net loc (upd q u)" using boot_q_create[OF assms(1) u] by (rule assms(2))
  show ?thesis
  proof (cases "q = None")
    case True
    with assms(3) u bu \<open>get s = None\<close> show ?thesis by (simp add: Let_def ensure_queue_def)
  next
    case False
    then have "qset_add R (get (upd q u)) (tcp_task_queue_set (upd q u)) (upd q u) = Inr t"
      using assms(3) u \<open>get s = None\<close> by (auto simp: Let_def rbind_eq_Inr ensure_queue_def)
    then show ?thesis using boot_qset_add[OF bu] by blast
  qed
next
  case False
  with assms(1,3) show ?thesis by (simp add: ensure_queue_def)
qed

lemma boot_tcp_queue:
  "ensure_queue R n send_queue (\<lambda>q s. s\<lparr>send_queue := q\<rparr>) s = Inr (ok, t) \<Longrightarrow>
   boot_inv view d h net loc s \<Longrightarrow> boot_inv view d h net loc t"
  "ensure_queue R n input_queue (\<lambda>q s. s\<lparr>input_queue := q\<rparr>) s = Inr (ok, t) \<Longrightarrow>
   boot_inv view d h net loc s \<Longrightarrow> boot_inv view d h net loc t"
  "ensure_queue R n port_cmd_queue (\<lambda>q s. s\<lparr>port_cmd_queue := q\<rparr>) s = Inr (ok, t) \<Longrightarrow>
   boot_inv view d h net loc s \<Longrightarrow> boot_inv view d h net loc t"
  by (rule boot_ensure_queue, assumption, erule (1) boot_inv_handle, assumption)+

lemma boot_init_tcp_queues:
  assumes "boot_inv view d h net loc s" and "init_tcp_queues R s = Inr (e, t)"
  shows "boot_inv view d h net loc t"
proof (rule rbind_guarded[OF assms(2)[unfolded init_tcp_queues_def]], rule boot_tcp_queue(1)[OF _ assms(1)], assumption,
    erule rbind_guarded, erule (1) boot_tcp_queue(2), erule rbind_guarded, erule (1) boot_tcp_queue(3))
  fix u assume "boot_inv view d h net loc u" and "(let (xReturned, s) = task_create R ''tcp task'' u in
      if \<not> xReturned then Inr (ESP_ERR_NO_MEM, s) else Inr (ESP_OK, s)) = Inr (e, t)"
  then show "boot_inv view d h net loc t"
    by (auto simp: case_prod_beta split: if_split_asm intro: boot_task_create_snd)
qed

lemma boot_init_tcp:
  assumes "boot_inv view d h net loc s" and "init_tcp R s = Inr (e, t)"
  shows "boot_inv view d h net loc t"
proof -
  have "boot_inv view d h net loc (if tcp_task_queue_set s = None
     then let (q, s) = qset_create R 20 s in s\<lparr>tcp_task_queue_set := q\<rparr> else s)"
    using assms(1) boot_qset_create[OF assms(1)] by (auto simp: boot_inv_other split: prod.splits)
  then show ?thesis using assms(2) unfolding init_tcp_eq by (rule boot_init_tcp_queues)
qed

lemma boot_ipv4_init:
  assumes "boot_inv view d h net loc s" and "ipv4_init R s = Inr t"
  shows "boot_inv view d h net loc t"
proof -
  define s1 where "s1 = (if ipv4_transmit_queue s = None
     then let (q, s) = q_create R 4 s in s\<lparr>ipv4_transmit_queue := q\<rparr> else s)"
  have "boot_inv view d h net loc s1"
    using assms(1) boot_q_create[OF assms(1)] by (auto simp: s1_def boot_inv_handle split: prod.splits)
  then show ?thesis
    using assms(2) unfolding ipv4_init_def Let_def s1_def[symmetric, unfolded Let_def]
    by (auto simp: rbind_eq_Inr case_prod_beta split: if_split_asm dest: boot_init_tcp[OF boot_task_create_snd]
        intro: boot_task_create_snd)
qed

end

section \<open>Starting the driver\<close>

text \<open>The invariant together with the network context of the manager.\<close>

definition up_inv ::
  "('k \<Rightarrow> kview) \<Rightarrow> wifi_driver \<Rightarrow> cheap \<Rightarrow> net_context \<Rightarrow> mac_addr \<times> ipv4_addr \<Rightarrow> net_context \<Rightarrow> ('k, 'z) wifi
    \<Rightarrow> bool" where
  "up_inv view d h net loc ctx s \<longleftrightarrow> boot_inv view d h net loc s \<and> wifi_net_context s = ctx"

lemma rbind_elim:
  assumes "rbind m f = Inr t" and "\<And>u. m = Inr u \<Longrightarrow> I u" and "\<And>u. I u \<Longrightarrow> f u = Inr t \<Longrightarrow> P"
  shows P
  using assms by (auto simp: rbind_eq_Inr)

context esp_contract
begin

lemma up_sdk:
  assumes "up_inv view d h net loc ctx s" and "\<And>k. view (snd (f k)) = view k"
  shows "up_inv view d h net loc ctx (snd (sdk f s))"
  using assms by (auto simp: up_inv_def sdk_def case_prod_beta intro!: boot_same_view)

lemma up_check:
  assumes "esp_error_check f s = Inr t" and "up_inv view d h net loc ctx s" and "\<And>k. view (snd (f k)) = view k"
  shows "up_inv view d h net loc ctx t"
  using up_sdk[OF assms(2,3)] assms(1) by (auto simp: esp_error_check_def case_prod_beta split: if_split_asm)

text \<open>A registration changes one field of the driver and no queue.\<close>

lemma up_handler:
  assumes "esp_error_check (esp_event_handler_register E base ev f) s = Inr t" and "up_inv view d h net loc ctx s"
  shows "up_inv view (add_handler (base, ev, f) d) h net loc ctx t"
proof -
  let ?r = "esp_event_handler_register E base ev f (kern s)"
  have t: "fst ?r = ESP_OK" "t = s\<lparr>kern := snd ?r\<rparr>"
    using assms(1) by (auto simp: esp_error_check_def sdk_def case_prod_beta split: if_split_asm)
  have "boot_inv view (add_handler (base, ev, f) d) h net loc (s\<lparr>kern := snd ?r\<rparr>)"
    using assms(2) t(1) by (intro boot_inv_driver) (simp_all add: up_inv_def boot_inv_def reg_handler)
  then show ?thesis using assms(2) t(2) by (simp add: up_inv_def)
qed

lemma up_rxcb:
  assumes "boot_inv view d h net loc s"
  shows "\<exists>d'. boot_inv view d' h net loc (snd (sdk (esp_wifi_internal_reg_rxcb E ESP_IF_WIFI_STA f) s))"
proof (cases "fst (esp_wifi_internal_reg_rxcb E ESP_IF_WIFI_STA f (kern s)) = ESP_OK")
  case True
  then have "view (snd (esp_wifi_internal_reg_rxcb E ESP_IF_WIFI_STA f (kern s))) =
      (view (kern s))\<lparr>kv_driver := (kv_driver (view (kern s)))\<lparr>wd_rxcb := Some f\<rparr>\<rparr>"
    by (simp add: reg_rxcb set_rxcb_def)
  from boot_inv_driver[OF assms this] show ?thesis by (auto simp: sdk_def case_prod_beta)
next
  case False
  then have "view (snd (esp_wifi_internal_reg_rxcb E ESP_IF_WIFI_STA f (kern s))) = view (kern s)" by (simp add: reg_rxcb)
  from boot_same_view[OF assms this] show ?thesis by (auto simp: sdk_def case_prod_beta)
qed

lemma up_get_mac:
  assumes "up_inv view d h net loc ctx u"
  shows "up_inv view d h net loc (ctx\<lparr>nc_mac := mac\<rparr>) (u\<lparr>kern := snd (esp_wifi_get_mac E i m (kern u)),
    wifi_net_context := (wifi_net_context u)\<lparr>nc_mac := mac\<rparr>\<rparr>)"
proof -
  have "boot_inv view d h net loc (u\<lparr>kern := snd (esp_wifi_get_mac E i m (kern u))\<rparr>)"
    using assms by (intro boot_same_view) (simp_all add: up_inv_def get_mac)
  then show ?thesis using assms by (simp add: up_inv_def boot_inv_def handles_def)
qed

lemma up_mac_step:
  assumes "(let ((e, mac), k) = esp_wifi_get_mac E ESP_IF_WIFI_STA (nc_mac (wifi_net_context u)) (kern u) in
       if e \<noteq> ESP_OK then Inl Abort
       else Inr (u\<lparr>kern := k, wifi_net_context := (wifi_net_context u)\<lparr>nc_mac := mac\<rparr>\<rparr>)) = Inr t"
    and "up_inv view d h net loc ctx u"
  shows "up_inv view d h net loc (ctx\<lparr>nc_mac := wd_mac d\<rparr>) t"
proof -
  let ?r = "esp_wifi_get_mac E ESP_IF_WIFI_STA (nc_mac (wifi_net_context u)) (kern u)"
  from assms(1) have t: "fst ?r = (ESP_OK, snd (fst ?r))"
    "t = u\<lparr>kern := snd ?r, wifi_net_context := (wifi_net_context u)\<lparr>nc_mac := snd (fst ?r)\<rparr>\<rparr>"
    by (auto simp: Let_def case_prod_beta prod_eq_iff split: if_split_asm)
  have "snd (fst ?r) = wd_mac d" using get_mac_ok[OF t(1)] assms(2) by (simp add: up_inv_def boot_inv_def)
  then show ?thesis using up_get_mac[OF assms(2)] t(2) by simp
qed

lemma up_init_driver:
  assumes "wifi_init_driver E s = Inr t" and "up_inv view d h net loc ctx s"
  shows "up_inv view d h net loc (ctx\<lparr>nc_mac := wd_mac d\<rparr>) t"
  by (rule rbind_elim[OF assms(1)[unfolded wifi_init_driver_def, unfolded Let_def, unfolded case_prod_beta]],
    erule up_check, rule assms(2), simp add: sdk_calls,
    erule rbind_elim, erule (1) up_check, simp add: sdk_calls,
    erule rbind_elim, erule up_check, intro up_sdk, assumption,
    (simp add: sdk_calls)+,
    erule rbind_elim, erule (1) up_check, simp add: sdk_calls,
    erule rbind_elim, erule (1) up_check, simp add: sdk_calls,
    rule up_mac_step, simp add: Let_def case_prod_beta, assumption)

lemma up_start_station:
  assumes "wifi_start_station E ssid password s = Inr t" and "up_inv view d h net loc ctx s"
  shows "up_inv view (add_handler (WIFI_EVENT, ESP_EVENT_ANY_ID, ''wifi_event_handler'') d) h ctx (nc_mac ctx, nc_ip ctx) ctx t"
proof -
  define u where "u = icmpv4_set_self_net_context ctx (ipv4_set_self_net_context ctx
    (arp_set_local_info (nc_mac ctx) (nc_ip ctx) s))"
  have c: "wifi_net_context s = ctx" using assms(2) by (simp add: up_inv_def)
  have u: "up_inv view d h ctx (nc_mac ctx, nc_ip ctx) ctx u"
    using assms(2) by (simp add: u_def up_inv_def boot_inv_def handles_def icmpv4_set_self_net_context_def
        ipv4_set_self_net_context_def arp_set_local_info_def)
  have run: "rbind (esp_error_check (esp_wifi_set_mode E WIFI_MODE_STA) u) (\<lambda>s.
      rbind (esp_error_check (esp_wifi_set_config E ESP_IF_WIFI_STA
        \<lparr>sta_ssid = ssid, sta_password = password, sta_threshold_authmode = WIFI_AUTH_WPA2_PSK\<rparr>) s) (\<lambda>s.
      rbind (esp_error_check (esp_event_handler_register E WIFI_EVENT ESP_EVENT_ANY_ID ''wifi_event_handler'') s) (\<lambda>s.
      esp_error_check (esp_wifi_start E) s))) = Inr t"
    using assms(1) c by (simp add: wifi_start_station_def Let_def u_def arp_set_local_info_def
        ipv4_set_self_net_context_def icmpv4_set_self_net_context_def)
  show ?thesis
    by (rule rbind_elim[OF run], erule up_check, rule u, simp add: sdk_calls,
      erule rbind_elim, erule (1) up_check, simp add: sdk_calls,
      erule rbind_elim, erule (1) up_handler,
      erule (1) up_check, simp add: sdk_calls)
qed

text \<open>What holds however far the initialisation of the protocols came.\<close>

lemma up_begin:
  assumes "wifi_begin R E ssid password s = Inr t" and "up_inv view d h net loc ctx s"
  shows "\<exists>d'. boot_inv view d' h (ctx\<lparr>nc_mac := wd_mac d\<rparr>) (wd_mac d, nc_ip ctx) t"
proof -
  let ?d = "add_handler (WIFI_EVENT, ESP_EVENT_ANY_ID, ''wifi_event_handler'') d" and ?ctx = "ctx\<lparr>nc_mac := wd_mac d\<rparr>"
  obtain u1 u2 u3 u4 where u: "wifi_init_driver E s = Inr u1" "wifi_start_station E ssid password u1 = Inr u2"
    "arp_init R u2 = Inr u3" "ipv4_init R u3 = Inr u4"
    and last: "(let (q, s) = q_create R 16 u4; s = s\<lparr>rx_buffer_free_queue := q\<rparr> in
      if q = None then Inr s
      else (let (_, s) = sdk (esp_wifi_internal_reg_rxcb E ESP_IF_WIFI_STA ''wifi_rxcb'') s in Inr s)) = (Inr t :: _ exec)"
    using assms(1) unfolding wifi_begin_def rbind_eq_Inr by blast
  have "up_inv view ?d h ?ctx (nc_mac ?ctx, nc_ip ?ctx) ?ctx u2"
    by (rule up_start_station[OF u(2) up_init_driver[OF u(1) assms(2)]])
  then have b4: "boot_inv view ?d h ?ctx (wd_mac d, nc_ip ctx) u4"
    using u(3,4) boot_arp_init boot_ipv4_init by (fastforce simp: up_inv_def)
  obtain q v where v: "q_create R 16 u4 = (q, v)" by force
  let ?v = "v\<lparr>rx_buffer_free_queue := q\<rparr>"
  have "boot_inv view ?d h ?ctx (wd_mac d, nc_ip ctx) ?v"
    using boot_q_create(1)[OF b4 v] by (simp add: boot_inv_def handles_def)
  moreover from up_rxcb[OF this, of "''wifi_rxcb''"] have "\<exists>d'. boot_inv view d' h ?ctx
      (wd_mac d, nc_ip ctx) (snd (sdk (esp_wifi_internal_reg_rxcb E ESP_IF_WIFI_STA ''wifi_rxcb'') ?v))" .
  ultimately show ?thesis
    using last v by (auto simp: Let_def case_prod_beta split: if_split_asm)
qed

end

section \<open>A start-up in which every call succeeds\<close>

text \<open>
  \<open>M\<close> holds of the kernel states in which there is memory left and the driver works: every call of
  start-up succeeds there and leads to such a state again.
\<close>

definition succeeds :: "('k \<Rightarrow> bool) \<Rightarrow> ('k \<Rightarrow> 'r \<times> 'k) \<Rightarrow> ('r \<Rightarrow> bool) \<Rightarrow> bool" where
  "succeeds M f ok \<longleftrightarrow> (\<forall>k. M k \<longrightarrow> ok (fst (f k)) \<and> M (snd (f k)))"

abbreviation sdk_succeeds :: "('k \<Rightarrow> bool) \<Rightarrow> ('k \<Rightarrow> esp_err \<times> 'k) \<Rightarrow> bool" where
  "sdk_succeeds M f \<equiv> succeeds M f (\<lambda>e. e = ESP_OK)"

definition boots :: "'k rtos \<Rightarrow> 'k esp_idf \<Rightarrow> ('k \<Rightarrow> bool) \<Rightarrow> bool" where
  "boots R E M \<longleftrightarrow>
     (\<forall>n. succeeds M (xQueueCreate R n) (\<lambda>q. q \<noteq> None)) \<and> (\<forall>n. succeeds M (xQueueCreateSet R n) (\<lambda>q. q \<noteq> None)) \<and>
     (\<forall>q qs k. M k \<longrightarrow> M (xQueueAddToSet R q qs k)) \<and> (\<forall>name. succeeds M (xTaskCreate R name) (\<lambda>ok. ok)) \<and>
     (\<forall>i m. succeeds M (esp_wifi_get_mac E i m) (\<lambda>(e, _). e = ESP_OK)) \<and>
     sdk_succeeds M (nvs_flash_init E) \<and> sdk_succeeds M (esp_event_loop_create_default E) \<and>
     sdk_succeeds M (mac_init E) \<and> (\<forall>mem. sdk_succeeds M (esp_wifi_set_rx_pbuf_mem_type E mem)) \<and>
     (\<forall>cfg. sdk_succeeds M (esp_wifi_init_internal E cfg)) \<and> sdk_succeeds M (esp_supplicant_init E) \<and>
     (\<forall>ps. sdk_succeeds M (esp_wifi_set_ps E ps)) \<and> (\<forall>mode. sdk_succeeds M (esp_wifi_set_mode E mode)) \<and>
     (\<forall>i config. sdk_succeeds M (esp_wifi_set_config E i config)) \<and>
     (\<forall>base ev h. sdk_succeeds M (esp_event_handler_register E base ev h)) \<and> sdk_succeeds M (esp_wifi_start E) \<and>
     (\<forall>i h. sdk_succeeds M (esp_wifi_internal_reg_rxcb E i h))"

lemma boots_calls:
  assumes "boots R E M"
  shows "succeeds M (xQueueCreate R n) (\<lambda>q. q \<noteq> None)" "succeeds M (xQueueCreateSet R n) (\<lambda>q. q \<noteq> None)"
    "succeeds M (xTaskCreate R name) (\<lambda>ok. ok)" "succeeds M (esp_wifi_get_mac E i m) (\<lambda>(e, _). e = ESP_OK)"
    "sdk_succeeds M (nvs_flash_init E)" "sdk_succeeds M (esp_event_loop_create_default E)"
    "sdk_succeeds M (mac_init E)" "sdk_succeeds M (esp_wifi_set_rx_pbuf_mem_type E mem)"
    "sdk_succeeds M (esp_wifi_init_internal E cfg)" "sdk_succeeds M (esp_supplicant_init E)"
    "sdk_succeeds M (esp_wifi_set_ps E ps)" "sdk_succeeds M (esp_wifi_set_mode E mode)"
    "sdk_succeeds M (esp_wifi_set_config E i config)" "sdk_succeeds M (esp_event_handler_register E base ev h)"
    "sdk_succeeds M (esp_wifi_start E)" "sdk_succeeds M (esp_wifi_internal_reg_rxcb E i h)"
  using assms unfolding boots_def by blast+

lemma succeedsD: "succeeds M f ok \<Longrightarrow> M k \<Longrightarrow> ok (fst (f k)) \<and> M (snd (f k))"
  by (simp add: succeeds_def)

text \<open>The tasks and the driver of a state, and that its kernel can go on.\<close>

definition alive :: "('k \<Rightarrow> kview) \<Rightarrow> ('k \<Rightarrow> bool) \<Rightarrow> string list \<Rightarrow> wifi_driver \<Rightarrow> ('k, 'z) base \<Rightarrow> bool" where
  "alive view M ts d s \<longleftrightarrow> M (kern s) \<and> kv_tasks (view (kern s)) = ts \<and> kv_driver (view (kern s)) = d"

context rtos_contract
begin

lemma live_q_create:
  assumes "boots R E M" and "alive view M ts d s"
  shows "\<exists>q k. q_create R n s = (Some q, s\<lparr>kern := k\<rparr>) \<and> alive view M ts d (s\<lparr>kern := k\<rparr>)"
proof -
  have k: "fst (xQueueCreate R n (kern s)) \<noteq> None" "M (snd (xQueueCreate R n (kern s)))"
    using assms(2) succeedsD[OF boots_calls(1)[OF assms(1)], of "kern s"] by (simp_all add: alive_def)
  then obtain q k where q: "xQueueCreate R n (kern s) = (Some q, k)" by (metis not_None_eq prod.collapse)
  then show ?thesis
    using assms(2) k(2) create_queue[OF q] by (intro exI[of _ q] exI[of _ k]) (simp add: q_create_def alive_def)
qed

lemma live_qset_create:
  assumes "boots R E M" and "alive view M ts d s"
  shows "\<exists>q k. qset_create R n s = (Some q, s\<lparr>kern := k\<rparr>) \<and> alive view M ts d (s\<lparr>kern := k\<rparr>)"
proof -
  have k: "fst (xQueueCreateSet R n (kern s)) \<noteq> None" "M (snd (xQueueCreateSet R n (kern s)))"
    using assms(2) succeedsD[OF boots_calls(2)[OF assms(1)], of "kern s"] by (simp_all add: alive_def)
  then obtain q k where q: "xQueueCreateSet R n (kern s) = (Some q, k)" by (metis not_None_eq prod.collapse)
  then show ?thesis
    using assms(2) k(2) create_set[of n "kern s"]
    by (intro exI[of _ q] exI[of _ k]) (simp add: qset_create_def alive_def)
qed

lemma live_qset_add:
  assumes "boots R E M" and "alive view M ts d s"
  shows "\<exists>k. qset_add R (Some q) (Some qs) s = Inr (s\<lparr>kern := k\<rparr>) \<and> alive view M ts d (s\<lparr>kern := k\<rparr>)"
  using assms
  by (intro exI[of _ "xQueueAddToSet R q qs (kern s)"]) (simp add: qset_add_def alive_def add_to_set boots_def)

lemma live_task_create:
  assumes "boots R E M" and "alive view M ts d s"
  shows "\<exists>k. task_create R name s = (True, s\<lparr>kern := k\<rparr>) \<and> alive view M (ts @ [name]) d (s\<lparr>kern := k\<rparr>)"
proof -
  have "fst (xTaskCreate R name (kern s))" "M (snd (xTaskCreate R name (kern s)))"
    using assms(2) succeedsD[OF boots_calls(3)[OF assms(1)], of "kern s"] by (simp_all add: alive_def)
  then show ?thesis
    using assms(2) create_task[of name "kern s"]
    by (intro exI[of _ "snd (xTaskCreate R name (kern s))"]) (simp add: task_create_def alive_def case_prod_beta)
qed

lemma live_arp_init:
  assumes "boots R E M" and "alive view M ts d s" and "arp_request_queue s = None" and "arp_input_queue s = None"
    and "arp_queue_set s = None"
  shows "\<exists>k a b c. arp_init R s = Inr (s\<lparr>kern := k, arp_request_queue := Some a, arp_input_queue := Some b,
      arp_queue_set := Some c\<rparr>) \<and> alive view M (ts @ [''arp task'']) d (s\<lparr>kern := k\<rparr>)"
proof -
  obtain a k1 where 1: "q_create R 4 s = (Some a, s\<lparr>kern := k1\<rparr>)" "alive view M ts d (s\<lparr>kern := k1\<rparr>)"
    using live_q_create[OF assms(1,2)] by blast
  let ?s1 = "s\<lparr>kern := k1, arp_request_queue := Some a\<rparr>"
  have "alive view M ts d ?s1" using 1(2) by (simp add: alive_def)
  then obtain b k2 where 2: "q_create R 4 ?s1 = (Some b, ?s1\<lparr>kern := k2\<rparr>)" "alive view M ts d (?s1\<lparr>kern := k2\<rparr>)"
    using live_q_create[OF assms(1)] by blast
  let ?s2 = "?s1\<lparr>kern := k2, arp_input_queue := Some b\<rparr>"
  have "alive view M ts d ?s2" using 2(2) by (simp add: alive_def)
  then obtain c k3 where 3: "qset_create R 8 ?s2 = (Some c, ?s2\<lparr>kern := k3\<rparr>)" "alive view M ts d (?s2\<lparr>kern := k3\<rparr>)"
    using live_qset_create[OF assms(1)] by blast
  let ?s3 = "?s2\<lparr>kern := k3, arp_queue_set := Some c\<rparr>"
  have "alive view M ts d ?s3" using 3(2) by (simp add: alive_def)
  then obtain k4 where 4: "qset_add R (Some a) (Some c) ?s3 = Inr (?s3\<lparr>kern := k4\<rparr>)" "alive view M ts d (?s3\<lparr>kern := k4\<rparr>)"
    using live_qset_add[OF assms(1)] by blast
  then obtain k5 where 5: "qset_add R (Some b) (Some c) (?s3\<lparr>kern := k4\<rparr>) = Inr (?s3\<lparr>kern := k5\<rparr>)"
    "alive view M ts d (?s3\<lparr>kern := k5\<rparr>)"
    using live_qset_add[OF assms(1) 4(2)] by fastforce
  then obtain k6 where 6: "task_create R ''arp task'' (?s3\<lparr>kern := k5\<rparr>) = (True, ?s3\<lparr>kern := k6\<rparr>)"
    "alive view M (ts @ [''arp task'']) d (?s3\<lparr>kern := k6\<rparr>)"
    using live_task_create[OF assms(1) 5(2)] by fastforce
  show ?thesis
    using 1(1) 2(1) 3(1) 4(1) 5(1) 6 assms(3-5)
    by (intro exI[of _ k6] exI[of _ a] exI[of _ b] exI[of _ c]) (simp add: arp_init_def alive_def)
qed

lemma live_ensure_queue:
  assumes "boots R E M" and "alive view M ts d s" and "get s = None" and "tcp_task_queue_set s = Some c"
    and upd: "\<And>q t. get (upd q t) = q" "\<And>q t. tcp_task_queue_set (upd q t) = tcp_task_queue_set t"
      "\<And>q t. kern (upd q t) = kern t" "\<And>q t k. upd q (t\<lparr>kern := k\<rparr>) = (upd q t)\<lparr>kern := k\<rparr>"
  shows "\<exists>q k. ensure_queue R n get upd s = Inr (True, (upd (Some q) s)\<lparr>kern := k\<rparr>) \<and>
     alive view M ts d (s\<lparr>kern := k\<rparr>)"
proof -
  obtain q k1 where 1: "q_create R n s = (Some q, s\<lparr>kern := k1\<rparr>)" "alive view M ts d (s\<lparr>kern := k1\<rparr>)"
    using live_q_create[OF assms(1,2)] by blast
  let ?s = "upd (Some q) (s\<lparr>kern := k1\<rparr>)"
  have "alive view M ts d ?s" using 1(2) upd(3) by (simp add: alive_def)
  then obtain k2 where 2: "qset_add R (Some q) (Some c) ?s = Inr (?s\<lparr>kern := k2\<rparr>)" "alive view M ts d (?s\<lparr>kern := k2\<rparr>)"
    using live_qset_add[OF assms(1)] by blast
  show ?thesis
    using 1(1) 2 assms(3,4) upd
    by (intro exI[of _ q] exI[of _ k2]) (simp add: ensure_queue_def alive_def)
qed

lemma live_init_tcp:
  assumes "boots R E M" and "alive view M ts d s" and "tcp_task_queue_set s = None"
    and "send_queue s = None" and "input_queue s = None" and "port_cmd_queue s = None"
  shows "\<exists>k a b c e. init_tcp R s = Inr (ESP_OK, s\<lparr>tcp_task_queue_set := Some e, send_queue := Some a,
      input_queue := Some b, port_cmd_queue := Some c, kern := k\<rparr>) \<and> alive view M (ts @ [''tcp task'']) d (s\<lparr>kern := k\<rparr>)"
proof -
  obtain e k0 where 0: "qset_create R 20 s = (Some e, s\<lparr>kern := k0\<rparr>)" "alive view M ts d (s\<lparr>kern := k0\<rparr>)"
    using live_qset_create[OF assms(1,2)] by blast
  let ?s0 = "s\<lparr>kern := k0, tcp_task_queue_set := Some e\<rparr>"
  have a0: "alive view M ts d ?s0" using 0(2) by (simp add: alive_def)
  obtain a k1 where 1: "ensure_queue R 8 send_queue (\<lambda>q s. s\<lparr>send_queue := q\<rparr>) ?s0 =
      Inr (True, ?s0\<lparr>send_queue := Some a, kern := k1\<rparr>)" "alive view M ts d (?s0\<lparr>kern := k1\<rparr>)"
    using live_ensure_queue[OF assms(1) a0, of send_queue e "\<lambda>q s. s\<lparr>send_queue := q\<rparr>" 8] assms(4) by auto
  let ?s1 = "?s0\<lparr>send_queue := Some a, kern := k1\<rparr>"
  have a1: "alive view M ts d ?s1" using 1(2) by (simp add: alive_def)
  obtain b k2 where 2: "ensure_queue R 8 input_queue (\<lambda>q s. s\<lparr>input_queue := q\<rparr>) ?s1 =
      Inr (True, ?s1\<lparr>input_queue := Some b, kern := k2\<rparr>)" "alive view M ts d (?s1\<lparr>kern := k2\<rparr>)"
    using live_ensure_queue[OF assms(1) a1, of input_queue e "\<lambda>q s. s\<lparr>input_queue := q\<rparr>" 8] assms(5) by auto
  let ?s2 = "?s1\<lparr>input_queue := Some b, kern := k2\<rparr>"
  have a2: "alive view M ts d ?s2" using 2(2) by (simp add: alive_def)
  obtain c k3 where 3: "ensure_queue R 4 port_cmd_queue (\<lambda>q s. s\<lparr>port_cmd_queue := q\<rparr>) ?s2 =
      Inr (True, ?s2\<lparr>port_cmd_queue := Some c, kern := k3\<rparr>)" "alive view M ts d (?s2\<lparr>kern := k3\<rparr>)"
    using live_ensure_queue[OF assms(1) a2, of port_cmd_queue e "\<lambda>q s. s\<lparr>port_cmd_queue := q\<rparr>" 4] assms(6) by auto
  let ?s3 = "?s2\<lparr>port_cmd_queue := Some c, kern := k3\<rparr>"
  have "alive view M ts d ?s3" using 3(2) by (simp add: alive_def)
  then obtain k4 where 4: "task_create R ''tcp task'' ?s3 = (True, ?s3\<lparr>kern := k4\<rparr>)"
    "alive view M (ts @ [''tcp task'']) d (?s3\<lparr>kern := k4\<rparr>)"
    using live_task_create[OF assms(1)] by blast
  show ?thesis
    using 0(1) 1(1) 2(1) 3(1) 4 assms(3)
    by (intro exI[of _ k4] exI[of _ a] exI[of _ b] exI[of _ c] exI[of _ e])
       (simp add: init_tcp_eq init_tcp_queues_def alive_def)
qed

lemma live_ipv4_init:
  assumes "boots R E M" and "alive view M ts d s" and "ipv4_transmit_queue s = None" and "tcp_task_queue_set s = None"
    and "send_queue s = None" and "input_queue s = None" and "port_cmd_queue s = None"
  shows "\<exists>k q a b c e. ipv4_init R s = Inr (s\<lparr>ipv4_transmit_queue := Some q, tcp_task_queue_set := Some e,
      send_queue := Some a, input_queue := Some b, port_cmd_queue := Some c, kern := k\<rparr>) \<and>
     alive view M (ts @ [''ipv4 task'', ''tcp task'']) d (s\<lparr>kern := k\<rparr>)"
proof -
  obtain q k1 where 1: "q_create R 4 s = (Some q, s\<lparr>kern := k1\<rparr>)" "alive view M ts d (s\<lparr>kern := k1\<rparr>)"
    using live_q_create[OF assms(1,2)] by blast
  let ?s1 = "s\<lparr>kern := k1, ipv4_transmit_queue := Some q\<rparr>"
  have "alive view M ts d ?s1" using 1(2) by (simp add: alive_def)
  then obtain k2 where 2: "task_create R ''ipv4 task'' ?s1 = (True, ?s1\<lparr>kern := k2\<rparr>)"
    "alive view M (ts @ [''ipv4 task'']) d (?s1\<lparr>kern := k2\<rparr>)"
    using live_task_create[OF assms(1)] by blast
  obtain k a b c e where "init_tcp R (?s1\<lparr>kern := k2\<rparr>) = Inr (ESP_OK, ?s1\<lparr>tcp_task_queue_set := Some e,
      send_queue := Some a, input_queue := Some b, port_cmd_queue := Some c, kern := k\<rparr>)"
    "alive view M (ts @ [''ipv4 task'', ''tcp task'']) d (s\<lparr>kern := k\<rparr>)"
    using live_init_tcp[OF assms(1) 2(2)] assms(4-7) by (auto simp: alive_def)
  then show ?thesis
    using 1(1) 2(1) assms(3)
    by (intro exI[of _ k] exI[of _ q] exI[of _ a] exI[of _ b] exI[of _ c] exI[of _ e]) (simp add: ipv4_init_def)
qed

end

context esp_contract
begin

lemma live_sdk:
  assumes "sdk_succeeds M f" and "alive view M ts d s"
    and "fst (f (kern s)) = ESP_OK \<Longrightarrow> kv_tasks (view (snd (f (kern s)))) = kv_tasks (view (kern s)) \<and>
      kv_driver (view (snd (f (kern s)))) = d'"
  shows "\<exists>k. sdk f s = (ESP_OK, s\<lparr>kern := k\<rparr>) \<and> alive view M ts d' (s\<lparr>kern := k\<rparr>)"
  using assms succeedsD[OF assms(1), of "kern s"]
  by (intro exI[of _ "snd (f (kern s))"]) (simp add: sdk_def alive_def case_prod_beta)

lemma live_check:
  assumes "sdk_succeeds M f" and "alive view M ts d s" and "\<And>k. view (snd (f k)) = view k"
  shows "\<exists>k. esp_error_check f s = Inr (s\<lparr>kern := k\<rparr>) \<and> alive view M ts d (s\<lparr>kern := k\<rparr>)"
proof -
  obtain k where "sdk f s = (ESP_OK, s\<lparr>kern := k\<rparr>)" "alive view M ts d (s\<lparr>kern := k\<rparr>)"
    using live_sdk[OF assms(1,2), of d] assms(2,3) by (auto simp: alive_def)
  then show ?thesis by (auto simp: esp_error_check_def)
qed

lemma live_init_driver:
  assumes "boots R E M" and "alive view M ts d s"
  shows "\<exists>k. wifi_init_driver E s = Inr (s\<lparr>kern := k,
      wifi_net_context := (wifi_net_context s)\<lparr>nc_mac := wd_mac d\<rparr>\<rparr>) \<and> alive view M ts d (s\<lparr>kern := k\<rparr>)"
proof -
  note b = boots_calls[OF assms(1)]
  obtain k1 where 1: "esp_error_check (nvs_flash_init E) s = Inr (s\<lparr>kern := k1\<rparr>)" "alive view M ts d (s\<lparr>kern := k1\<rparr>)"
    using live_check[OF b(5) assms(2)] by (auto simp: sdk_calls)
  obtain k2 where 2: "esp_error_check (esp_event_loop_create_default E) (s\<lparr>kern := k1\<rparr>) = Inr (s\<lparr>kern := k2\<rparr>)"
    "alive view M ts d (s\<lparr>kern := k2\<rparr>)" using live_check[OF b(6) 1(2)] by (auto simp: sdk_calls)
  obtain k3 where 3: "sdk (mac_init E) (s\<lparr>kern := k2\<rparr>) = (ESP_OK, s\<lparr>kern := k3\<rparr>)"
    "alive view M ts d (s\<lparr>kern := k3\<rparr>)" using live_sdk[OF b(7) 2(2), of d] 2(2) by (auto simp: sdk_calls alive_def)
  obtain k4 where 4: "sdk (esp_wifi_set_rx_pbuf_mem_type E WIFI_RX_PBUF_DRAM) (s\<lparr>kern := k3\<rparr>) = (ESP_OK, s\<lparr>kern := k4\<rparr>)"
    "alive view M ts d (s\<lparr>kern := k4\<rparr>)" using live_sdk[OF b(8) 3(2), of WIFI_RX_PBUF_DRAM d] 3(2) by (auto simp: sdk_calls alive_def)
  obtain k5 where 5: "esp_error_check (esp_wifi_init_internal E (WIFI_INIT_CONFIG_DEFAULT E)) (s\<lparr>kern := k4\<rparr>) = Inr (s\<lparr>kern := k5\<rparr>)"
    "alive view M ts d (s\<lparr>kern := k5\<rparr>)" using live_check[OF b(9) 4(2)] by (auto simp: sdk_calls)
  obtain k6 where 6: "esp_error_check (esp_supplicant_init E) (s\<lparr>kern := k5\<rparr>) = Inr (s\<lparr>kern := k6\<rparr>)"
    "alive view M ts d (s\<lparr>kern := k6\<rparr>)" using live_check[OF b(10) 5(2)] by (auto simp: sdk_calls)
  obtain k7 where 7: "esp_error_check (esp_wifi_set_ps E WIFI_PS_NONE) (s\<lparr>kern := k6\<rparr>) = Inr (s\<lparr>kern := k7\<rparr>)"
    "alive view M ts d (s\<lparr>kern := k7\<rparr>)" using live_check[OF b(11) 6(2)] by (auto simp: sdk_calls)
  let ?r = "esp_wifi_get_mac E ESP_IF_WIFI_STA (nc_mac (wifi_net_context s)) k7"
  have r: "fst (fst ?r) = ESP_OK" "M (snd ?r)"
    using 7(2) succeedsD[OF b(4), of k7] by (auto simp: alive_def case_prod_beta)
  have "snd (fst ?r) = wd_mac d"
    using get_mac_ok[of "nc_mac (wifi_net_context s)" k7 "snd (fst ?r)"] r(1) 7(2) by (simp add: alive_def prod_eq_iff)
  then show ?thesis
    using 1(1) 2(1) 3(1) 4(1) 5(1) 6(1) 7 r
    by (intro exI[of _ "snd ?r"]) (simp add: wifi_init_driver_def case_prod_beta Let_def alive_def get_mac)
qed

lemma live_start_station:
  assumes "boots R E M" and "alive view M ts d s"
  shows "\<exists>t. wifi_start_station E ssid password s = Inr t \<and>
     alive view M ts (add_handler (WIFI_EVENT, ESP_EVENT_ANY_ID, ''wifi_event_handler'') d) t \<and> handles t = handles s \<and>
     arp_queue_set t = arp_queue_set s \<and> tcp_task_queue_set t = tcp_task_queue_set s"
proof -
  note b = boots_calls[OF assms(1)]
  let ?d = "add_handler (WIFI_EVENT, ESP_EVENT_ANY_ID, ''wifi_event_handler'') d"
  let ?config = "\<lparr>sta_ssid = ssid, sta_password = password, sta_threshold_authmode = WIFI_AUTH_WPA2_PSK\<rparr>"
  let ?reg = "esp_event_handler_register E WIFI_EVENT ESP_EVENT_ANY_ID ''wifi_event_handler''"
  define u where "u = icmpv4_set_self_net_context (wifi_net_context s) (ipv4_set_self_net_context (wifi_net_context s)
    (arp_set_local_info (nc_mac (wifi_net_context s)) (nc_ip (wifi_net_context s)) s))"
  have u: "alive view M ts d u" "handles u = handles s" "arp_queue_set u = arp_queue_set s"
    "tcp_task_queue_set u = tcp_task_queue_set s"
    using assms(2) by (simp_all add: u_def alive_def handles_def icmpv4_set_self_net_context_def
        ipv4_set_self_net_context_def arp_set_local_info_def)
  obtain k1 where 1: "esp_error_check (esp_wifi_set_mode E WIFI_MODE_STA) u = Inr (u\<lparr>kern := k1\<rparr>)"
    "alive view M ts d (u\<lparr>kern := k1\<rparr>)" using live_check[OF b(12) u(1)] by (auto simp: sdk_calls)
  obtain k2 where 2: "esp_error_check (esp_wifi_set_config E ESP_IF_WIFI_STA ?config) (u\<lparr>kern := k1\<rparr>) = Inr (u\<lparr>kern := k2\<rparr>)"
    "alive view M ts d (u\<lparr>kern := k2\<rparr>)" using live_check[OF b(13) 1(2)] by (auto simp: sdk_calls)
  obtain k3 where 3: "sdk ?reg (u\<lparr>kern := k2\<rparr>) = (ESP_OK, u\<lparr>kern := k3\<rparr>)" "alive view M ts ?d (u\<lparr>kern := k3\<rparr>)"
    using live_sdk[OF b(14) 2(2), of WIFI_EVENT ESP_EVENT_ANY_ID "''wifi_event_handler''" ?d] 2(2)
    by (auto simp: alive_def reg_handler)
  obtain k4 where 4: "esp_error_check (esp_wifi_start E) (u\<lparr>kern := k3\<rparr>) = Inr (u\<lparr>kern := k4\<rparr>)"
    "alive view M ts ?d (u\<lparr>kern := k4\<rparr>)" using live_check[OF b(15) 3(2)] by (auto simp: sdk_calls)
  have "esp_error_check ?reg (u\<lparr>kern := k2\<rparr>) = Inr (u\<lparr>kern := k3\<rparr>)" using 3(1) by (simp add: esp_error_check_def)
  then have "wifi_start_station E ssid password s = Inr (u\<lparr>kern := k4\<rparr>)"
    using 1(1) 2(1) 4(1) unfolding u_def
    by (simp add: wifi_start_station_def Let_def arp_set_local_info_def ipv4_set_self_net_context_def
        icmpv4_set_self_net_context_def)
  then show ?thesis using 4(2) u by (simp add: handles_def)
qed

lemma live_begin:
  assumes "boots R E M" and "alive view M ts d s" and "\<forall>qo\<in>set (handles s). qo = None"
    and "arp_queue_set s = None" and "tcp_task_queue_set s = None"
  shows "\<exists>t. wifi_begin R E ssid password s = Inr t \<and> (\<forall>qo\<in>set (handles t). qo \<noteq> None) \<and>
     alive view M (ts @ [''arp task'', ''ipv4 task'', ''tcp task''])
       ((add_handler (WIFI_EVENT, ESP_EVENT_ANY_ID, ''wifi_event_handler'') d)\<lparr>wd_rxcb := Some ''wifi_rxcb''\<rparr>) t"
proof -
  let ?d = "add_handler (WIFI_EVENT, ESP_EVENT_ANY_ID, ''wifi_event_handler'') d"
  obtain k1 where 1: "wifi_init_driver E s = Inr (s\<lparr>kern := k1, wifi_net_context := (wifi_net_context s)\<lparr>nc_mac := wd_mac d\<rparr>\<rparr>)"
    "alive view M ts d (s\<lparr>kern := k1\<rparr>)" using live_init_driver[OF assms(1,2)] by blast
  let ?s1 = "s\<lparr>kern := k1, wifi_net_context := (wifi_net_context s)\<lparr>nc_mac := wd_mac d\<rparr>\<rparr>"
  have "alive view M ts d ?s1" using 1(2) by (simp add: alive_def)
  from live_start_station[OF assms(1) this] obtain u where u: "wifi_start_station E ssid password ?s1 = Inr u"
    "alive view M ts ?d u" "handles u = handles s" "arp_queue_set u = None" "tcp_task_queue_set u = None"
    using assms(4,5) by (auto simp: handles_def)
  then have none: "arp_request_queue u = None" "arp_input_queue u = None" "ipv4_transmit_queue u = None"
    "send_queue u = None" "input_queue u = None" "port_cmd_queue u = None"
    using assms(3) by (simp_all add: handles_def)
  obtain k2 a a' c where 2: "arp_init R u = Inr (u\<lparr>kern := k2, arp_request_queue := Some a, arp_input_queue := Some a',
      arp_queue_set := Some c\<rparr>)" "alive view M (ts @ [''arp task'']) ?d (u\<lparr>kern := k2\<rparr>)"
    using live_arp_init[OF assms(1) u(2) none(1,2) u(4)] by blast
  let ?s2 = "u\<lparr>kern := k2, arp_request_queue := Some a, arp_input_queue := Some a', arp_queue_set := Some c\<rparr>"
  have "alive view M (ts @ [''arp task'']) ?d ?s2" using 2(2) by (simp add: alive_def)
  from live_ipv4_init[OF assms(1) this] obtain v where 3: "ipv4_init R ?s2 = Inr v"
    "alive view M (ts @ [''arp task'', ''ipv4 task'', ''tcp task'']) ?d v" "\<forall>qo\<in>set (handles v). qo \<noteq> None"
    using none u(5) by (fastforce simp: handles_def alive_def)
  obtain q k4 where 4: "q_create R 16 v = (Some q, v\<lparr>kern := k4\<rparr>)"
    "alive view M (ts @ [''arp task'', ''ipv4 task'', ''tcp task'']) ?d (v\<lparr>kern := k4\<rparr>)"
    using live_q_create[OF assms(1) 3(2)] by blast
  let ?s4 = "v\<lparr>kern := k4, rx_buffer_free_queue := Some q\<rparr>"
  have "alive view M (ts @ [''arp task'', ''ipv4 task'', ''tcp task'']) ?d ?s4" using 4(2) by (simp add: alive_def)
  from live_sdk[OF boots_calls(16)[OF assms(1)] this, of ESP_IF_WIFI_STA "''wifi_rxcb''" "?d\<lparr>wd_rxcb := Some ''wifi_rxcb''\<rparr>"] this
  obtain k5 where 5: "sdk (esp_wifi_internal_reg_rxcb E ESP_IF_WIFI_STA ''wifi_rxcb'') ?s4 = (ESP_OK, ?s4\<lparr>kern := k5\<rparr>)"
    "alive view M (ts @ [''arp task'', ''ipv4 task'', ''tcp task'']) (?d\<lparr>wd_rxcb := Some ''wifi_rxcb''\<rparr>) (?s4\<lparr>kern := k5\<rparr>)"
    by (auto simp: alive_def reg_rxcb set_rxcb_def)
  have "wifi_begin R E ssid password s = Inr (?s4\<lparr>kern := k5\<rparr>)"
    using 1(1) u(1) 2(1) 3(1) 4(1) 5(1) by (simp add: wifi_begin_def)
  moreover have "handles (?s4\<lparr>kern := k5\<rparr>) = handles v" by (simp add: handles_def)
  ultimately show ?thesis using 3(3) 5(2) by (intro exI[of _ "?s4\<lparr>kern := k5\<rparr>"]) simp
qed

end

text \<open>The state at power-on: zero-initialised globals and the static address of the manager.\<close>

definition wifi0 :: "refk wifi_net" where
  "wifi0 = tcp_net.extend (arp_net.extend (arp0 ref_init)
     \<lparr>send_queue = None, input_queue = None, port_cmd_queue = None, tcp_task_queue_set = None,
      ports = replicate 8 port_zero\<rparr>)
     \<lparr>wifi_rx_count = 0, wifi_buf_free_enter_count = 0, wifi_buf_free_exit_count = 0, wifi_buf_freed_count = 0,
      wifi_buf_queue_fail_count = 0, wifi_buf_eb_null_count = 0, wifi_buf_eb_non_null_count = 0,
      rx_buffer_free_queue = None, wifi_net_context = \<lparr>nc_mac = 0, nc_ip = IPv4 192 168 1 230\<rparr>\<rparr>"

text \<open>The reference kernel has memory as long as the handles it has not given out are unused.\<close>

definition ref_memory :: "refk \<Rightarrow> bool" where
  "ref_memory k \<longleftrightarrow> (\<forall>q\<ge>rk_next k. kv_queues k q = None)"

lemma boots_ref: "boots ref_rtos ref_esp ref_memory"
  by (simp add: boots_def succeeds_def ref_memory_def ref_rtos_def ref_esp_def kt_create_def)

section \<open>Properties\<close>

text \<open>
  C15: Start-up. Whenever \<^verbatim>\<open>wifi_begin\<close> returns, whatever failed on the way, the heap is untouched, ARP,
  IPv4 and ICMP agree on the hardware address of the station, as the driver reported it, and on the static
  address of this host, and every queue handle is null or refers to an existing queue. When the calls of
  the kernel and the driver succeed (\<open>M\<close> describes kernel states in which they do), \<^verbatim>\<open>wifi_begin\<close> does
  return: all six queues exist, so that the stack is ready for the receive callback, the three worker
  tasks have been started in the order ARP, IPv4, TCP, and \<^verbatim>\<open>wifi_rxcb\<close> and \<^verbatim>\<open>wifi_event_handler\<close> are the
  registered callbacks. The handles are null before.
\<close>

theorem wifi_begin_ready:
  assumes "esp_contract R view E" and "heap_ok s" and "\<forall>qo\<in>set (handles s). qo = None"
    and "arp_queue_set s = None" and "tcp_task_queue_set s = None"
    and "d = kv_driver (view (kern s))" and "ip = nc_ip (wifi_net_context s)"
  shows "(\<forall>s'. wifi_begin R E ssid password s = Inr s' \<longrightarrow> heap s' = heap s \<and>
       self_mac_addr s' = wd_mac d \<and> self_ip_addr s' = ip \<and>
       nc_mac (self_net s') = wd_mac d \<and> nc_ip (self_net s') = ip \<and>
       (\<forall>qo\<in>set (handles s'). qo = None \<or> queue_exists (view (kern s')) qo)) \<and>
     (boots R E M \<and> M (kern s) \<longrightarrow>
       (\<exists>s'. wifi_begin R E ssid password s = Inr s' \<and> net_ready view s' \<and>
         (\<forall>qo\<in>set (handles s'). queue_exists (view (kern s')) qo) \<and>
         kv_tasks (view (kern s')) = kv_tasks (view (kern s)) @ [''arp task'', ''ipv4 task'', ''tcp task''] \<and>
         kv_driver (view (kern s')) =
           (add_handler (WIFI_EVENT, ESP_EVENT_ANY_ID, ''wifi_event_handler'') d)\<lparr>wd_rxcb := Some ''wifi_rxcb''\<rparr>))"
proof -
  have up: "up_inv view d (heap s) (self_net s) (self_mac_addr s, self_ip_addr s) (wifi_net_context s) s"
    using assms(3,6) by (auto simp: up_inv_def boot_inv_def)
  have inv: "\<exists>d'. boot_inv view d' (heap s) ((wifi_net_context s)\<lparr>nc_mac := wd_mac d\<rparr>) (wd_mac d, ip) s'"
    if "wifi_begin R E ssid password s = Inr s'" for s'
    using esp_contract.up_begin[OF assms(1) that up] assms(7) by simp
  have live: "\<exists>t. wifi_begin R E ssid password s = Inr t \<and> (\<forall>qo\<in>set (handles t). qo \<noteq> None) \<and>
     alive view M (kv_tasks (view (kern s)) @ [''arp task'', ''ipv4 task'', ''tcp task''])
       ((add_handler (WIFI_EVENT, ESP_EVENT_ANY_ID, ''wifi_event_handler'') d)\<lparr>wd_rxcb := Some ''wifi_rxcb''\<rparr>) t"
    if "boots R E M" "M (kern s)"
    by (rule esp_contract.live_begin[OF assms(1) that(1) _ assms(3-5)]) (use that(2) assms(6) in \<open>simp add: alive_def\<close>)
  show ?thesis
  proof (intro conjI allI impI)
    fix s' assume "wifi_begin R E ssid password s = Inr s'"
    from inv[OF this] show "heap s' = heap s" "self_mac_addr s' = wd_mac d" "self_ip_addr s' = ip"
      "nc_mac (self_net s') = wd_mac d" "nc_ip (self_net s') = ip"
      "\<forall>qo\<in>set (handles s'). qo = None \<or> queue_exists (view (kern s')) qo"
      using assms(7) by (auto simp: boot_inv_def)
  next
    assume "boots R E M \<and> M (kern s)"
    with live obtain t where t: "wifi_begin R E ssid password s = Inr t" "\<forall>qo\<in>set (handles t). qo \<noteq> None"
      "alive view M (kv_tasks (view (kern s)) @ [''arp task'', ''ipv4 task'', ''tcp task''])
         ((add_handler (WIFI_EVENT, ESP_EVENT_ANY_ID, ''wifi_event_handler'') d)\<lparr>wd_rxcb := Some ''wifi_rxcb''\<rparr>) t" by blast
    from inv[OF t(1)] have "heap t = heap s" "\<forall>qo\<in>set (handles t). queue_exists (view (kern t)) qo"
      using t(2) by (auto simp: boot_inv_def)
    then show "\<exists>s'. wifi_begin R E ssid password s = Inr s' \<and> net_ready view s' \<and>
         (\<forall>qo\<in>set (handles s'). queue_exists (view (kern s')) qo) \<and>
         kv_tasks (view (kern s')) = kv_tasks (view (kern s)) @ [''arp task'', ''ipv4 task'', ''tcp task''] \<and>
         kv_driver (view (kern s')) =
           (add_handler (WIFI_EVENT, ESP_EVENT_ANY_ID, ''wifi_event_handler'') d)\<lparr>wd_rxcb := Some ''wifi_rxcb''\<rparr>"
      using t assms(2) by (intro exI[of _ t]) (auto simp: alive_def net_ready_def heap_ok_def handles_def)
  qed
qed

theorem wifi_begin_ready_witness:
  "\<exists>s'. wifi_begin ref_rtos ref_esp ''ssid'' ''password'' wifi0 = Inr s' \<and> net_ready kview.truncate s' \<and>
     self_mac_addr s' = MAC 0x30 0x83 0x98 0x94 0xEC 0x1B \<and> kv_tasks (kern s') = [''arp task'', ''ipv4 task'', ''tcp task'']"
proof -
  have "heap_ok wifi0" "\<forall>qo\<in>set (handles wifi0). qo = None" "arp_queue_set wifi0 = None" "tcp_task_queue_set wifi0 = None"
    "kern wifi0 = ref_init" "ref_memory ref_init"
    by (simp_all add: heap_ok_def handles_def wifi0_def arp_net.extend_def tcp_net.extend_def arp_state_defs
        ref_memory_def ref_init_def)
  with wifi_begin_ready[OF refe.esp_contract_axioms this(1-4) refl refl, of "''ssid''" "''password''" ref_memory] boots_ref
  show ?thesis by (auto simp: kview.truncate_def ref_init_def)
qed

end
