(* ===== verification/Slot_Table.thy ===== *)
theory Slot_Table
  imports Net_Prelude
begin

text \<open>
  UDP and TCP keep their ports in a static array of slots and take the first vacant one. The locale states what such an allocation promises and derives
  what its clients use: it never disturbs another slot, it succeeds exactly when a slot is vacant, and
  a search that had no match finds the new entry.
\<close>

locale slot_table =
  fixes table :: "'s \<Rightarrow> 'e list" and vacant :: "'e \<Rightarrow> bool"
    and alloc :: "'e \<Rightarrow> 's \<Rightarrow> 'r \<times> 's" and ok :: "'r \<Rightarrow> bool"
  assumes alloc_found: "find_index vacant (table s) = Some i \<Longrightarrow>
      ok (fst (alloc e s)) \<and> table (snd (alloc e s)) = (table s)[i := e]"
    and alloc_full: "find_index vacant (table s) = None \<Longrightarrow> \<not> ok (fst (alloc e s)) \<and> snd (alloc e s) = s"
begin

lemma ok_iff: "ok (fst (alloc e s)) \<longleftrightarrow> (\<exists>x\<in>set (table s). vacant x)"
  using alloc_found[of s _ e] alloc_full[of s e] find_index_None[of vacant "table s"]
  by (cases "find_index vacant (table s)") auto

lemma alloc_length: "length (table (snd (alloc e s))) = length (table s)"
  using alloc_found[of s _ e] alloc_full[of s e] by (cases "find_index vacant (table s)") auto

lemma alloc_keeps:
  assumes "j < length (table s)" and "\<not> vacant (table s ! j)"
  shows "table (snd (alloc e s)) ! j = table s ! j"
proof (cases "find_index vacant (table s)")
  case None
  then show ?thesis using alloc_full[of s e] by simp
next
  case (Some i)
  then have "i \<noteq> j" using assms find_index_SomeD(2) by metis
  then show ?thesis using alloc_found[OF Some, of e] by simp
qed

lemma alloc_count:
  assumes "ok (fst (alloc e s))" and "\<not> vacant e"
  shows "count (\<lambda>x. \<not> vacant x) (table (snd (alloc e s))) = Suc (count (\<lambda>x. \<not> vacant x) (table s))"
proof -
  obtain i where i: "find_index vacant (table s) = Some i"
    using assms(1) alloc_full[of s e] by (cases "find_index vacant (table s)") auto
  then have "i < length (table s)" "vacant (table s ! i)" by (simp_all add: find_index_Some)
  then show ?thesis
    using count_list_update[of i "table s" "\<lambda>x. \<not> vacant x" e] alloc_found[OF i, of e] assms(2) by simp
qed

lemma found_after_alloc:
  assumes "find_index vacant (table s) = Some i" and "find_index P (table s) = None" and "P e"
  shows "find_index P (table (snd (alloc e s))) = Some i"
proof -
  have "i < length (table s)" using assms(1) by (rule find_index_SomeD)
  moreover have "\<forall>j<length (table s). \<not> P (table s ! j)" using assms(2) by (simp add: find_index_None)
  ultimately show ?thesis
    using alloc_found[OF assms(1), of e] assms(3) by (auto simp: find_index_Some nth_list_update)
qed

end

end
