(* ===== verification/Tcp_Ports.thy ===== *)
theory Tcp_Ports
  imports Tcp_Connection Slot_Table
begin

text \<open>
  Opening ports (\<^verbatim>\<open>allocate_port\<close>, \<^verbatim>\<open>tcp_create_port_internal\<close>, \<^verbatim>\<open>tcp_listen_port_internal\<close> of
  \<^verbatim>\<open>protocols/tcp.c\<close>): the port table meets the contract of a slot table, and a port that was opened for
  listening is found by the segment handler.
\<close>

interpretation tcp_table: slot_table ports "\<lambda>p. tp_self_port_num p = 0" allocate_port "\<lambda>i. i \<noteq> None"
  by unfold_locales (simp_all add: allocate_port_def)

text \<open>A fresh port of \<^verbatim>\<open>tcp_create_port_internal\<close>, with its semaphore.\<close>

definition new_port :: "u16 \<Rightarrow> fptr \<Rightarrow> fptr \<Rightarrow> fptr \<Rightarrow> shandle \<Rightarrow> tcp_port" where
  "new_port n on_receive on_connect on_disconnect h = port_zero\<lparr>tp_self_port_num := n, tp_on_receive := on_receive,
     tp_on_connect := on_connect, tp_on_disconnect := on_disconnect, tp_self_window := 1500,
     tp_unacked_slots := Some h\<rparr>"

lemma new_port_sel [simp]:
  "tp_self_port_num (new_port n r c d h) = n" "tp_state (new_port n r c d h) = CLOSED"
  "tp_other_ipv4_addr (new_port n r c d h) = IPv4 0 0 0 0" "tp_unacked_slots (new_port n r c d h) = Some h"
  by (simp_all add: new_port_def port_zero_def)

lemma tcp_create_port_internal_eq:
  assumes "xSemaphoreCreateCounting R 8 8 (kern s) = (Some h, k)"
  shows "tcp_create_port_internal R n r c d s = allocate_port (new_port n r c d h) (s\<lparr>kern := k\<rparr>)"
proof -
  have "port_zero\<lparr>tp_other_ipv4_addr := IPv4 0 0 0 0, tp_other_port_num := 0, tp_self_port_num := n,
      tp_state := CLOSED, tp_on_receive := r, tp_on_connect := c, tp_on_disconnect := d, tp_seq_num := 0,
      tp_self_window := 1500, tp_unacked_slots := Some h\<rparr> = new_port n r c d h"
    by (simp add: new_port_def port_zero_def)
  with assms show ?thesis by (simp add: tcp_create_port_internal_def sem_create_def)
qed

lemma allocate_port_Some:
  assumes "find_index (\<lambda>p. tp_self_port_num p = 0) (ports s) = Some i"
  shows "allocate_port e s = (Some i, s\<lparr>ports := (ports s)[i := e]\<rparr>)"
  using assms by (simp add: allocate_port_def)

section \<open>Properties\<close>

text \<open>
  C33: With a vacant entry in the port table and a semaphore from the kernel, \<^verbatim>\<open>tcp_listen_port_internal\<close>
  opens a port that the segment handler finds for every connection request to its number, with eight free
  slots and no slot in use; the other ports and the heap are unchanged. With a full table it returns
  \<open>ESP_FAIL\<close> and changes no port, but the semaphore it created is never deleted.
\<close>

theorem tcp_listen_opens:
  assumes "rtos_contract R view" and "xSemaphoreCreateCounting R 8 8 (kern s) = (Some h, k)"
    and "find_listening_port n s = None"
  shows "\<exists>s'. kv_sems (view (kern s')) h = Some (8, 8) \<and> heap s' = heap s \<and>
     (if \<exists>p\<in>set (ports s). tp_self_port_num p = 0
      then tcp_listen_port_internal R n r c d s = (ESP_OK, s') \<and>
        (\<exists>i. find_listening_port n s' = Some i \<and> tp_unacked_slots (ports s' ! i) = Some h \<and>
          (\<forall>u\<in>set (tp_unacked (ports s' ! i)). \<not> ua_in_use u) \<and>
          (\<forall>j<length (ports s). j \<noteq> i \<longrightarrow> ports s' ! j = ports s ! j))
      else tcp_listen_port_internal R n r c d s = (ESP_FAIL, s') \<and> ports s' = ports s)"
proof -
  let ?e = "new_port n r c d h" and ?s = "s\<lparr>kern := k\<rparr>"
  have sem: "kv_sems (view k) h = Some (8, 8)"
    using rtos_contract.create_sem[OF assms(1,2)] by simp
  note create = tcp_create_port_internal_eq[OF assms(2), of n r c d]
  show ?thesis
  proof (cases "find_index (\<lambda>p. tp_self_port_num p = 0) (ports s)")
    case None
    then have "allocate_port ?e ?s = (None, ?s)" by (simp add: allocate_port_def)
    moreover have "\<not> (\<exists>p\<in>set (ports s). tp_self_port_num p = 0)" using None by (simp add: find_index_None)
    ultimately show ?thesis
      by (intro exI[of _ ?s]) (simp add: tcp_listen_port_internal_def create sem)
  next
    case (Some i)
    let ?l = "?e\<lparr>tp_state := LISTEN, tp_other_ipv4_addr := IPv4 0 0 0 0\<rparr>"
    let ?t = "?s\<lparr>ports := (ports s)[i := ?l]\<rparr>"
    have i: "i < length (ports s)" and "tp_self_port_num (ports s ! i) = 0"
      using Some by (simp_all add: find_index_Some)
    then have "ports s ! i \<in> set (ports s)" by simp
    with \<open>tp_self_port_num (ports s ! i) = 0\<close> have "\<exists>p\<in>set (ports s). tp_self_port_num p = 0" by blast
    moreover have "tcp_listen_port_internal R n r c d s = (ESP_OK, ?t)"
      using i Some
      by (simp add: tcp_listen_port_internal_def create allocate_port_Some set_port_def)
    moreover have "find_listening_port n ?t = Some i"
      using assms(3) i tcp_table.found_after_alloc[of s i _ ?l] Some
      by (simp add: find_listening_port_def allocate_port_Some)
    moreover have "\<forall>u\<in>set (tp_unacked ?l). \<not> ua_in_use u"
      by (simp add: new_port_def port_zero_def unacked_zero_def)
    ultimately show ?thesis using i sem by (intro exI[of _ ?t]) auto
  qed
qed

theorem tcp_listen_opens_witness:
  "\<exists>s'. tcp_listen_port_internal ref_rtos 10741 (Some 1) (Some 2) (Some 3) (tcp1 8 ESTABLISHED) = (ESP_OK, s') \<and>
     find_listening_port 10741 s' \<noteq> None \<and> kv_sems (kern s') 7 = Some (8, 8)"
proof -
  let ?s = "tcp1 8 ESTABLISHED"
  let ?k = "(kern ?s)\<lparr>kv_sems := (kv_sems (kern ?s))(7 \<mapsto> (8, 8)), rk_next := 8\<rparr>"
  have "xSemaphoreCreateCounting ref_rtos 8 8 (kern ?s) = (Some 7, ?k)"
    by (simp add: ref_rtos_def)
  moreover have "find_listening_port 10741 ?s = None"
    by (simp add: find_listening_port_def find_index_None port1_def port_zero_def)
  moreover have "\<exists>p\<in>set (ports ?s). tp_self_port_num p = 0" by (simp add: port_zero_def)
  ultimately have "\<exists>s'. kv_sems (kview.truncate (kern s')) 7 = Some (8, 8) \<and>
      tcp_listen_port_internal ref_rtos 10741 (Some 1) (Some 2) (Some 3) ?s = (ESP_OK, s') \<and>
      (\<exists>i. find_listening_port 10741 s' = Some i)"
    using tcp_listen_opens[OF refk.rtos_contract_axioms, of ?s 7 ?k 10741 "Some 1" "Some 2" "Some 3"]
    by (metis (no_types, lifting))
  then show ?thesis by (auto simp: kview.truncate_def)
qed

end
