(* ===== verification/Task_Monitor.thy ===== *)
theory Task_Monitor
  imports Tcp_Ports Debug_Format
begin

text \<open>
  The task monitor (\<^verbatim>\<open>task_monitor/src/task_monitor.c\<close>): a report on the stacks of all tasks, sent over
  TCP to whoever connects. What FreeRTOS reports about its tasks is a parameter \<open>K\<close>, as are the size of
  \<^verbatim>\<open>TaskStatus_t\<close> and the build option \<^verbatim>\<open>configGENERATE_RUN_TIME_STATS\<close>.
\<close>

section \<open>Model\<close>

record task_status =
  ts_pcTaskName :: bytes
  ts_usStackHighWaterMark :: u16
  ts_ulRunTimeCounter :: u32

record 'k task_info =
  uxTaskGetNumberOfTasks :: "'k \<Rightarrow> u32"
  uxTaskGetSystemState :: "u32 \<Rightarrow> 'k \<Rightarrow> task_status list \<times> u32"
  sizeof_TaskStatus_t :: u32
  configGENERATE_RUN_TIME_STATS :: bool

text \<open>
  \<^verbatim>\<open>watched_names\<close> is declared as \<^verbatim>\<open>char*\<close> and passed where \<^verbatim>\<open>const char *const *\<close> is expected. The model takes the
  type of the place where it is read: an array of names up to a null pointer, or null itself (\<open>None\<close>).
\<close>

record 'k monitor_net = "'k tcp_net" +
  watched_names :: "bytes list option"
  other_port_num :: u16
  other_ipv4_addr :: ipv4_addr

type_synonym ('k, 'z) monitor = "('k, 'z) monitor_net_scheme"

abbreviation (input) TASK_MONITOR_PORT :: u16 where "TASK_MONITOR_PORT \<equiv> 10741"

fun name_in_filter :: "bytes \<Rightarrow> bytes list \<Rightarrow> bool" where
  "name_in_filter name [] = False"
| "name_in_filter name (n # names) = (if name = n then True else name_in_filter name names)"

text \<open>The conversions \<^verbatim>\<open>%-16s\<close> and \<^verbatim>\<open>%5u\<close>.\<close>

definition pad_right :: "nat \<Rightarrow> bytes \<Rightarrow> bytes" where
  "pad_right n cs = cs @ replicate (n - length cs) 32"

definition pad_left :: "nat \<Rightarrow> bytes \<Rightarrow> bytes" where
  "pad_left n cs = replicate (n - length cs) 32 @ cs"

text \<open>
  \<^verbatim>\<open>snprintf(out + pos, n, ...)\<close> writes at most \<open>n - 1\<close> characters and a terminating zero, nothing if \<open>n\<close>
  is zero, and returns the length of the whole text.
\<close>

definition snprintf :: "ptr \<Rightarrow> u32 \<Rightarrow> u32 \<Rightarrow> bytes \<Rightarrow> ('k, 'z) base \<Rightarrow> (u32 \<times> ('k, 'z) base) exec" where
  "snprintf out pos n txt s =
     (if n = 0 then Inr (of_nat (length txt), s)
      else rbind (heap_write out (unat pos) (take (unat n - 1) txt @ [0]) s) (\<lambda>s.
           Inr (of_nat (length txt), s)))"

definition report_header :: bytes where
  "report_header = chars ''--- task stack watermarks ---'' @ [10]"

definition report_line :: "'k task_info \<Rightarrow> u32 \<Rightarrow> task_status \<Rightarrow> bytes" where
  "report_line K total_runtime t =
     (if configGENERATE_RUN_TIME_STATS K
      then let cpu_pct = (if 0 < total_runtime
             then ucast (ucast (ts_ulRunTimeCounter t) * 100 div ucast total_runtime :: 64 word) else 0) :: u32 in
           chars ''  '' @ pad_right 16 (ts_pcTaskName t) @ chars ''  hwm: ''
           @ pad_left 5 (print_u (unat (ts_usStackHighWaterMark t))) @ chars '' bytes  cpu: ''
           @ pad_left 3 (print_u (unat cpu_pct)) @ chars ''%'' @ [10]
      else chars ''  '' @ pad_right 16 (ts_pcTaskName t) @ chars ''  hwm: ''
           @ pad_left 5 (print_u (unat (ts_usStackHighWaterMark t))) @ chars '' bytes'' @ [10])"

definition watched :: "bytes list option \<Rightarrow> task_status \<Rightarrow> bool" where
  "watched names t = (case names of None \<Rightarrow> True | Some ns \<Rightarrow> name_in_filter (ts_pcTaskName t) ns)"

definition report_task ::
  "'k task_info \<Rightarrow> u32 \<Rightarrow> bytes list option \<Rightarrow> ptr \<Rightarrow> u32 \<Rightarrow> task_status \<Rightarrow> u32 \<times> ('k, 'z) base
    \<Rightarrow> (u32 \<times> ('k, 'z) base) exec" where
  "report_task K total_runtime names out out_size t = (\<lambda>(pos, s).
     if \<not> watched names t then Inr (pos, s)
     else rbind (snprintf out pos (out_size - pos) (report_line K total_runtime t) s) (\<lambda>(n, s).
          Inr (pos + n, s)))"

definition task_monitor_build_report ::
  "'k task_info \<Rightarrow> bytes list option \<Rightarrow> ('k, 'z) base \<Rightarrow> (ptr \<times> ('k, 'z) base) exec" where
  "task_monitor_build_report K names s =
     (let max_tasks = uxTaskGetNumberOfTasks K (kern s) + 4;
          (buf, s) = malloc (unat (max_tasks * sizeof_TaskStatus_t K)) s in
      if buf = None then Inr (None, s)
      else
        (let (tasks, total_runtime) = uxTaskGetSystemState K max_tasks (kern s);
             filled = of_nat (length tasks) :: u32;
             out_size = 32 + filled * 56 + 1;
             (out, s) = malloc (unat out_size) s in
         if out = None then rbind (free buf s) (\<lambda>s. Inr (None, s))
         else
           rbind (snprintf out 0 (out_size - 0) report_header s) (\<lambda>(n, s).
           rbind (for_each (report_task K total_runtime names out out_size) tasks (0 + n, s)) (\<lambda>(pos, s).
           rbind (free buf s) (\<lambda>s.
           Inr (out, s))))))"

definition on_task_monitor_tcp_connect :: "u16 \<Rightarrow> ipv4_addr \<Rightarrow> ('k, 'z) monitor \<Rightarrow> ('k, 'z) monitor" where
  "on_task_monitor_tcp_connect new_other_port_num new_other_ipv4_addr s =
     s\<lparr>other_port_num := new_other_port_num, other_ipv4_addr := new_other_ipv4_addr\<rparr>"

text \<open>\<^verbatim>\<open>strlen\<close> of a string on the heap: it reads up to the first zero.\<close>

definition strlen :: "ptr \<Rightarrow> ('k, 'z) base \<Rightarrow> nat exec" where
  "strlen p s =
     rbind (heap_tail p 0 s) (\<lambda>bs. if 0 \<in> set bs then Inr (length (takeWhile (\<lambda>c. c \<noteq> 0) bs)) else Inl Fault)"

definition on_task_monitor_tcp_receive ::
  "'k rtos \<Rightarrow> 'k task_info \<Rightarrow> bytes \<Rightarrow> u16 \<Rightarrow> ('k, 'z) monitor \<Rightarrow> ('k, 'z) monitor exec" where
  "on_task_monitor_tcp_receive R K data data_len s =
     rbind (task_monitor_build_report K (watched_names s) s) (\<lambda>(report, s).
     rbind (strlen report s) (\<lambda>n.
     rbind (tcp_send R Inr TASK_MONITOR_PORT (other_port_num s) (other_ipv4_addr s) report (of_nat n) 0 s)
       (\<lambda>(result, s). Inr s)))"

text \<open>The function pointers of the callbacks.\<close>

abbreviation (input) MONITOR_RECEIVE :: nat where "MONITOR_RECEIVE \<equiv> 1"
abbreviation (input) MONITOR_CONNECT :: nat where "MONITOR_CONNECT \<equiv> 2"
abbreviation (input) MONITOR_START :: nat where "MONITOR_START \<equiv> 3"

definition start_task_monitor_tcp :: "'k rtos \<Rightarrow> ('k, 'z) monitor \<Rightarrow> ('k, 'z) monitor exec" where
  "start_task_monitor_tcp R s =
     rbind (tcp_listen_port R TASK_MONITOR_PORT (Some MONITOR_RECEIVE) (Some MONITOR_CONNECT)
       (Some MONITOR_START) s) (\<lambda>(result, s). Inr s)"

definition task_monitor_init :: "'k rtos \<Rightarrow> bytes list option \<Rightarrow> ('k, 'z) monitor \<Rightarrow> ('k, 'z) monitor exec" where
  "task_monitor_init R names s = start_task_monitor_tcp R (s\<lparr>watched_names := names\<rparr>)"

text \<open>What the TCP task runs when it calls one of these functions.\<close>

definition monitor_app ::
  "'k rtos \<Rightarrow> 'k task_info \<Rightarrow> nat \<Rightarrow> app_call \<Rightarrow> ('k, 'z) monitor \<Rightarrow> ('k, 'z) monitor exec" where
  "monitor_app R K f c s =
     (case c of
        OnReceive data data_len \<Rightarrow>
          if f = MONITOR_RECEIVE then on_task_monitor_tcp_receive R K data data_len s else Inl Fault
      | OnConnect port ip \<Rightarrow>
          if f = MONITOR_CONNECT then Inr (on_task_monitor_tcp_connect port ip s) else Inl Fault
      | OnDisconnect \<Rightarrow> if f = MONITOR_START then start_task_monitor_tcp R s else Inl Fault)"

section \<open>The lines fit\<close>

lemma length_chars [simp]: "length (chars cs) = length cs"
  by (simp add: chars_def)

lemma length_pad [simp]: "length (pad_right n cs) = max n (length cs)" "length (pad_left n cs) = max n (length cs)"
  by (simp_all add: pad_right_def pad_left_def)

lemma length_print_u16: "length (print_u (unat (w :: u16))) \<le> 5"
proof -
  have "unat w < 10 ^ Suc 4" using unat_less_65536[of w] by (simp del: unat_less_65536)
  then show ?thesis using length_radix[of "unat w" 10 4] by simp
qed

lemma length_print_u32: "length (print_u (unat (w :: u32))) \<le> 10"
proof -
  have "unat w < 2 ^ 32" using unsigned_less[of w] by simp
  then have "unat w < 10 ^ Suc 9" by simp
  then show ?thesis using length_radix[of "unat w" 10 9] by simp
qed

lemma length_report_line:
  assumes "length (ts_pcTaskName t) \<le> 16"
  shows "length (report_line K tr t) \<le> 56"
proof -
  have "length (pad_left 5 (print_u (unat (ts_usStackHighWaterMark t)))) = 5"
    using length_print_u16[of "ts_usStackHighWaterMark t"] by simp
  moreover have "length (print_u (unat (w :: u32))) \<le> 11" for w
    using length_print_u32[of w] by simp
  moreover from this[of 0] have "length (print_u 0) \<le> 11" by simp
  ultimately show ?thesis using assms by (simp add: report_line_def Let_def)
qed

section \<open>The report\<close>

definition report_text :: "'k task_info \<Rightarrow> u32 \<Rightarrow> bytes list option \<Rightarrow> task_status list \<Rightarrow> bytes" where
  "report_text K tr names ts = concat (map (report_line K tr) (filter (watched names) ts))"

lemma snprintf_append:
  assumes "unat pos = length w" and "unat n = length b" and "length txt < length b"
  shows "snprintf (Some a) pos n txt (with_block a (w @ b) s) =
     Inr (of_nat (length txt), with_block a ((w @ txt) @ 0 # drop (Suc (length txt)) b) s)"
proof -
  have "n \<noteq> 0" using assms(2,3) by auto
  moreover have "take (unat n - 1) txt = txt" using assms(2,3) by simp
  moreover have "write_bytes (length w) (txt @ [0]) (w @ b) = Inr (w @ (txt @ [0]) @ drop (length (txt @ [0])) b)"
    using assms(3) by (intro write_bytes_next) simp_all
  ultimately show ?thesis by (simp add: snprintf_def assms(1))
qed

lemma report_task_apply:
  "report_task K tr names out n t (pos, s) =
     (if \<not> watched names t then Inr (pos, s)
      else rbind (snprintf out pos (n - pos) (report_line K tr t) s) (\<lambda>(n, s). Inr (pos + n, s)))"
  by (simp add: report_task_def)

lemma report_loop:
  assumes "\<forall>t\<in>set ts. length (ts_pcTaskName t) \<le> 16" and "unat pos = length w"
    and "length w + Suc (length b) = unat out_size" and "56 * length ts \<le> length b"
  shows "\<exists>b'. for_each (report_task K tr names (Some a) out_size) ts (pos, with_block a (w @ 0 # b) s) =
     Inr (of_nat (length (w @ report_text K tr names ts)),
          with_block a ((w @ report_text K tr names ts) @ 0 # b') s)"
  using assms
proof (induction ts arbitrary: pos w b)
  case Nil
  then show ?case by (auto simp: report_text_def Nil.prems(2)[symmetric])
next
  case (Cons t ts)
  show ?case
  proof (cases "watched names t")
    case False
    then show ?thesis
      using Cons.IH[of pos w b] Cons.prems by (simp add: report_task_apply report_text_def)
  next
    case True
    let ?l = "report_line K tr t"
    have l: "length ?l \<le> 56" using Cons.prems(1) by (intro length_report_line) simp
    have sub: "unat (out_size - pos) = length (0 # b)"
      using Cons.prems(2,3) by (simp add: unat_sub_if')
    have "unat out_size < 2 ^ 32" using unsigned_less[of out_size] by simp
    then have small: "length w + length ?l < 2 ^ 32" using Cons.prems(3,4) l by simp
    have pos: "unat (pos + of_nat (length ?l)) = length (w @ ?l)"
      using Cons.prems(2) small by (simp add: unat_word_ariths unat_of_nat)
    have "snprintf (Some a) pos (out_size - pos) ?l (with_block a (w @ 0 # b) s) =
        Inr (of_nat (length ?l), with_block a ((w @ ?l) @ 0 # drop (length ?l) b) s)"
      using snprintf_append[OF Cons.prems(2) sub, of ?l a s] l Cons.prems(4) by simp
    moreover have "report_text K tr names (t # ts) = ?l @ report_text K tr names ts"
      using True by (simp add: report_text_def)
    moreover have "\<exists>b'. for_each (report_task K tr names (Some a) out_size) ts
        (pos + of_nat (length ?l), with_block a ((w @ ?l) @ 0 # drop (length ?l) b) s) =
      Inr (of_nat (length ((w @ ?l) @ report_text K tr names ts)),
           with_block a (((w @ ?l) @ report_text K tr names ts) @ 0 # b') s)"
      by (rule Cons.IH[OF _ pos]) (use Cons.prems l in auto)
    ultimately show ?thesis using True by (simp add: report_task_apply)
  qed
qed

lemma build_report_eq:
  assumes "heap_ok s" and "\<not> oom (heap s) (brk (heap s))" and "\<not> oom (heap s) (Suc (brk (heap s)))"
    and "uxTaskGetSystemState K (uxTaskGetNumberOfTasks K (kern s) + 4) (kern s) = (ts, tr)"
    and "\<forall>t\<in>set ts. length (ts_pcTaskName t) \<le> 16" and "33 + 56 * length ts < 2 ^ 32"
  shows "\<exists>b' s'. task_monitor_build_report K names s = Inr (Some (Suc (brk (heap s))), s') \<and> heap_ok s' \<and>
     cells (heap s') = (cells (heap s))(Suc (brk (heap s)) \<mapsto> (report_header @ report_text K tr names ts) @ 0 # b') \<and>
     s' = s\<lparr>heap := heap s'\<rparr>"
proof -
  let ?a = "brk (heap s)" and ?n = "uxTaskGetNumberOfTasks K (kern s) + 4"
  let ?txt = "report_header @ report_text K tr names ts"
  define osz :: u32 where "osz = 32 + of_nat (length ts) * 56 + 1"
  define s1 where "s1 = with_block ?a (map (junk (heap s) ?a) [0..<unat (?n * sizeof_TaskStatus_t K)]) s"
  define b where "b = map (junk (heap s) (Suc ?a)) [0..<unat osz]"
  have o: "unat osz = 33 + 56 * length ts"
    using assms(6) by (simp add: osz_def unat_word_ariths unat_of_nat mult.commute)
  have osz: "33 + of_nat (length ts) * 56 = osz" by (simp add: osz_def)
  have h: "length report_header = 30" by (simp add: report_header_def)
  have "snprintf (Some (Suc ?a)) 0 osz report_header (with_block (Suc ?a) ([] @ b) s1) =
      Inr (of_nat (length report_header), with_block (Suc ?a) (([] @ report_header) @ 0 # drop (Suc (length report_header)) b) s1)"
    by (rule snprintf_append) (simp_all add: b_def o h)
  then have p: "snprintf (Some (Suc ?a)) 0 osz report_header (with_block (Suc ?a) b s1) =
      Inr (30, with_block (Suc ?a) (report_header @ 0 # drop 31 b) s1)"
    by (simp add: h)
  obtain b' where l: "for_each (report_task K tr names (Some (Suc ?a)) osz) ts (30, with_block (Suc ?a) (report_header @ 0 # drop 31 b) s1) =
      Inr (of_nat (length ?txt), with_block (Suc ?a) (?txt @ 0 # b') s1)"
    using report_loop[OF assms(5), of 30 report_header "drop 31 b" osz K tr names "Suc ?a" s1] o
    by (auto simp: h b_def simp del: append_assoc)
  let ?t = "with_block (Suc ?a) (?txt @ 0 # b') s1"
  have fr: "free (Some ?a) ?t = Inr (release ?a ?t)"
    by (rule free_release[where b = "map (junk (heap s) ?a) [0..<unat (?n * sizeof_TaskStatus_t K)]"]) (simp add: s1_def)
  have "task_monitor_build_report K names s = Inr (Some (Suc ?a), release ?a ?t)"
    using assms(2,3) p l fr
    by (simp add: task_monitor_build_report_def malloc_with_block s1_def[symmetric] Let_def assms(4) osz,
        simp add: s1_def b_def)
  moreover have "cells (heap (release ?a ?t)) = (cells (heap s))(Suc ?a \<mapsto> ?txt @ 0 # b')"
    using heap_ok_fresh[OF assms(1)] by (auto simp: s1_def fun_eq_iff)
  moreover have "heap_ok (release ?a ?t)"
    using assms(1) by (auto simp: heap_ok_def s1_def less_SucI)
  moreover have "release ?a ?t = s\<lparr>heap := heap (release ?a ?t)\<rparr>"
    by (simp add: release_def with_block_def s1_def)
  ultimately show ?thesis by blast
qed

lemma report_line_nonzero: "0 \<notin> set (ts_pcTaskName t) \<Longrightarrow> 0 \<notin> set (report_line K tr t)"
  by (simp add: report_line_def Let_def chars_def pad_left_def pad_right_def radix_clean)

lemma report_nonzero:
  assumes "\<forall>t\<in>set ts. 0 \<notin> set (ts_pcTaskName t)"
  shows "0 \<notin> set (report_header @ report_text K tr names ts)"
  using assms report_line_nonzero by (auto simp: report_header_def report_text_def chars_def)

section \<open>Properties\<close>

text \<open>
  C17: The report always fits its buffer: for tasks whose names have at most 16 characters,
  \<^verbatim>\<open>task_monitor_build_report\<close> returns a fresh block that holds, zero-terminated and never truncated, the
  header and one line for every task that passes the filter, in the order of the kernel, and has released
  the table of tasks. When an allocation fails it returns null and nothing stays allocated.
\<close>

theorem task_report_correct:
  assumes "heap_ok s" and "uxTaskGetSystemState K (uxTaskGetNumberOfTasks K (kern s) + 4) (kern s) = (ts, tr)"
    and "\<forall>t\<in>set ts. length (ts_pcTaskName t) \<le> 16 \<and> 0 \<notin> set (ts_pcTaskName t)" and "33 + 56 * length ts < 2 ^ 32"
    and "txt = report_header @ concat (map (report_line K tr) (filter (watched names) ts))"
  shows "if oom (heap s) (brk (heap s)) \<or> oom (heap s) (Suc (brk (heap s)))
     then \<exists>s'. task_monitor_build_report K names s = Inr (None, s') \<and> cells (heap s') = cells (heap s)
     else \<exists>a s' blk. task_monitor_build_report K names s = Inr (Some a, s') \<and>
       cells (heap s) a = None \<and> cells (heap s') = (cells (heap s))(a \<mapsto> blk) \<and>
       take (length txt) blk = txt \<and> strlen (Some a) s' = Inr (length txt)"
proof (cases "oom (heap s) (brk (heap s)) \<or> oom (heap s) (Suc (brk (heap s)))")
  case True
  let ?a = "brk (heap s)"
  have "free (Some ?a) (bump (with_block ?a b s)) = Inr (release ?a (bump (with_block ?a b s)))" for b
    by (rule free_release[where b = b]) simp
  then show ?thesis
    using True heap_ok_fresh[OF assms(1)]
    by (auto simp: task_monitor_build_report_def malloc_with_block Let_def assms(2) fun_upd_idem)
next
  case False
  have rep: "txt = report_header @ report_text K tr names ts" using assms(5) by (simp add: report_text_def)
  obtain b' s' where r: "task_monitor_build_report K names s = Inr (Some (Suc (brk (heap s))), s')"
    "cells (heap s') = (cells (heap s))(Suc (brk (heap s)) \<mapsto> txt @ 0 # b')"
    using build_report_eq[OF assms(1) _ _ assms(2) _ assms(4), of names] False assms(3) unfolding rep by blast
  have "0 \<notin> set txt" using report_nonzero[of ts K tr names] assms(3) by (simp add: rep)
  then have "strlen (Some (Suc (brk (heap s)))) s' = Inr (length txt)"
    using r(2) by (simp add: strlen_def heap_tail_def takeWhile_string)
  moreover have "cells (heap s) (Suc (brk (heap s))) = None" using assms(1) by (auto simp: heap_ok_def)
  moreover have "take (length txt) (txt @ 0 # b') = txt" by simp
  ultimately show ?thesis using False r by auto
qed

definition ref_tasks :: "refk task_info" where
  "ref_tasks = \<lparr>uxTaskGetNumberOfTasks = (\<lambda>_. 2), uxTaskGetSystemState = (\<lambda>_ _. (
       [\<lparr>ts_pcTaskName = chars ''tcp task'', ts_usStackHighWaterMark = 612, ts_ulRunTimeCounter = 0\<rparr>,
        \<lparr>ts_pcTaskName = chars ''idle'', ts_usStackHighWaterMark = 90, ts_ulRunTimeCounter = 0\<rparr>], 0)),
     sizeof_TaskStatus_t = 36, configGENERATE_RUN_TIME_STATS = False\<rparr>"

theorem task_report_correct_witness:
  "\<exists>a s'. task_monitor_build_report ref_tasks (Some [chars ''tcp task'']) (base0 ref_init) = Inr (Some a, s') \<and>
     strlen (Some a) s' = Inr 67"
proof -
  let ?s = "base0 ref_init" and ?ns = "Some [chars ''tcp task'']"
  have "\<not> (oom (heap ?s) (brk (heap ?s)) \<or> oom (heap ?s) (Suc (brk (heap ?s))))" by (simp add: base0_def heap0_def)
  moreover have "uxTaskGetSystemState ref_tasks (uxTaskGetNumberOfTasks ref_tasks (kern ?s) + 4) (kern ?s) =
      ([\<lparr>ts_pcTaskName = chars ''tcp task'', ts_usStackHighWaterMark = 612, ts_ulRunTimeCounter = 0\<rparr>,
        \<lparr>ts_pcTaskName = chars ''idle'', ts_usStackHighWaterMark = 90, ts_ulRunTimeCounter = 0\<rparr>], 0)"
    by (simp add: ref_tasks_def)
  note task_report_correct[OF heap_ok_base0 this _ _ refl, of ?ns]
  moreover have "length (report_header @ concat (map (report_line ref_tasks 0) (filter (watched ?ns)
      [\<lparr>ts_pcTaskName = chars ''tcp task'', ts_usStackHighWaterMark = 612, ts_ulRunTimeCounter = 0\<rparr>,
       \<lparr>ts_pcTaskName = chars ''idle'', ts_usStackHighWaterMark = 90, ts_ulRunTimeCounter = 0\<rparr>]))) = 67"
    by (simp add: report_header_def report_line_def watched_def ref_tasks_def chars_def radix.simps)
  ultimately show ?thesis by (simp add: chars_def) blast
qed

end
