(* ===== verification/Tcp_Test.thy ===== *)
theory Tcp_Test
  imports Tcp_Ports
begin

text \<open>
  The TCP test application (\<^verbatim>\<open>tcp_test/src/tcp_test.c\<close>): it listens, greets whoever connects and prints
  what it receives. The greeting is a string literal: \<open>response\<close> is its address, which is not a block of
  the heap.
\<close>

section \<open>Model\<close>

definition on_receive :: "bytes \<Rightarrow> u16 \<Rightarrow> ('k, 'z) base \<Rightarrow> ('k, 'z) base exec" where
  "on_receive data data_length s =
     (let (data_string, s) = malloc (unat data_length + 1) s in
      rbind (read_bytes data 0 (unat data_length)) (\<lambda>bs.
      rbind (heap_write data_string 0 bs s) (\<lambda>s.
      heap_write data_string (unat data_length) [0] s)))"

definition on_connect ::
  "'k rtos \<Rightarrow> addr \<Rightarrow> u16 \<Rightarrow> ipv4_addr \<Rightarrow> ('k, 'z) tcp \<Rightarrow> ('k, 'z) tcp exec" where
  "on_connect R response other_port_num other_ipv4_addr s =
     rbind (tcp_send R Inr 10741 other_port_num other_ipv4_addr (Some response) 13 0 s) (\<lambda>(result, s). Inr s)"

abbreviation (input) TEST_RECEIVE :: nat where "TEST_RECEIVE \<equiv> 1"
abbreviation (input) TEST_CONNECT :: nat where "TEST_CONNECT \<equiv> 2"
abbreviation (input) TEST_DISCONNECT :: nat where "TEST_DISCONNECT \<equiv> 3"

definition on_disconnect :: "'k rtos \<Rightarrow> ('k, 'z) tcp \<Rightarrow> ('k, 'z) tcp exec" where
  "on_disconnect R s =
     rbind (tcp_listen_port R 10741 (Some TEST_RECEIVE) (Some TEST_CONNECT) (Some TEST_DISCONNECT) s)
       (\<lambda>(result, s). Inr s)"

definition tcp_test_init :: "'k rtos \<Rightarrow> ('k, 'z) tcp \<Rightarrow> ('k, 'z) tcp exec" where
  "tcp_test_init R s =
     rbind (tcp_listen_port R 10741 (Some TEST_RECEIVE) (Some TEST_CONNECT) (Some TEST_DISCONNECT) s)
       (\<lambda>(result, s). Inr s)"

text \<open>What the TCP task runs when it calls one of these functions.\<close>

definition test_app :: "'k rtos \<Rightarrow> addr \<Rightarrow> ('k, 'z) app" where
  "test_app R response f c s =
     (case c of
        OnReceive data data_length \<Rightarrow>
          if f = TEST_RECEIVE then on_receive data data_length s else Inl Fault
      | OnConnect port ip \<Rightarrow> if f = TEST_CONNECT then on_connect R response port ip s else Inl Fault
      | OnDisconnect \<Rightarrow> if f = TEST_DISCONNECT then on_disconnect R s else Inl Fault)"

section \<open>Received data\<close>

lemma write_string:
  assumes "length bs = n" and "length blk = n + 1"
  shows "rbind (write_bytes 0 bs blk) (write_bytes n [0]) = Inr (bs @ [0])"
  using write_header_payload[of blk bs "[0]"] assms by simp

lemma heap_write_None: "heap_write None off bs s = Inl Fault"
  by (simp add: heap_write_def)

text \<open>
  Every call of \<^verbatim>\<open>on_receive\<close> that can allocate keeps one more block for ever: a zero-terminated copy of the
  data. Without memory it writes through the null pointer.
\<close>

lemma on_receive_leaks:
  assumes "unat data_length \<le> length data"
  shows "on_receive data data_length s =
     (if oom (heap s) (brk (heap s)) then Inl Fault
      else Inr (with_block (brk (heap s)) (take (unat data_length) data @ [0]) s))"
proof -
  let ?n = "unat data_length" and ?a = "brk (heap s)"
  obtain b where "write_bytes 0 (take ?n data) (map (junk (heap s) ?a) [0..<?n + 1]) = Inr b"
    "write_bytes ?n [0] b = Inr (take ?n data @ [0])"
    using write_string[of "take ?n data" ?n "map (junk (heap s) ?a) [0..<?n + 1]"] assms
    by (auto simp: rbind_eq_Inr)
  then show ?thesis using assms by (simp add: on_receive_def malloc_with_block heap_write_None)
qed

text \<open>
  \<^verbatim>\<open>tcp_send\<close> releases the data it cannot queue, here a string literal: a peer that is gone by the time of
  the callback makes \<^verbatim>\<open>on_connect\<close> free memory that is not on the heap.
\<close>

lemma on_connect_frees_literal:
  assumes "cells (heap s) response = None" and "find_port 10741 port ip s = None"
  shows "on_connect R response port ip s = Inl Fault"
  using assms by (simp add: on_connect_def tcp_send_def free_def)

end
