(* ===== verification/Arp_Scanner.thy ===== *)
theory Arp_Scanner
  imports Wifi_Manager
begin

text \<open>
  The ARP scanner (\<^verbatim>\<open>arp_scanner/src/arp_scanner.c\<close>): it resolves every host address of a network in turn
  and logs what it finds. The log is the list of the lines, each an address in readable form and the
  readable hardware address if there is one.
\<close>

section \<open>Model\<close>

type_synonym scan_log = "(bytes \<times> bytes option) list"

definition scan_address ::
  "'k rtos \<Rightarrow> (('k, 'z) arp \<Rightarrow> ('k, 'z) arp exec) \<Rightarrow> u8 \<Rightarrow> ('k, 'z) arp \<Rightarrow> ((bytes \<times> bytes option) \<times> ('k, 'z) arp) exec" where
  "scan_address R wait i s =
     (let ip = IPv4 192 168 50 i in
      rbind (arp_get_mac_addr R wait ip s) (\<lambda>((result, mac), s).
      rbind (ipv4_to_readable (replicate 16 0) ip) (\<lambda>readable_ip.
      if result \<noteq> ESP_OK then Inr ((readable_ip, None), s)
      else rbind (mac_to_readable (replicate 18 0) (the mac)) (\<lambda>readable_mac.
           Inr ((readable_ip, Some readable_mac), s)))))"

lemma unat_inc_u8: "i < 255 \<Longrightarrow> unat (i + 1 :: u8) = Suc (unat i)"
  by (simp add: word_less_nat_alt unat_word_ariths)

text \<open>\<^verbatim>\<open>for (uint8_t i = ...; i < 255; i++)\<close>: the counter reaches 255 and stops there, it never wraps.\<close>

function (sequential) scan_loop ::
  "'k rtos \<Rightarrow> (('k, 'z) arp \<Rightarrow> ('k, 'z) arp exec) \<Rightarrow> u8 \<Rightarrow> ('k, 'z) arp \<Rightarrow> (scan_log \<times> ('k, 'z) arp) exec" where
  "scan_loop R wait i s =
     (if i < 255
      then rbind (scan_address R wait i s) (\<lambda>(line, s).
           rbind (scan_loop R wait (i + 1) s) (\<lambda>(log, s).
           Inr (line # log, s)))
      else Inr ([], s))"
  by pat_completeness auto
termination
  by (relation "measure (\<lambda>(R, wait, i, s). 255 - unat i)") (simp_all add: unat_inc_u8 word_less_nat_alt)

declare scan_loop.simps [simp del]

definition begin_scan ::
  "'k rtos \<Rightarrow> (('k, 'z) arp \<Rightarrow> ('k, 'z) arp exec) \<Rightarrow> ('k, 'z) arp \<Rightarrow> (scan_log \<times> ('k, 'z) arp) exec" where
  "begin_scan R wait s = scan_loop R wait 1 s"

definition wifi_connect_event ::
  "'k rtos \<Rightarrow> (('k, 'z) arp \<Rightarrow> ('k, 'z) arp exec) \<Rightarrow> ('k, 'z) arp \<Rightarrow> (scan_log \<times> ('k, 'z) arp) exec" where
  "wifi_connect_event R wait s = begin_scan R wait s"

definition arp_scanner_init :: "'k esp_idf \<Rightarrow> ('k, 'z) base \<Rightarrow> ('k, 'z) base exec" where
  "arp_scanner_init E s = esp_error_check (esp_event_handler_register E WIFI_EVENT
     (Event_id WIFI_EVENT_STA_CONNECTED) ''wifi_connect_event'') s"

section \<open>The scan returns\<close>

definition readable_ip_of :: "ipv4_addr \<Rightarrow> bytes" where
  "readable_ip_of ip = ipv4_text ip @ 0 # replicate (15 - length (ipv4_text ip)) 0"

lemma ipv4_to_readable_ok: "ipv4_to_readable (replicate 16 0) ip = Inr (readable_ip_of ip)"
  using length_ipv4_text[of ip] by (simp add: ipv4_to_readable_text sprintf_fits readable_ip_of_def)

lemma read_readable_ip: "read_fields 10 46 (readable_ip_of ip) = ip_bytes ip"
  unfolding readable_ip_of_def by (rule read_ipv4_text)

context rtos_contract
begin

text \<open>
  A lookup returns when there is room for its request and the rest of the system makes room again and
  notifies the task.
\<close>

lemma scan_address_ok:
  assumes "queue_room (view (kern s)) (arp_request_queue s)"
    and "\<forall>t. \<exists>u. wait t = Inr u \<and> queue_room (view (kern u)) (arp_request_queue u) \<and>
      0 < kv_notify (view (kern u)) (xTaskGetCurrentTaskHandle R (kern u))"
  shows "\<exists>mo t. scan_address R wait i s = Inr ((readable_ip_of (IPv4 192 168 50 i), mo), t) \<and>
     queue_room (view (kern t)) (arp_request_queue t) \<and>
     (mo = None \<longleftrightarrow> fst (arp_get_cached_mac_addr (IPv4 192 168 50 i) t) \<noteq> ESP_OK)"
proof -
  let ?ip = "IPv4 192 168 50 i"
  obtain k where k: "q_send R (arp_request_queue s) (ArpRequest \<lparr>rq_ip = ?ip,
      rq_task = xTaskGetCurrentTaskHandle R (kern s)\<rparr>) portMAX_DELAY s = Inr (True, s\<lparr>kern := k\<rparr>)"
    using q_send_room[OF assms(1) disjI2[OF refl]] by blast
  obtain u' where u': "wait (s\<lparr>kern := k\<rparr>) = Inr u'" "queue_room (view (kern u')) (arp_request_queue u')"
    "0 < kv_notify (view (kern u')) (xTaskGetCurrentTaskHandle R (kern u'))"
    using assms(2) by blast
  obtain n k' where k': "notify_take R True portMAX_DELAY u' = Inr (n, u'\<lparr>kern := k'\<rparr>)"
    "kv_queues (view k') = kv_queues (view (kern u'))"
    using u'(3) by (cases rule: notify_take_cases[of u']) auto
  define u where "u = u'\<lparr>kern := k'\<rparr>"
  have u: "queue_room (view (kern u)) (arp_request_queue u)"
    using u'(2) queue_room_cong[OF k'(2)] by (simp add: u_def)
  obtain r mac where r: "arp_get_cached_mac_addr ?ip u = (r, mac)" by force
  have "arp_get_mac_addr R wait ?ip s = Inr ((r, mac), u)"
    using k u'(1) k'(1) r by (simp add: arp_get_mac_addr_def u_def)
  moreover obtain m where "mac_to_readable (replicate 18 0) (the mac) = Inr m" using mac_to_readable_ok by blast
  ultimately show ?thesis
    using r u by (cases "r = ESP_OK") (simp_all add: scan_address_def ipv4_to_readable_ok Let_def)
qed

lemma scan_loop_ok:
  assumes "\<forall>t. \<exists>u. wait t = Inr u \<and> queue_room (view (kern u)) (arp_request_queue u) \<and>
      0 < kv_notify (view (kern u)) (xTaskGetCurrentTaskHandle R (kern u))"
    and "queue_room (view (kern s)) (arp_request_queue s)"
  shows "\<exists>log t. scan_loop R wait i s = Inr (log, t) \<and> queue_room (view (kern t)) (arp_request_queue t) \<and>
     map fst log = map (\<lambda>j. readable_ip_of (IPv4 192 168 50 (of_nat j))) [unat i..<255]"
  using assms(2)
proof (induction "255 - unat i" arbitrary: i s rule: less_induct)
  case less
  show ?case
  proof (cases "i < 255")
    case False
    then have "255 \<le> unat i" by (simp add: word_less_nat_alt)
    then show ?thesis using False less.prems by (simp add: scan_loop.simps[of R wait i])
  next
    case True
    obtain mo t where t: "scan_address R wait i s = Inr ((readable_ip_of (IPv4 192 168 50 i), mo), t)"
      "queue_room (view (kern t)) (arp_request_queue t)"
      using scan_address_ok[OF less.prems assms(1)] by blast
    have up: "unat i < 255" using True by (simp add: word_less_nat_alt)
    then have "255 - unat (i + 1) < 255 - unat i" using unat_inc_u8[OF True] by simp
    from less.hyps[OF this t(2)] obtain log u where l: "scan_loop R wait (i + 1) t = Inr (log, u)"
      "queue_room (view (kern u)) (arp_request_queue u)"
      "map fst log = map (\<lambda>j. readable_ip_of (IPv4 192 168 50 (of_nat j))) [Suc (unat i)..<255]"
      using unat_inc_u8[OF True] by auto
    have "[unat i..<255] = unat i # [Suc (unat i)..<255]" using up by (rule upt_conv_Cons)
    then show ?thesis using True t(1) l by (simp add: scan_loop.simps[of R wait i])
  qed
qed

end

section \<open>Properties\<close>

text \<open>
  C40: A scan ends: the 8-bit counter of \<^verbatim>\<open>begin_scan\<close> does not wrap, and as long as the worker task keeps
  accepting requests and notifies the scanning task, the scan logs exactly the 254 host addresses
  192.168.50.1 to 192.168.50.254, each once and in order.
\<close>

theorem arp_scan_complete:
  assumes "rtos_contract R view" and "queue_room (view (kern s)) (arp_request_queue s)"
    and "\<forall>t. \<exists>u. wait t = Inr u \<and> queue_room (view (kern u)) (arp_request_queue u) \<and>
      0 < kv_notify (view (kern u)) (xTaskGetCurrentTaskHandle R (kern u))"
  shows "\<exists>log t. begin_scan R wait s = Inr (log, t) \<and>
     map (read_fields 10 46 \<circ> fst) log = map (\<lambda>i. [192, 168, 50, of_nat i]) [1..<255]"
proof -
  obtain log t where l: "begin_scan R wait s = Inr (log, t)"
    "map fst log = map (\<lambda>j. readable_ip_of (IPv4 192 168 50 (of_nat j))) [1..<255]"
    using rtos_contract.scan_loop_ok[OF assms(1,3,2), of 1] by (auto simp: begin_scan_def)
  have "map (read_fields 10 46 \<circ> fst) log = map (read_fields 10 46) (map fst log)" by simp
  also have "\<dots> = map (\<lambda>i. [192, 168, 50, of_nat i]) [1..<255]"
    unfolding l(2) by (simp add: read_readable_ip)
  finally show ?thesis using l(1) by blast
qed

text \<open>A worker that takes every request at once and notifies the task.\<close>

definition drain :: "refk arp_net \<Rightarrow> refk arp_net exec" where
  "drain s = Inr (s\<lparr>kern := (kern s)\<lparr>kv_queues := [0 \<mapsto> (4, [])], kv_notify := (\<lambda>_. 1)\<rparr>, arp_request_queue := Some 0\<rparr>)"

theorem arp_scan_complete_witness:
  "\<exists>log t. begin_scan ref_rtos drain (arp1 [] []) = Inr (log, t) \<and> length log = 254"
proof -
  have "queue_room (kview.truncate (kern (arp1 [] []))) (arp_request_queue (arp1 [] []))"
    by (simp add: queue_room_def kview.truncate_def arp_state_defs)
  moreover have "\<forall>t. \<exists>u. drain t = Inr u \<and> queue_room (kview.truncate (kern u)) (arp_request_queue u) \<and>
      0 < kv_notify (kview.truncate (kern u)) (xTaskGetCurrentTaskHandle ref_rtos (kern u))"
    by (simp add: drain_def queue_room_def kview.truncate_def)
  ultimately obtain log t where b: "begin_scan ref_rtos drain (arp1 [] []) = Inr (log, t)"
    and l: "map (read_fields 10 46 \<circ> fst) log = map (\<lambda>i. [192, 168, 50, of_nat i]) [1..<255]"
    using arp_scan_complete[OF refk.rtos_contract_axioms] by blast
  from arg_cong[OF l, of length] have "length log = 254" by simp
  with b show ?thesis by blast
qed

end
