(* ===== verification/Udp.thy ===== *)
theory Udp
  imports Ipv4_Tx Slot_Table
begin

text \<open>
  UDP (\<^verbatim>\<open>protocols/udp.c\<close>, \<^verbatim>\<open>protocols/udp.h\<close>): eight ports with a callback each, datagrams without
  checksum, a worker task with two queues. Its globals carry the same names as those of \<^verbatim>\<open>tcp.c\<close>, so the
  component has a state of its own over the common base, and the clashing names the prefix \<open>udp_\<close>.
\<close>

section \<open>Model\<close>

record 'k udp_net = "'k net_base" +
  port_queue :: "qhandle option"
  udp_send_queue :: "qhandle option"
  udp_task_queue_set :: "qhandle option"
  udp_ports :: "udp_port list"

type_synonym ('k, 'z) udp = "('k, 'z) udp_net_scheme"

record udp_header =
  uh_src_port :: u16
  uh_dst_port :: u16
  uh_length :: u16
  uh_checksum :: u16

definition udp_header_at :: "bytes \<Rightarrow> udp_header" where
  "udp_header_at b = \<lparr>uh_src_port = load16_of b, uh_dst_port = load16_of (drop 2 b),
     uh_length = load16_of (drop 4 b), uh_checksum = load16_of (drop 6 b)\<rparr>"

definition udp_header_bytes :: "udp_header \<Rightarrow> bytes" where
  "udp_header_bytes h = store16 (uh_src_port h) @ store16 (uh_dst_port h) @ store16 (uh_length h)
     @ store16 (uh_checksum h)"

text \<open>The argument is a \<^verbatim>\<open>uint8_t\<close>, compared after promotion with the 16-bit number of the port.\<close>

definition udp_find_port :: "u8 \<Rightarrow> ('k, 'z) udp \<Rightarrow> nat option" where
  "udp_find_port port_number s = find_index (\<lambda>p. up_port_number p = ucast port_number) (udp_ports s)"

text \<open>What a callback does is not part of the stack: \<open>app f data len src\<close> is the effect of calling \<open>f\<close>.\<close>

type_synonym ('k, 'z) udp_app =
  "nat \<Rightarrow> bytes \<Rightarrow> u16 \<Rightarrow> ipv4_addr \<Rightarrow> ('k, 'z) udp \<Rightarrow> ('k, 'z) udp exec"

definition udp_input ::
  "('k, 'z) udp_app \<Rightarrow> bytes \<Rightarrow> ipv4_addr \<Rightarrow> ('k, 'z) udp \<Rightarrow> ('k, 'z) udp exec" where
  "udp_input app buffer src_addr s =
     rbind (read_bytes buffer 0 8) (\<lambda>raw.
     (let header = udp_header_at raw; len = ntohs (uh_length header) in
      if len < 8 then Inr s
      else
        (let dst_port = ntohs (uh_dst_port header) in
         case udp_find_port (ucast dst_port) s of
           None \<Rightarrow> Inr s
         | Some p \<Rightarrow>
             (case up_callback (udp_ports s ! p) of
                None \<Rightarrow> Inl Fault
              | Some f \<Rightarrow> app f (drop 8 buffer) (len - 8) src_addr s))))"

definition udp_create_port :: "'k rtos \<Rightarrow> udp_port \<Rightarrow> ('k, 'z) udp \<Rightarrow> (esp_err \<times> ('k, 'z) udp) exec" where
  "udp_create_port R port s =
     (if up_callback port = None then Inr (ESP_ERR_INVALID_ARG, s)
      else
        rbind (q_send R (port_queue s) (UdpPort port) 0 s) (\<lambda>(result, s).
        if \<not> result then Inr (ESP_ERR_NO_MEM, s) else Inr (ESP_OK, s)))"

definition udp_set_self_net_context :: "net_context \<Rightarrow> ('k, 'z) base \<Rightarrow> ('k, 'z) base" where
  "udp_set_self_net_context net s = s\<lparr>self_net := net\<rparr>"

definition udp_send ::
  "'k rtos \<Rightarrow> udp_transmit_params \<Rightarrow> ('k, 'z) udp \<Rightarrow> (esp_err \<times> ('k, 'z) udp) exec" where
  "udp_send R params s =
     rbind (q_send R (udp_send_queue s) (UdpTx params) 0 s) (\<lambda>(result, s).
     if \<not> result then Inr (ESP_ERR_NO_MEM, s) else Inr (ESP_OK, s))"

definition udp_send_internal ::
  "'k rtos \<Rightarrow> udp_transmit_params \<Rightarrow> ('k, 'z) udp \<Rightarrow> (esp_err \<times> ('k, 'z) udp) exec" where
  "udp_send_internal R params s =
     (let datagram_length = 8 + utx_data_len params;
          (datagram, s) = malloc (unat datagram_length) s in
      if datagram = None then Inr (ESP_ERR_NO_MEM, s)
      else
        rbind (heap_write datagram 0 (udp_header_bytes
          \<lparr>uh_src_port = htons (utx_src_port params), uh_dst_port = htons (utx_dst_port params),
           uh_length = htons datagram_length, uh_checksum = 0\<rparr>) s) (\<lambda>s.
        rbind (if utx_data params \<noteq> None \<and> 0 < utx_data_len params
               then rbind (heap_read (utx_data params) (unat (utx_data_len params)) s) (\<lambda>data.
                    rbind (heap_write datagram 8 data s) (\<lambda>s.
                    free (utx_data params) s))
               else Inr s) (\<lambda>s.
        send_ipv4_packet R
          \<lparr>ip_src_ipv4_addr = nc_ip (self_net s), ip_dst_ipv4_addr = utx_dst_ipv4_addr params,
           ip_protocol = UDP_PROTOCOL_NUMBER, ip_data = datagram, ip_data_len = datagram_length\<rparr> s)))"

definition udp_allocate_port :: "udp_port \<Rightarrow> ('k, 'z) udp \<Rightarrow> esp_err \<times> ('k, 'z) udp" where
  "udp_allocate_port port s =
     (case find_index (\<lambda>p. up_port_number p = 0) (udp_ports s) of
        Some i \<Rightarrow> (ESP_OK, s\<lparr>udp_ports := (udp_ports s)[i := port]\<rparr>)
      | None \<Rightarrow> (ESP_ERR_NO_MEM, s))"

text \<open>One iteration of \<^verbatim>\<open>udp_task\<close>; \<open>queue\<close> is what \<^verbatim>\<open>xQueueSelectFromSet\<close> returned.\<close>

definition udp_task_step :: "'k rtos \<Rightarrow> qhandle option \<Rightarrow> ('k, 'z) udp \<Rightarrow> ('k, 'z) udp exec" where
  "udp_task_step R queue s =
     (if queue = port_queue s then
        rbind (q_receive R (port_queue s) 0 s) (\<lambda>(item, s).
        case item of
          Some (UdpPort port_buf) \<Rightarrow> (let (ares, s) = udp_allocate_port port_buf s in Inr s)
        | None \<Rightarrow> Inr s
        | _ \<Rightarrow> Inl Fault)
      else if queue = udp_send_queue s then
        rbind (q_receive R (udp_send_queue s) 0 s) (\<lambda>(item, s).
        case item of
          Some (UdpTx tx_buf) \<Rightarrow> rbind (udp_send_internal R tx_buf s) (\<lambda>(sres, s). Inr s)
        | None \<Rightarrow> Inr s
        | _ \<Rightarrow> Inl Fault)
      else Inr s)"

definition udp_init :: "'k rtos \<Rightarrow> ('k, 'z) udp \<Rightarrow> ('k, 'z) udp exec" where
  "udp_init R s =
     (let s = (if udp_task_queue_set s = None
               then let (q, s) = qset_create R 8 s in s\<lparr>udp_task_queue_set := q\<rparr> else s) in
      rbind (if port_queue s = None
             then let (q, s) = q_create R 4 s; s = s\<lparr>port_queue := q\<rparr> in
                  if q = None then Inr (False, s)
                  else rbind (qset_add R (port_queue s) (udp_task_queue_set s) s) (\<lambda>s. Inr (True, s))
             else Inr (True, s)) (\<lambda>(ok, s).
      if \<not> ok then Inr s else
      rbind (if udp_send_queue s = None
             then let (q, s) = q_create R 8 s; s = s\<lparr>udp_send_queue := q\<rparr> in
                  if q = None then Inr (False, s)
                  else rbind (qset_add R (udp_send_queue s) (udp_task_queue_set s) s) (\<lambda>s. Inr (True, s))
             else Inr (True, s)) (\<lambda>(ok, s).
      if \<not> ok then Inr s else
      (let (xReturned, s) = task_create R ''udp task'' s in Inr s))))"

section \<open>Ports\<close>

interpretation udp_table: slot_table udp_ports "\<lambda>p. up_port_number p = 0" udp_allocate_port "\<lambda>e. e = ESP_OK"
  by unfold_locales (simp_all add: udp_allocate_port_def)

section \<open>Datagrams\<close>

definition udp_datagram :: "u16 \<Rightarrow> u16 \<Rightarrow> bytes \<Rightarrow> bytes" where
  "udp_datagram sp dp data = udp_header_bytes \<lparr>uh_src_port = htons sp, uh_dst_port = htons dp,
     uh_length = htons (of_nat (8 + length data)), uh_checksum = 0\<rparr> @ data"

lemma length_udp_header_bytes [simp]: "length (udp_header_bytes h) = 8"
  by (simp add: udp_header_bytes_def)

lemma length_udp_datagram [simp]: "length (udp_datagram sp dp data) = 8 + length data"
  by (simp add: udp_datagram_def)

lemma udp_header_roundtrip: "udp_header_at (udp_header_bytes h) = (h :: udp_header)"
  by (simp add: udp_header_at_def udp_header_bytes_def store16_def load16_of_def)

text \<open>A datagram of the sender, possibly with padding, as \<^verbatim>\<open>udp_input\<close> sees it.\<close>

lemma udp_input_datagram:
  assumes "length data \<le> 65527"
  shows "udp_input app (udp_datagram sp dp data @ pad) src s =
     (case udp_find_port (ucast dp) s of
        None \<Rightarrow> Inr s
      | Some p \<Rightarrow>
          (case up_callback (udp_ports s ! p) of
             None \<Rightarrow> Inl Fault
           | Some f \<Rightarrow> app f (data @ pad) (of_nat (length data)) src s))"
proof -
  have "\<not> of_nat (8 + length data) < (8 :: u16)" using assms by (simp add: word_less_nat_alt unat_of_nat del: of_nat_add)
  moreover have "ntohs (htons w) = w" for w by (simp add: htons_def)
  moreover have "of_nat (8 + length data) - 8 = (of_nat (length data) :: u16)" by simp
  ultimately show ?thesis
    by (simp add: udp_input_def udp_datagram_def udp_header_roundtrip Let_def del: of_nat_add
        split: option.splits)
qed

section \<open>Sending\<close>

definition udp_ip_params :: "udp_transmit_params \<Rightarrow> addr \<Rightarrow> ('k, 'z) base \<Rightarrow> ipv4_transmit_params" where
  "udp_ip_params params a s =
     \<lparr>ip_src_ipv4_addr = nc_ip (self_net s), ip_dst_ipv4_addr = utx_dst_ipv4_addr params, ip_protocol = 17,
      ip_data = Some a, ip_data_len = 8 + utx_data_len params\<rparr>"

lemma udp_send_internal_eq:
  assumes "heap_ok s" and "utx_data params = Some d" and "cells (heap s) d = Some blk"
    and "0 < utx_data_len params" and "unat (utx_data_len params) \<le> length blk"
  shows "udp_send_internal R params s =
     (if oom (heap s) (brk (heap s)) then Inr (ESP_ERR_NO_MEM, bump s)
      else if 65527 < unat (utx_data_len params) then Inl Fault
      else send_ipv4_packet R (udp_ip_params params (brk (heap s)) s)
        (release d (with_block (brk (heap s)) (udp_datagram (utx_src_port params) (utx_dst_port params)
           (take (unat (utx_data_len params)) blk)) s)))"
proof (cases "65527 < unat (utx_data_len params)")
  case True
  then have "unat (8 + utx_data_len params) < 8"
    using unat_less_65536[of "utx_data_len params"] by (simp add: unat_plus_u16 del: unat_less_65536)
  with True show ?thesis
    by (simp add: udp_send_internal_def malloc_with_block Let_def write_bytes_fault)
next
  case False
  let ?a = "brk (heap s)" and ?n = "unat (utx_data_len params)" and ?data = "take (unat (utx_data_len params)) blk"
  let ?h = "udp_header_bytes \<lparr>uh_src_port = htons (utx_src_port params),
    uh_dst_port = htons (utx_dst_port params), uh_length = htons (8 + utx_data_len params), uh_checksum = 0\<rparr>"
  have n: "unat (8 + utx_data_len params) = 8 + ?n" using False by (simp add: unat_plus_u16)
  have "?h @ ?data = udp_datagram (utx_src_port params) (utx_dst_port params) ?data"
    using assms(5) by (simp add: udp_datagram_def)
  moreover have "length (map (junk (heap s) ?a) [0..<8 + ?n]) = length ?h + length ?data"
    using assms(5) by simp
  note write_header_payload[OF this]
  ultimately obtain b where w: "write_bytes 0 ?h (map (junk (heap s) ?a) [0..<8 + ?n]) = Inr b"
    "write_bytes 8 ?data b = Inr (udp_datagram (utx_src_port params) (utx_dst_port params) ?data)"
    by (auto simp: rbind_eq_Inr)
  have "heap_read (Some d) ?n s = Inr ?data" using assms(3,5) by (simp add: heap_read_def)
  then have rd: "heap_read (Some d) ?n (with_block ?a c s) = Inr ?data" for c
    using assms(1) by (rule heap_read_other_block[rotated])
  have "d < ?a" using assms(1,3) by (rule heap_ok_live)
  then have fr: "free (Some d) (with_block ?a c s) = Inr (release d (with_block ?a c s))" for c
    using assms(3) by (intro free_release[where b = blk]) simp
  show ?thesis
    using False assms(2,4)
    by (simp add: udp_send_internal_def malloc_with_block n w rd fr Let_def udp_ip_params_def)
qed

section \<open>From a created port to a delivered datagram\<close>

lemma udp_allocated_reached:
  fixes n :: u8
  assumes "up_port_number port = ucast n" and "up_callback port = Some f"
    and "\<exists>p\<in>set (udp_ports s). up_port_number p = 0" and "\<forall>p\<in>set (udp_ports s). up_port_number p \<noteq> ucast n"
    and "length data \<le> 65527"
  shows "\<exists>s'. udp_allocate_port port s = (ESP_OK, s') \<and>
     udp_input app (udp_datagram sp (ucast n) data @ pad) src s' =
       app f (data @ pad) (of_nat (length data)) src s' \<and>
     (\<forall>j<length (udp_ports s). up_port_number (udp_ports s ! j) \<noteq> 0 \<longrightarrow> udp_ports s' ! j = udp_ports s ! j)"
proof -
  obtain i where i: "find_index (\<lambda>p. up_port_number p = 0) (udp_ports s) = Some i"
    using assms(3) by (cases "find_index (\<lambda>p. up_port_number p = 0) (udp_ports s)") (auto simp: find_index_None)
  define s' where "s' = snd (udp_allocate_port port s)"
  have a: "udp_allocate_port port s = (ESP_OK, s')" "udp_ports s' = (udp_ports s)[i := port]"
    using udp_table.alloc_found[OF i, of port] by (simp_all add: s'_def prod_eq_iff)
  have "find_index (\<lambda>p. up_port_number p = ucast n) (udp_ports s) = None"
    using assms(4) by (simp add: find_index_None)
  from udp_table.found_after_alloc[OF i this, of port] assms(1)
  have "udp_find_port n s' = Some i" by (simp add: udp_find_port_def s'_def)
  moreover have "ucast (ucast n :: u16) = n" by (simp only: word_unat_eq_iff unat_ucast_u16_u8 unat_ucast_u8_u16) simp
  moreover have "udp_ports s' ! i = port" using a(2) i by (simp add: find_index_Some)
  ultimately have "udp_input app (udp_datagram sp (ucast n) data @ pad) src s' =
      app f (data @ pad) (of_nat (length data)) src s'"
    using assms(2,5) by (simp add: udp_input_datagram)
  moreover have "\<forall>j<length (udp_ports s). up_port_number (udp_ports s ! j) \<noteq> 0 \<longrightarrow> udp_ports s' ! j = udp_ports s ! j"
    by (simp add: s'_def udp_table.alloc_keeps)
  ultimately show ?thesis using a(1) by blast
qed

text \<open>The port that a lookup selects carries the low byte of the number looked up.\<close>

lemma udp_found_number:
  fixes dp :: u16
  assumes "udp_find_port (ucast dp) s = Some p"
  shows "unat (up_port_number (udp_ports s ! p)) = unat dp mod 256"
proof -
  have "up_port_number (udp_ports s ! p) = ucast (ucast dp :: u8)"
    using assms by (simp add: udp_find_port_def find_index_Some)
  then show ?thesis by simp
qed

context rtos_contract
begin

lemma udp_port_created:
  assumes "queue_room (view (kern s)) (port_queue s)" and "queue_items (view (kern s)) (port_queue s) = []"
    and "up_callback port = Some f"
  shows "\<exists>k k'. udp_create_port R port s = Inr (ESP_OK, s\<lparr>kern := k\<rparr>) \<and>
     udp_task_step R (port_queue s) (s\<lparr>kern := k\<rparr>) = Inr (snd (udp_allocate_port port (s\<lparr>kern := k'\<rparr>)))"
proof -
  obtain k where k: "q_send R (port_queue s) (UdpPort port) 0 s = Inr (True, s\<lparr>kern := k\<rparr>)"
    "view k = kv_push (port_queue s) (UdpPort port) (view (kern s))"
    using assms(1) by (rule q_send_room[OF _ disjI1[OF refl]])
  have items: "queue_items (view (kern (s\<lparr>kern := k\<rparr>))) (port_queue s) = [UdpPort port]"
    using queue_items_push[OF assms(1), of "UdpPort port"] assms(2) k(2) by simp
  obtain k' where "q_receive R (port_queue s) 0 (s\<lparr>kern := k\<rparr>) = Inr (Some (UdpPort port), s\<lparr>kern := k, kern := k'\<rparr>)"
    by (rule q_receive_first[OF items]) blast
  then have "udp_task_step R (port_queue s) (s\<lparr>kern := k\<rparr>) = Inr (snd (udp_allocate_port port (s\<lparr>kern := k'\<rparr>)))"
    by (simp add: udp_task_step_def case_prod_beta)
  moreover have "udp_create_port R port s = Inr (ESP_OK, s\<lparr>kern := k\<rparr>)"
    using k(1) assms(3) by (simp add: udp_create_port_def)
  ultimately show ?thesis by blast
qed

end

section \<open>A concrete state\<close>

text \<open>Queues 3 and 4 of the UDP task, and the given ports, over the state of the IPv4 example.\<close>

definition udp1 :: "udp_port list \<Rightarrow> refk udp_net" where
  "udp1 ps = net_base.extend (net_base.truncate ipv4_s1)
     \<lparr>port_queue = Some 0, udp_send_queue = Some 1, udp_task_queue_set = Some 9, udp_ports = ps\<rparr>"

definition no_port :: udp_port where
  "no_port = \<lparr>up_port_number = 0, up_callback = None\<rparr>"

lemma udp1_sel [simp]:
  "heap (udp1 ps) = heap0\<lparr>cells := [0 \<mapsto> [10, 20, 30]], brk := 1\<rparr>" "udp_ports (udp1 ps) = ps"
  "kern (udp1 ps) = ref_init\<lparr>kv_queues := [0 \<mapsto> (4, []), 1 \<mapsto> (4, []), 2 \<mapsto> (4, [])], rk_next := 3\<rparr>"
  "ipv4_transmit_queue (udp1 ps) = Some 2"
  "self_net (udp1 ps) = \<lparr>nc_mac = MAC 0x30 0x83 0x98 0x94 0xEC 0x1B, nc_ip = IPv4 192 168 1 230\<rparr>"
  by (simp_all add: udp1_def net_base.extend_def net_base.truncate_def ipv4_state_defs)

section \<open>Properties\<close>

text \<open>
  C36: \<^verbatim>\<open>udp_send_internal\<close> hands IPv4 one datagram for the destination, the header with both ports and
  the length followed by exactly the data, and releases the caller's data; when the transmit queue is
  full the datagram is released as well. Data of more than 65527 bytes makes the 16-bit length wrap and
  the header overruns the block. When the allocation fails the data stays allocated although no one
  refers to it any more.
\<close>

theorem udp_send_internal_correct:
  assumes "rtos_contract R view" and "heap_ok s" and "queue_holds P (view (kern s)) (ipv4_transmit_queue s)"
    and "utx_data params = Some d" and "cells (heap s) d = Some blk"
    and "0 < utx_data_len params" and "unat (utx_data_len params) \<le> length blk"
  shows "if oom (heap s) (brk (heap s)) then
       \<exists>s'. udp_send_internal R params s = Inr (ESP_ERR_NO_MEM, s') \<and> cells (heap s') = cells (heap s)
     else if 65527 < unat (utx_data_len params) then udp_send_internal R params s = Inl Fault
     else \<exists>e s'. udp_send_internal R params s = Inr (e, s') \<and>
       (if queue_room (view (kern s)) (ipv4_transmit_queue s)
        then e = ESP_OK \<and>
          cells (heap s') = (cells (heap s))(brk (heap s) \<mapsto> udp_datagram (utx_src_port params)
            (utx_dst_port params) (take (unat (utx_data_len params)) blk), d := None) \<and>
          queue_items (view (kern s')) (ipv4_transmit_queue s) =
          queue_items (view (kern s)) (ipv4_transmit_queue s) @ [Ipv4Tx (udp_ip_params params (brk (heap s)) s)]
        else e = ESP_FAIL \<and> cells (heap s') = (cells (heap s))(d := None) \<and> view (kern s') = view (kern s))"
proof -
  let ?a = "brk (heap s)"
  let ?dg = "udp_datagram (utx_src_port params) (utx_dst_port params) (take (unat (utx_data_len params)) blk)"
  let ?s = "release d (with_block ?a ?dg s)"
  note run = udp_send_internal_eq[OF assms(2,4-7), of R]
  have "d < ?a" using assms(2,5) by (rule heap_ok_live)
  then have q: "queue_holds P (view (kern ?s)) (ipv4_transmit_queue ?s)" "cells (heap ?s) ?a = Some ?dg"
    "ip_data (udp_ip_params params ?a s) = Some ?a"
    using assms(3) by (simp_all add: udp_ip_params_def)
  have undo: "(cells (heap s))(?a \<mapsto> b, d := None, ?a := None) = (cells (heap s))(d := None)" for b
    using heap_ok_fresh[OF assms(2)] \<open>d < ?a\<close> by (auto simp: fun_eq_iff)
  show ?thesis
  proof (cases "oom (heap s) ?a \<or> 65527 < unat (utx_data_len params)")
    case True
    then show ?thesis by (auto simp: run)
  next
    case False
    with run have eq: "udp_send_internal R params s = send_ipv4_packet R (udp_ip_params params ?a s) ?s" by simp
    show ?thesis
      by (rule rtos_contract.send_ipv4_packet_cases[OF assms(1) q])
         (use False in \<open>auto simp: eq undo queue_items_def\<close>)
  qed
qed

theorem udp_send_internal_correct_witness:
  "\<exists>s'. udp_send_internal ref_rtos \<lparr>utx_src_port = 7, utx_dst_port = 53, utx_dst_ipv4_addr = IPv4 192 168 1 1,
       utx_data = Some 0, utx_data_len = 2\<rparr> (udp1 []) = Inr (ESP_OK, s') \<and>
     cells (heap s') = [1 \<mapsto> udp_datagram 7 53 [10, 20]]"
  (is "\<exists>s'. udp_send_internal _ ?p ?s = _ \<and> _")
proof -
  have room: "queue_room (kview.truncate (kern ?s)) (ipv4_transmit_queue ?s)"
    by (simp add: queue_room_def kview.truncate_def)
  have "queue_holds (\<lambda>_. True) (kview.truncate (kern ?s)) (ipv4_transmit_queue ?s)"
    by (simp add: queue_holds_def kview.truncate_def)
  moreover have "heap_ok ?s" by (simp add: heap_ok_def)
  ultimately have "\<exists>e s'. udp_send_internal ref_rtos ?p ?s = Inr (e, s') \<and> e = ESP_OK \<and>
      cells (heap s') = (cells (heap ?s))(brk (heap ?s) \<mapsto> udp_datagram 7 53 (take 2 [10, 20, 30]), 0 := None)"
    using udp_send_internal_correct[OF refk.rtos_contract_axioms, of ?s "\<lambda>_. True" ?p 0 "[10, 20, 30]"] room
    by (simp add: heap0_def) blast
  then show ?thesis by (auto simp: heap0_def)
qed

text \<open>
  C37: From the creation of a port to the delivery of data. A port with a callback and a number \<open>n\<close> that no
  port has yet is created by \<^verbatim>\<open>udp_create_port\<close> and the next iteration of \<^verbatim>\<open>udp_task\<close>, if there is a vacant
  entry; the other ports stay as they are. If \<open>n\<close> is below 256, a datagram for port \<open>n\<close>, as the sender
  builds it and with any padding, then makes \<^verbatim>\<open>udp_input\<close> call this callback with exactly the data and its
  length. If \<open>n\<close> is 256 or more, the lookup for a datagram to port \<open>n\<close> never selects the new port.
\<close>

theorem udp_roundtrip:
  assumes "rtos_contract R view" and "queue_room (view (kern s)) (port_queue s)"
    and "queue_items (view (kern s)) (port_queue s) = []"
    and "n = up_port_number port" and "n \<noteq> 0" and "up_callback port = Some f"
    and "\<exists>p\<in>set (udp_ports s). up_port_number p = 0" and "\<forall>p\<in>set (udp_ports s). up_port_number p \<noteq> n"
    and "length data \<le> 65527"
  shows "\<exists>s1 s'. udp_create_port R port s = Inr (ESP_OK, s1) \<and> udp_task_step R (port_queue s1) s1 = Inr s' \<and>
     port \<in> set (udp_ports s') \<and>
     (\<forall>j<length (udp_ports s). up_port_number (udp_ports s ! j) \<noteq> 0 \<longrightarrow> udp_ports s' ! j = udp_ports s ! j) \<and>
     (if unat n < 256
      then udp_input app (udp_datagram sp n data @ pad) src s' = app f (data @ pad) (of_nat (length data)) src s'
      else (\<forall>i. udp_find_port (ucast n) s' = Some i \<longrightarrow> udp_ports s' ! i \<noteq> port))"
proof -
  obtain k k' where run: "udp_create_port R port s = Inr (ESP_OK, s\<lparr>kern := k\<rparr>)"
    "udp_task_step R (port_queue s) (s\<lparr>kern := k\<rparr>) = Inr (snd (udp_allocate_port port (s\<lparr>kern := k'\<rparr>)))"
    using rtos_contract.udp_port_created[OF assms(1-3,6)] by blast
  let ?t = "s\<lparr>kern := k'\<rparr>"
  define s' where "s' = snd (udp_allocate_port port ?t)"
  obtain i where i: "find_index (\<lambda>p. up_port_number p = 0) (udp_ports ?t) = Some i"
    using assms(7) by (cases "find_index (\<lambda>p. up_port_number p = 0) (udp_ports ?t)") (auto simp: find_index_None)
  have "udp_ports s' = (udp_ports s)[i := port]" "i < length (udp_ports s)"
    using udp_table.alloc_found[OF i, of port] find_index_SomeD[OF i] by (simp_all add: s'_def)
  then have mem: "port \<in> set (udp_ports s')" by (simp add: set_update_memI)
  have "udp_input app (udp_datagram sp n data @ pad) src s' = app f (data @ pad) (of_nat (length data)) src s'"
    if "unat n < 256"
  proof -
    have n: "n = ucast (ucast n :: u8)" using that by (simp add: word_unat_eq_iff)
    then show ?thesis
      using udp_allocated_reached[of port "ucast n" f ?t data app sp pad src] assms(4,6-9)
      by (auto simp: s'_def)
  qed
  moreover have "udp_ports s' ! j \<noteq> port" if "\<not> unat n < 256" "udp_find_port (ucast n) s' = Some j" for j
    using udp_found_number[OF that(2)] that(1) assms(4) unat_less_65536[of n] by auto
  moreover have "\<forall>j<length (udp_ports s). up_port_number (udp_ports s ! j) \<noteq> 0 \<longrightarrow> udp_ports s' ! j = udp_ports s ! j"
    using udp_table.alloc_keeps[of _ ?t port] by (simp add: s'_def)
  ultimately show ?thesis
    using run mem by (intro exI[of _ "s\<lparr>kern := k\<rparr>"] exI[of _ s']) (simp add: s'_def)
qed

theorem udp_roundtrip_witness:
  "\<exists>s1 s'. udp_create_port ref_rtos \<lparr>up_port_number = 53, up_callback = Some 4\<rparr>
       (udp1 [\<lparr>up_port_number = 7, up_callback = Some 3\<rparr>, no_port]) = Inr (ESP_OK, s1) \<and>
     udp_task_step ref_rtos (port_queue s1) s1 = Inr s' \<and>
     udp_input (\<lambda>f d n a s. if f = 4 \<and> d = [1, 2, 3, 0] \<and> n = 3 then Inr s else Inl Fault)
       (udp_datagram 9 53 [1, 2, 3] @ [0]) (IPv4 1 2 3 4) s' = Inr s' \<and>
     udp_ports s' ! 0 = \<lparr>up_port_number = 7, up_callback = Some 3\<rparr>"
proof -
  let ?s = "udp1 [\<lparr>up_port_number = 7, up_callback = Some 3\<rparr>, no_port]"
  have "queue_room (kview.truncate (kern ?s)) (port_queue ?s)" "queue_items (kview.truncate (kern ?s)) (port_queue ?s) = []"
    by (simp_all add: queue_room_def queue_items_def kview.truncate_def udp1_def net_base.extend_def
        net_base.truncate_def ipv4_state_defs)
  from udp_roundtrip[OF refk.rtos_contract_axioms this, of 53 "\<lparr>up_port_number = 53, up_callback = Some 4\<rparr>" 4 "[1, 2, 3]"
      "\<lambda>f d n a s. if f = 4 \<and> d = [1, 2, 3, 0] \<and> n = 3 then Inr s else Inl Fault" 9 "[0]" "IPv4 1 2 3 4"]
  show ?thesis by (simp add: no_port_def) fastforce
qed

text \<open>
  C38: The search for the port of a datagram compares eight bits only. A port numbered 256 or more is
  never called: every datagram goes to the first port whose whole number is the low byte of the
  destination. In particular a destination that is a multiple of 256 selects a vacant entry, if there is
  one before any such port, and the handler calls a null pointer.
\<close>

theorem udp_port_truncated:
  assumes "length data \<le> 65527"
  shows "(\<forall>p. udp_find_port (ucast dp) s = Some p \<longrightarrow> unat (up_port_number (udp_ports s ! p)) = unat dp mod 256) \<and>
     (unat dp mod 256 = 0 \<and> no_port \<in> set (udp_ports s) \<and>
        (\<forall>p\<in>set (udp_ports s). up_port_number p = 0 \<longrightarrow> p = no_port) \<longrightarrow>
      udp_input app (udp_datagram sp dp data @ pad) src s = Inl Fault)"
proof (intro conjI allI impI)
  fix p assume "udp_find_port (ucast dp) s = Some p"
  then show "unat (up_port_number (udp_ports s ! p)) = unat dp mod 256" by (rule udp_found_number)
next
  assume *: "unat dp mod 256 = 0 \<and> no_port \<in> set (udp_ports s) \<and>
        (\<forall>p\<in>set (udp_ports s). up_port_number p = 0 \<longrightarrow> p = no_port)"
  then have z: "(ucast dp :: u8) = 0" by (simp add: word_unat_eq_iff)
  obtain i where i: "udp_find_port 0 s = Some i"
    using * by (cases "udp_find_port 0 s") (auto simp: udp_find_port_def find_index_None no_port_def)
  then have "udp_ports s ! i = no_port" using * by (auto simp: udp_find_port_def find_index_Some)
  then show "udp_input app (udp_datagram sp dp data @ pad) src s = Inl Fault"
    using assms i by (simp add: udp_input_datagram z no_port_def)
qed

theorem udp_port_truncated_witness:
  "udp_input (\<lambda>f d n a s. Inr s) (udp_datagram 9 512 [1, 2, 3]) (IPv4 1 2 3 4)
     (udp1 (\<lparr>up_port_number = 512, up_callback = Some 3\<rparr> # replicate 7 no_port)) = Inl Fault"
  using udp_port_truncated[of "[1, 2, 3]" 512 "udp1 (\<lparr>up_port_number = 512, up_callback = Some 3\<rparr> # replicate 7 no_port)"
      "\<lambda>f d n a s. Inr s" 9 "[]" "IPv4 1 2 3 4"]
  by simp

end
