(* ===== verification/Arp_Lookup.thy ===== *)
theory Arp_Lookup
  imports Arp
begin

text \<open>
  The blocking lookup against the worker task: \<^verbatim>\<open>arp_get_mac_addr\<close> posts a request and sleeps; meanwhile
  iterations of \<^verbatim>\<open>arp_task\<close> and received ARP packets follow each other in any order.
\<close>

section \<open>What happens while the caller sleeps\<close>

datatype arp_event = Worker mac_addr "qhandle option" | Packet bytes u16

fun arp_event_step :: "'k rtos \<Rightarrow> arp_event \<Rightarrow> ('k, 'z) arp \<Rightarrow> ('k, 'z) arp exec" where
  "arp_event_step R (Worker stk h) s = arp_task_step R stk h s"
| "arp_event_step R (Packet buffer len) s = arp_input R buffer len s"

fun complete :: "arp_event \<Rightarrow> bool" where
  "complete (Worker stk h) = True"
| "complete (Packet buffer len) = (28 \<le> length buffer)"

section \<open>No event loses a request\<close>

context rtos_contract
begin

abbreviation undisturbed :: "('k, 'z) arp \<Rightarrow> ('k, 'z) arp \<Rightarrow> bool" where
  "undisturbed s s' \<equiv> arp_ready (view (kern s')) s' \<and> (\<forall>t. asked (view (kern s')) s' t = asked (view (kern s)) s t)"

text \<open>A reply for the worker changes only the queue of the replies.\<close>

lemma entry_arrives:
  assumes "arp_ready (view (kern s)) s"
  shows "\<exists>ok s'. q_send R (arp_input_queue s) (ArpEntry e) 0 s = Inr (ok, s') \<and> undisturbed s s'"
proof -
  have "queue_holds is_arp_entry (view (kern s)) (arp_input_queue s)" using assms by (simp add: arp_ready_def)
  then show ?thesis
  proof (cases rule: q_send_cases[where m = "ArpEntry e"])
    case (full k)
    then show ?thesis using assms by (intro exI[of _ False] exI[of _ "s\<lparr>kern := k\<rparr>"]) (simp add: arp_ready_def asked_def)
  next
    case (sent k q cap ms)
    then have "undisturbed s (s\<lparr>kern := k\<rparr>)"
      using assms by (auto simp: arp_ready_def queue_holds_def asked_def queue_items_def split: option.splits)
    then show ?thesis using sent(1) by blast
  qed
qed

lemma arp_input_undisturbed:
  assumes "arp_ready (view (kern s)) s" and "28 \<le> length buffer"
  shows "\<exists>s'. arp_input R buffer len s = Inr s' \<and> undisturbed s s'"
proof -
  have inv: "arp_inv s" using assms(1) by (simp add: arp_ready_def)
  have reply: "\<exists>e s'. send_arp_reply R mac ip s = Inr (e, s') \<and> undisturbed s s'" for mac ip
  proof -
    have "\<exists>e s'. send_arp_reply R mac ip s = Inr (e, s') \<and> kept s s' none \<and>
        arp_pending_tasks s' = arp_pending_tasks s"
      unfolding send_arp_reply_def by (rule eth_tx_kept[OF inv]) simp_all
    then obtain e s' where s': "send_arp_reply R mac ip s = Inr (e, s')" "kept s s' none" by blast
    then show ?thesis using kept_ready[OF assms(1) s'(2)] kept_asked[OF s'(2)] by (auto simp: none_def)
  qed
  have "undisturbed s s" using assms(1) by simp
  then show ?thesis
    using assms(2) reply entry_arrives[OF assms(1)]
    by (fastforce simp: arp_input_def Let_def rbind_eq_Inr)
qed

lemma events_undisturbed:
  assumes "arp_ready (view (kern s)) s" and "\<forall>e\<in>set es. complete e"
  shows "\<exists>u. for_each (arp_event_step R) es s = Inr u \<and> undisturbed s u"
proof (rule for_each_total)
  fix e s1
  assume e: "e \<in> set es" and s1: "undisturbed s s1"
  show "\<exists>s2. arp_event_step R e s1 = Inr s2 \<and> undisturbed s s2"
  proof (cases e)
    case (Worker stk h)
    then show ?thesis using arp_task_step_ready[of s1 stk h] s1 by auto
  next
    case (Packet buffer len)
    then show ?thesis using arp_input_undisturbed[of s1 buffer len] s1 e assms(2) by auto
  qed
qed (use assms(1) in simp)

text \<open>Posting a request counts it once for the task that asks.\<close>

lemma request_posted:
  assumes "arp_ready (view (kern s)) s" and "queue_room (view (kern s)) (arp_request_queue s)"
  obtains k where "q_send R (arp_request_queue s) (ArpRequest r) portMAX_DELAY s = Inr (True, s\<lparr>kern := k\<rparr>)"
    "arp_ready (view k) (s\<lparr>kern := k\<rparr>)"
    "\<forall>t. asked (view k) (s\<lparr>kern := k\<rparr>) t = asked (view (kern s)) s t + (if rq_task r = t then 1 else 0)"
proof -
  obtain k where k: "q_send R (arp_request_queue s) (ArpRequest r) portMAX_DELAY s = Inr (True, s\<lparr>kern := k\<rparr>)"
    "view k = kv_push (arp_request_queue s) (ArpRequest r) (view (kern s))"
    using assms(2) by (rule q_send_room[OF _ disjI2[OF refl]])
  show thesis
  proof (rule that[OF k(1)])
    show "arp_ready (view k) (s\<lparr>kern := k\<rparr>)"
      using assms(1) k(2) by (auto simp: arp_ready_def intro!: queue_holds_push)
    show "\<forall>t. asked (view k) (s\<lparr>kern := k\<rparr>) t = asked (view (kern s)) s t + (if rq_task r = t then 1 else 0)"
      using queue_items_push[OF assms(2), of "ArpRequest r"] k(2) by (simp add: asked_def)
  qed
qed

end

section \<open>A concrete exchange\<close>

text \<open>The reference kernel as task 7 sees it.\<close>

definition task_rtos :: "refk rtos" where
  "task_rtos = ref_rtos\<lparr>xTaskGetCurrentTaskHandle := (\<lambda>_. 7), ulTaskNotifyTake := kt_take 7\<rparr>"

interpretation taskk: rtos_contract task_rtos kview.truncate
  by unfold_locales
     (auto simp: task_rtos_def ref_rtos_def kq_send_def kq_receive_def ks_take_def ks_give_def ks_count_def
        ks_delete_def kt_notify_def kt_take_def kt_create_def kview.truncate_def split: option.splits list.splits if_splits)

text \<open>
  A neighbour is cached and there is no memory for a request frame, so that the worker notifies the task as
  soon as it takes the request.
\<close>

definition arp_poor :: "msg list \<Rightarrow> refk arp_net" where
  "arp_poor rs = (arp1 rs [])\<lparr>heap := heap0\<lparr>oom := (\<lambda>_. True)\<rparr>,
     ip_mac_cache := (IPv4 192 168 1 1, MAC 1 2 3 4 5 6) # replicate 15 (0, 0)\<rparr>"

lemma arp_poor_ready: "arp_ready (kview.truncate (kern (arp_poor []))) (arp_poor [])"
  using arp_ready_arp1[of "[]" "[]"]
  by (simp add: arp_ready_def arp_inv_def heap_ok_def arp_poor_def heap0_def arp1_def arp0_def net_base.extend_def)

section \<open>Properties\<close>

text \<open>
  C24: No wake-up is lost. A task that is not waiting for anything looks up an address, and while it sleeps
  any number of iterations of the worker task and of received ARP packets follow in any order. They all
  return. If they have notified the task, the lookup returns what the cache holds then, and leaves neither
  a request nor a notification behind. If they have not, the task stays asleep and its request is still
  there exactly once, in the request queue or in the table of pending requests.
\<close>

theorem arp_lookup_wakes:
  assumes "rtos_contract R view" and "arp_ready (view (kern s)) s" and "queue_room (view (kern s)) (arp_request_queue s)"
    and "\<forall>k. xTaskGetCurrentTaskHandle R k = me" and "asked (view (kern s)) s me = 0" and "\<forall>e\<in>set es. complete e"
  shows "\<exists>u. rbind (q_send R (arp_request_queue s) (ArpRequest \<lparr>rq_ip = ip, rq_task = me\<rparr>) portMAX_DELAY s)
       (\<lambda>(_, s). for_each (arp_event_step R) es s) = Inr u \<and>
     (if 0 < kv_notify (view (kern u)) me
      then \<exists>s'. arp_get_mac_addr R (for_each (arp_event_step R) es) ip s = Inr (arp_get_cached_mac_addr ip u, s') \<and>
        arp_ready (view (kern s')) s' \<and> asked (view (kern s')) s' me = 0
      else arp_get_mac_addr R (for_each (arp_event_step R) es) ip s = Inl Blocked \<and>
        waiting u me + count (is_request_of me) (queue_items (view (kern u)) (arp_request_queue u)) = 1)"
proof -
  let ?r = "\<lparr>rq_ip = ip, rq_task = me\<rparr>"
  obtain k where k: "q_send R (arp_request_queue s) (ArpRequest ?r) portMAX_DELAY s = Inr (True, s\<lparr>kern := k\<rparr>)"
    "arp_ready (view k) (s\<lparr>kern := k\<rparr>)"
    "\<forall>t. asked (view k) (s\<lparr>kern := k\<rparr>) t = asked (view (kern s)) s t + (if rq_task ?r = t then 1 else 0)"
    using rtos_contract.request_posted[OF assms(1-3), of ?r] by blast
  obtain u where u: "for_each (arp_event_step R) es (s\<lparr>kern := k\<rparr>) = Inr u" "arp_ready (view (kern u)) u"
    "asked (view (kern u)) u me = 1"
    using rtos_contract.events_undisturbed[OF assms(1) _ assms(6), of "s\<lparr>kern := k\<rparr>"] k(2,3) assms(5) by auto
  have run: "arp_get_mac_addr R (for_each (arp_event_step R) es) ip s =
      rbind (notify_take R True portMAX_DELAY u) (\<lambda>(_, s). Inr (arp_get_cached_mac_addr ip s, s))"
    using k(1) u(1) assms(4) by (simp add: arp_get_mac_addr_def)
  show ?thesis
  proof (cases rule: rtos_contract.notify_take_cases[OF assms(1), of u, case_names asleep woken])
    case asleep
    then show ?thesis using k(1) u run assms(4) by (intro exI[of _ u]) (simp add: asked_def)
  next
    case (woken n k')
    then have "asked (view k') (u\<lparr>kern := k'\<rparr>) me = 0" "arp_ready (view k') (u\<lparr>kern := k'\<rparr>)"
      using u(2,3) assms(4) queue_items_cong[of "view k'" "view (kern u)" "arp_request_queue u"]
      by (simp_all add: asked_def arp_ready_def queue_holds_def)
    then show ?thesis
      using k(1) u(1) run woken assms(4)
      by (intro exI[of _ u]) (simp add: cached_map_of)
  qed
qed

theorem arp_lookup_wakes_witness:
  "\<exists>s'. arp_get_mac_addr task_rtos (for_each (arp_event_step task_rtos) [Worker 0 (Some 0)]) (IPv4 192 168 1 1)
       (arp_poor []) = Inr ((ESP_OK, Some (MAC 1 2 3 4 5 6)), s') \<and> asked (kview.truncate (kern s')) s' 7 = 0"
proof -
  let ?s = "arp_poor []" and ?r = "\<lparr>rq_ip = IPv4 192 168 1 1, rq_task = 7\<rparr>"
  have hyps: "queue_room (kview.truncate (kern ?s)) (arp_request_queue ?s)" "\<forall>k. xTaskGetCurrentTaskHandle task_rtos k = 7"
    "asked (kview.truncate (kern ?s)) ?s 7 = 0" "\<forall>e\<in>set [Worker 0 (Some 0)]. complete e"
    by (simp_all add: queue_room_def kview.truncate_def arp_poor_def arp_state_defs task_rtos_def asked_def waiting_def
        waiting_of_def queue_items_def ref_init_def sum_list_replicate)
  have upt: "[0..<8] = [0, 1, 2, 3, 4, 5, 6, 7 :: nat]" by (simp add: upt_rec)
  have post: "q_send task_rtos (arp_request_queue ?s) (ArpRequest ?r) portMAX_DELAY ?s = Inr (True, arp_poor [ArpRequest ?r])"
    by (simp add: q_send_def kq_send_def arp_poor_def arp_state_defs task_rtos_def ref_init_def fun_upd_twist)
  have same: "(replicate n x)[i := x] = replicate n x" for n i and x :: arp_pending
    by (induction n arbitrary: i) (simp_all split: nat.split)
  have scan: "for_each (expire_pending task_rtos 0) [0..<8] (arp_poor [ArpRequest ?r]) = Inr (arp_poor [ArpRequest ?r])"
    by (simp add: upt expire_pending_def notify_waiting_def free_pending_def arp_poor_def arp_state_defs Let_def same)
  have tick: "tick_count task_rtos (arp_poor [ArpRequest ?r]) = 0"
    by (simp add: tick_count_def task_rtos_def arp_poor_def arp_state_defs ref_init_def)
  have got: "q_receive task_rtos (Some 0) 0 (arp_poor [ArpRequest ?r]) = Inr (Some (ArpRequest ?r), ?s)"
    by (simp add: q_receive_def kq_receive_def arp_poor_def arp_state_defs task_rtos_def ref_init_def fun_upd_twist)
  have "arp_task_step task_rtos 0 (Some 0) (arp_poor [ArpRequest ?r]) = handle_arp_request task_rtos 0 ?r ?s"
    using got by (simp add: arp_task_step_def scan tick Let_def) (simp add: arp_poor_def arp_state_defs)
  moreover have "\<exists>u. handle_arp_request task_rtos 0 ?r ?s = Inr u \<and> kv_notify (kern u) 7 = 1 \<and>
      arp_get_cached_mac_addr (IPv4 192 168 1 1) u = (ESP_OK, Some (MAC 1 2 3 4 5 6))"
    by (simp add: arp_poor_def arp_state_defs task_rtos_def ref_init_def handle_arp_request_def find_pending_def
        alloc_pending_def send_arp_request_def eth_tx_eq heap_ok_def task_notify_def kt_notify_def
        arp_get_cached_mac_addr_def bump_def eval_nat_numeral)
  ultimately obtain u where u: "arp_task_step task_rtos 0 (Some 0) (arp_poor [ArpRequest ?r]) = Inr u"
    "kv_notify (kern u) 7 = 1" "arp_get_cached_mac_addr (IPv4 192 168 1 1) u = (ESP_OK, Some (MAC 1 2 3 4 5 6))"
    by auto
  show ?thesis
    using arp_lookup_wakes[OF taskk.rtos_contract_axioms arp_poor_ready hyps, of "IPv4 192 168 1 1"] u post
    by (auto simp: kview.truncate_def)
qed

end
