(* ===== verification/Tcp_Stream.thy ===== *)
theory Tcp_Stream
  imports Tcp_Connection
begin

text \<open>
  The byte stream of an open connection: the segments of the peer arrive late, twice, in the wrong order or
  not at all, each is handled by one iteration of \<^verbatim>\<open>tcp_task\<close>, and between them the rest of the system does
  its work. The application receives a contiguous part of the stream.
\<close>

section \<open>Segments of a stream\<close>

text \<open>
  The stream starts at sequence number \<open>isn\<close>; a segment \<open>(h, off, n)\<close> with header \<open>h\<close> carries its bytes
  from \<open>off\<close> to \<open>off + n\<close>.
\<close>

type_synonym segment = "tcp_header \<times> nat \<times> nat"

fun data_segment :: "u32 \<Rightarrow> u16 \<Rightarrow> u16 \<Rightarrow> bytes \<Rightarrow> segment \<Rightarrow> bool" where
  "data_segment isn dp sp str (h, off, n) \<longleftrightarrow>
     th_dOffset h = 5 \<and> unat (th_reserved h) < 16 \<and> ntohs (th_dst_port h) = dp \<and> ntohs (th_src_port h) = sp \<and>
     flag_ACK (th_control h) \<and> \<not> flag_SYN (th_control h) \<and> \<not> flag_FIN (th_control h) \<and> \<not> flag_RST (th_control h) \<and>
     ntohl (th_seq_num h) = isn + of_nat off \<and> 0 < n \<and> n \<le> 65515 \<and> off + n \<le> length str"

fun segment_data :: "bytes \<Rightarrow> segment \<Rightarrow> tcp_header \<times> bytes" where
  "segment_data str (h, off, n) = (h, take n (drop off str))"

text \<open>How far the stream has been received after one more segment: only the next one counts.\<close>

fun advance :: "segment \<Rightarrow> nat \<Rightarrow> nat" where
  "advance (h, off, n) r = (if off = r then r + n else r)"

section \<open>The receiver\<close>

text \<open>Port \<open>p\<close> is connected to \<open>src\<close>, delivers to function \<open>f\<close> and expects sequence number \<open>n\<close>.\<close>

definition open_conn :: "u16 \<Rightarrow> u16 \<Rightarrow> ipv4_addr \<Rightarrow> nat \<Rightarrow> nat \<Rightarrow> u32 \<Rightarrow> ('k, 'z) tcp \<Rightarrow> bool" where
  "open_conn dp sp src p f n s \<longleftrightarrow> find_port dp sp src s = Some p \<and> tp_state (ports s ! p) = ESTABLISHED \<and>
     tp_on_receive (ports s ! p) = Some f \<and> tp_ack_num (ports s ! p) = n"

text \<open>
  A segment is the next input event, in a block of its own; the slots of the port own their data and there
  is room for an acknowledgement.
\<close>

definition arrived :: "('k \<Rightarrow> kview) \<Rightarrow> nat \<Rightarrow> ipv4_addr \<Rightarrow> tcp_header \<Rightarrow> bytes \<Rightarrow> ('k, 'z) tcp \<Rightarrow> bool" where
  "arrived view p src h d s \<longleftrightarrow> (\<exists>b ms sem mx m.
     queue_items (view (kern s)) (input_queue s) = TcpInput \<lparr>tin_buffer = Some b,
       tin_length = 20 + of_nat (length d), tin_src_ipv4_addr = src\<rparr> # ms \<and>
     send_queue s \<noteq> input_queue s \<and> cells (heap s) b = Some (tcp_header_bytes h @ d) \<and>
     length (tp_unacked (ports s ! p)) = MAX_UNACKED \<and> slots_own (tp_unacked (ports s ! p)) (cells (heap s)) \<and>
     b \<notin> blocks_of ua_in_use (tp_unacked (ports s ! p)) \<and> tp_unacked_slots (ports s ! p) = Some sem \<and>
     kv_sems (view (kern s)) sem = Some (mx, m) \<and> m \<le> mx \<and> queue_room (view (kern s)) (send_queue s))"

text \<open>
  The application appends what it is given to a record \<open>got\<close> of its own, which the stack does not touch.
\<close>

definition records :: "('k, 'z) app \<Rightarrow> nat \<Rightarrow> (('k, 'z) tcp \<Rightarrow> bytes) \<Rightarrow> bool" where
  "records app f got \<longleftrightarrow>
     (\<forall>d n s. \<exists>s'. app f (OnReceive d n) s = Inr s' \<and> got s' = got s @ take (unat n) d \<and> ports s' = ports s \<and>
        heap s' = heap s) \<and>
     (\<forall>s k h ps. got (s\<lparr>kern := k, heap := h, ports := ps\<rparr>) = got s)"

text \<open>The input iterations of \<^verbatim>\<open>tcp_task\<close>, with what the rest of the system does before each of them.\<close>

fun receive_all ::
  "'k rtos \<Rightarrow> ('k, 'z) app \<Rightarrow> (tcp_header \<Rightarrow> bytes \<Rightarrow> ('k, 'z) tcp \<Rightarrow> ('k, 'z) tcp exec) \<Rightarrow> (tcp_header \<times> bytes) list
    \<Rightarrow> ('k, 'z) tcp \<Rightarrow> ('k, 'z) tcp exec" where
  "receive_all R app env [] s = Inr s"
| "receive_all R app env ((h, d) # segs) s =
     rbind (env h d s) (\<lambda>s. rbind (tcp_task_step R app (input_queue s) s) (receive_all R app env segs))"

section \<open>One segment\<close>

lemma find_index_update_same:
  "i < length xs \<Longrightarrow> P y = P (xs ! i) \<Longrightarrow> find_index P (xs[i := y]) = find_index P xs"
  by (rule find_index_cong) (auto simp: nth_list_update)

text \<open>Rewriting a port without touching its addresses, numbers, state and receiver.\<close>

lemma open_conn_update:
  assumes "open_conn dp sp src p f n s" and "ports s' = (ports s)[p := q]"
    and "tp_self_port_num q = tp_self_port_num (ports s ! p)" and "tp_other_port_num q = tp_other_port_num (ports s ! p)"
    and "tp_other_ipv4_addr q = tp_other_ipv4_addr (ports s ! p)" and "tp_state q = ESTABLISHED"
    and "tp_on_receive q = Some f" and "tp_ack_num q = n'"
  shows "open_conn dp sp src p f n' s'"
proof -
  have p: "p < length (ports s)" using assms(1) by (auto simp: open_conn_def find_port_def dest: find_index_SomeD)
  have "find_port dp sp src s' = find_port dp sp src s"
    unfolding find_port_def assms(2) by (rule find_index_update_same[OF p]) (simp add: assms(3-5))
  then show ?thesis using assms p by (simp add: open_conn_def)
qed

lemma release_ports [simp]: "ports (release a s) = ports s"
  by (simp add: release_def)

lemma open_conn_ports: "ports s' = ports s \<Longrightarrow> open_conn dp sp src p f n s' = open_conn dp sp src p f n s"
  by (simp add: open_conn_def find_port_def)

lemma records_stable:
  assumes "records app f got"
  shows "got (s\<lparr>kern := k\<rparr>) = got s" "got (release a s) = got s"
proof -
  have "got (s\<lparr>kern := k, heap := heap s, ports := ports s\<rparr>) = got s"
    "got (s\<lparr>kern := kern s, heap := heap (release a s), ports := ports s\<rparr>) = got s"
    using assms unfolding records_def by blast+
  then show "got (s\<lparr>kern := k\<rparr>) = got s" "got (release a s) = got s" by (simp_all add: release_def)
qed

text \<open>A segment that is not the next one.\<close>

lemma out_of_order_ignored:
  assumes "cells (heap s) b = Some (tcp_header_bytes h @ d)" and "th_dOffset h = 5" and "unat (th_reserved h) < 16"
    and "open_conn (ntohs (th_dst_port h)) (ntohs (th_src_port h)) src p f n s" and "\<not> flag_RST (th_control h)"
    and "ntohl (th_seq_num h) \<noteq> n"
  shows "input_tcp_internal R app (Some b) len src s = Inr s"
  using assms
  by (simp add: input_tcp_internal_header[OF heap_read_header] tcp_header_at_bytes Let_def open_conn_def)

context rtos_contract
begin

lemma segment_step:
  assumes conn: "open_conn dp sp src p f (isn + of_nat r) s" and r: "r \<le> length str" "length str < 2 ^ 32"
    and seg: "data_segment isn dp sp str (h, off, n)" and arr: "arrived view p src h (take n (drop off str)) s"
    and rec: "records app f got"
  shows "\<exists>s'. tcp_task_step R app (input_queue s) s = Inr s' \<and>
     open_conn dp sp src p f (isn + of_nat (advance (h, off, n) r)) s' \<and>
     got s' = got s @ (if off = r then take n (drop off str) else [])"
proof -
  let ?d = "take n (drop off str)"
  obtain b ms sem mx m where ev: "queue_items (view (kern s)) (input_queue s) = TcpInput \<lparr>tin_buffer = Some b,
       tin_length = 20 + of_nat (length ?d), tin_src_ipv4_addr = src\<rparr> # ms" "send_queue s \<noteq> input_queue s"
    and blk: "cells (heap s) b = Some (tcp_header_bytes h @ ?d)"
    and slots: "length (tp_unacked (ports s ! p)) = MAX_UNACKED" "slots_own (tp_unacked (ports s ! p)) (cells (heap s))"
       "b \<notin> blocks_of ua_in_use (tp_unacked (ports s ! p))" "tp_unacked_slots (ports s ! p) = Some sem"
       "kv_sems (view (kern s)) sem = Some (mx, m)" "m \<le> mx"
    and room: "queue_room (view (kern s)) (send_queue s)"
    using arr unfolding arrived_def by blast
  obtain k where k: "q_receive R (input_queue s) 0 s = Inr (Some (TcpInput \<lparr>tin_buffer = Some b,
       tin_length = 20 + of_nat (length ?d), tin_src_ipv4_addr = src\<rparr>), s\<lparr>kern := k\<rparr>)"
    "kv_sems (view k) = kv_sems (view (kern s))" "queue_room (view k) (send_queue s)"
    using room ev(2) by (rule_tac q_receive_first[OF ev(1)]) blast
  let ?s = "s\<lparr>kern := k\<rparr>"
  have run: "tcp_task_step R app (input_queue s) s =
      rbind (input_tcp_internal R app (Some b) (20 + of_nat (length ?d)) src ?s) (free (Some b))"
    using k(1) ev(2) by (auto simp: tcp_task_step_def)
  have conn': "open_conn (ntohs (th_dst_port h)) (ntohs (th_src_port h)) src p f (isn + of_nat r) ?s"
    using conn seg by (simp add: open_conn_def find_port_def)
  show ?thesis
  proof (cases "off = r")
    case False
    have "(of_nat off :: u32) \<noteq> of_nat r"
      using False r seg by (simp add: word_unat_eq_iff unat_of_nat)
    then have "input_tcp_internal R app (Some b) (20 + of_nat (length ?d)) src ?s = Inr ?s"
      using blk seg by (intro out_of_order_ignored[OF _ _ _ conn']) auto
    moreover have "free (Some b) ?s = Inr (release b ?s)" using blk by (intro free_release) simp
    moreover have "open_conn dp sp src p f (isn + of_nat r) (release b ?s)"
      using conn open_conn_ports[of "release b ?s" s] by simp
    ultimately show ?thesis using False run records_stable[OF rec] by simp
  next
    case True
    let ?port = "ports ?s ! p"
    have len: "length ?d = n" "?d \<noteq> []" "length ?d \<le> 65515" using seg by auto
    obtain k' us A where A: "A \<subseteq> blocks_of ua_in_use (tp_unacked ?port)" and
      del: "input_tcp_internal R app (Some b) (20 + of_nat (length ?d)) src ?s =
       app f (OnReceive ?d (of_nat (length ?d)))
         (?s\<lparr>kern := k', heap := (heap ?s)\<lparr>cells := cells (heap ?s) |` (- A)\<rparr>,
           ports := (ports ?s)[p := ?port\<lparr>tp_unacked := us, tp_ack_num := tp_ack_num ?port + of_nat (length ?d),
             tp_other_window := ntohs (th_window h)\<rparr>]\<rparr>)"
      using in_order_delivery[of ?s b h ?d src p ?port f sem mx m app] blk seg len conn' True slots k(2,3)
      by (auto simp: open_conn_def)
    let ?s1 = "?s\<lparr>kern := k', heap := (heap ?s)\<lparr>cells := cells (heap ?s) |` (- A)\<rparr>,
           ports := (ports ?s)[p := ?port\<lparr>tp_unacked := us, tp_ack_num := tp_ack_num ?port + of_nat (length ?d),
             tp_other_window := ntohs (th_window h)\<rparr>]\<rparr>"
    obtain s2 where s2: "app f (OnReceive ?d (of_nat (length ?d))) ?s1 = Inr s2"
      "got s2 = got ?s1 @ take (unat (of_nat (length ?d) :: u16)) ?d" "ports s2 = ports ?s1" "heap s2 = heap ?s1"
      using rec unfolding records_def by blast
    have "got ?s1 = got ?s" using rec unfolding records_def by blast
    then have g: "got s2 = got s @ ?d"
      using s2(2) records_stable(1)[OF rec] len by (simp add: unat_of_nat)
    have "b \<notin> A" using A slots(3) by auto
    then have "free (Some b) s2 = Inr (release b s2)" using s2(4) blk by (intro free_release) simp
    moreover have "open_conn dp sp src p f (isn + of_nat (r + n)) (release b s2)"
      by (rule open_conn_update[OF conn, of _ "?port\<lparr>tp_unacked := us, tp_ack_num := tp_ack_num ?port + of_nat (length ?d),
            tp_other_window := ntohs (th_window h)\<rparr>"])
         (use s2(3) conn len in \<open>simp_all add: open_conn_def\<close>)
    ultimately show ?thesis using True run del s2(1) g records_stable(2)[OF rec] by simp
  qed
qed

lemma stream_step:
  assumes "r \<le> length str" and "data_segment isn dp sp str (h, off, n)"
  shows "advance (h, off, n) r \<le> length str" and "r \<le> advance (h, off, n) r"
    and "(if off = r then take n (drop off str) else []) = take (advance (h, off, n) r - r) (drop r str)"
  using assms by auto

lemma stream_received:
  assumes "open_conn dp sp src p f (isn + of_nat r) s" and "r \<le> length str" and "length str < 2 ^ 32"
    and "\<forall>seg\<in>set segs. data_segment isn dp sp str seg" and "records app f got"
    and "\<forall>h d t n. open_conn dp sp src p f n t \<longrightarrow> (\<exists>t'. env h d t = Inr t' \<and> arrived view p src h d t' \<and>
      open_conn dp sp src p f n t' \<and> got t' = got t)"
  shows "\<exists>s'. receive_all R app env (map (segment_data str) segs) s = Inr s' \<and>
     open_conn dp sp src p f (isn + of_nat (fold advance segs r)) s' \<and> r \<le> fold advance segs r \<and>
     fold advance segs r \<le> length str \<and> got s' = got s @ take (fold advance segs r - r) (drop r str)"
  using assms(1,2,4)
proof (induction segs arbitrary: r s)
  case Nil
  then show ?case by simp
next
  case (Cons seg segs)
  obtain h off n where seg: "seg = (h, off, n)" by (cases seg)
  let ?r = "advance seg r"
  obtain t where t: "env h (take n (drop off str)) s = Inr t" "arrived view p src h (take n (drop off str)) t"
    "open_conn dp sp src p f (isn + of_nat r) t" "got t = got s"
    using assms(6) Cons.prems(1) by blast
  have ds: "data_segment isn dp sp str (h, off, n)" using Cons.prems(3) seg by simp
  obtain u where u: "tcp_task_step R app (input_queue t) t = Inr u" "open_conn dp sp src p f (isn + of_nat ?r) u"
    "got u = got t @ (if off = r then take n (drop off str) else [])"
    using segment_step[OF t(3) Cons.prems(2) assms(3) ds t(2) assms(5)] by (auto simp: seg)
  note st = stream_step[OF Cons.prems(2) ds, folded seg]
  from Cons.IH[OF u(2) st(1)] Cons.prems(3)
  obtain s' where s': "receive_all R app env (map (segment_data str) segs) u = Inr s'"
    "open_conn dp sp src p f (isn + of_nat (fold advance segs ?r)) s'" "?r \<le> fold advance segs ?r"
    "fold advance segs ?r \<le> length str" "got s' = got u @ take (fold advance segs ?r - ?r) (drop ?r str)" by auto
  have "take (fold advance segs ?r - r) (drop r str) =
      take (?r - r) (drop r str) @ take (fold advance segs ?r - ?r) (drop ?r str)"
    using st(2) s'(3) take_add[of "?r - r" "fold advance segs ?r - ?r" "drop r str"] by (simp add: add.commute)
  then show ?case using t u(1,3) st(2,3) s' by (intro exI[of _ s']) (simp add: seg)
qed

end

section \<open>A concrete exchange\<close>

text \<open>The example connection with a log of what the application received.\<close>

definition stream0 :: "(refk, bytes) tcp" where
  "stream0 = tcp_net.extend (tcp1 8 ESTABLISHED) []"

definition log_app :: "(refk, bytes) app" where
  "log_app f c s = (case c of OnReceive d n \<Rightarrow> Inr (tcp_net.more_update (\<lambda>l. l @ take (unat n) d) s) | _ \<Rightarrow> Inr s)"

text \<open>An environment that drains the queues and puts the segment in block 0.\<close>

definition serve :: "tcp_header \<Rightarrow> bytes \<Rightarrow> (refk, bytes) tcp \<Rightarrow> (refk, bytes) tcp exec" where
  "serve h d s = Inr (s\<lparr>kern := (kern s)\<lparr>kv_queues := [3 \<mapsto> (8, []), 4 \<mapsto> (8, [TcpInput \<lparr>tin_buffer = Some 0,
       tin_length = 20 + of_nat (length d), tin_src_ipv4_addr = IPv4 192 168 1 1\<rparr>])], kv_sems := [6 \<mapsto> (8, 8)]\<rparr>,
     heap := heap0\<lparr>cells := [0 \<mapsto> tcp_header_bytes h @ d], brk := 1\<rparr>,
     send_queue := Some 3, input_queue := Some 4,
     ports := (ports s)[0 := (ports s ! 0)\<lparr>tp_unacked := replicate 8 unacked_zero, tp_unacked_slots := Some 6\<rparr>]\<rparr>)"

lemma log_records: "records log_app f tcp_net.more"
  by (simp add: records_def log_app_def)

lemma serve_arrived:
  assumes "open_conn dp sp (IPv4 192 168 1 1) 0 f n t"
  shows "\<exists>t'. serve h d t = Inr t' \<and> arrived kview.truncate 0 (IPv4 192 168 1 1) h d t' \<and>
     open_conn dp sp (IPv4 192 168 1 1) 0 f n t' \<and> tcp_net.more t' = tcp_net.more t"
proof -
  obtain t' where t': "serve h d t = Inr t'" by (simp add: serve_def)
  have l: "0 < length (ports t)" using assms by (auto simp: open_conn_def find_port_def dest: find_index_SomeD)
  have "open_conn dp sp (IPv4 192 168 1 1) 0 f n t'"
    by (rule open_conn_update[OF assms, where q = "(ports t ! 0)\<lparr>tp_unacked := replicate 8 unacked_zero,
          tp_unacked_slots := Some 6\<rparr>"]) (use t' assms in \<open>auto simp: serve_def open_conn_def\<close>)
  moreover have "arrived kview.truncate 0 (IPv4 192 168 1 1) h d t'"
    using t' l unfolding arrived_def
    by (auto simp: serve_def queue_items_def queue_room_def kview.truncate_def slots_own_def blocks_of_def unacked_zero_def)
  ultimately show ?thesis using t' by (auto simp: serve_def)
qed

section \<open>Properties\<close>

text \<open>
  C30: In-order delivery of the stream. The peer's data segments for an established connection arrive in any
  order, repeated or missing, and the rest of the system works between them (it makes room for
  acknowledgements and leaves the connection and the application's record alone). Then every iteration of
  \<^verbatim>\<open>tcp_task\<close> returns, and what the application has received in the end is exactly the part of the stream
  from the first byte expected before, without gap, repetition or reordering; it reaches as far as the
  segments, taken in the order of arrival, continue one another, and the next expected sequence number is
  the one after it. The stream is shorter than \<open>2 ^ 32\<close> bytes, so that the wrap-around of sequence numbers
  does not confuse two segments.
\<close>

theorem tcp_stream_in_order:
  assumes "rtos_contract R view" and "open_conn dp sp src p f (isn + of_nat r) s"
    and "r \<le> length str" and "length str < 2 ^ 32" and "\<forall>seg\<in>set segs. data_segment isn dp sp str seg"
    and "records app f got"
    and "\<forall>h d t n. open_conn dp sp src p f n t \<longrightarrow> (\<exists>t'. env h d t = Inr t' \<and> arrived view p src h d t' \<and>
      open_conn dp sp src p f n t' \<and> got t' = got t)"
    and "r' = fold advance segs r"
  shows "\<exists>s'. receive_all R app env (map (segment_data str) segs) s = Inr s' \<and> r \<le> r' \<and> r' \<le> length str \<and>
     got s' = got s @ take (r' - r) (drop r str) \<and> open_conn dp sp src p f (isn + of_nat r') s'"
  using rtos_contract.stream_received[OF assms(1-7)] assms(8) by blast

theorem tcp_stream_in_order_witness:
  "\<exists>s'. receive_all ref_rtos log_app serve (map (segment_data [1, 2, 3, 4, 5])
       [(data_header 12 24, 3, 2), (data_header 9 24, 0, 3), (data_header 9 24, 0, 3), (data_header 12 24, 3, 2)]) stream0 = Inr s' \<and>
     tcp_net.more s' = [1, 2, 3, 4, 5] \<and> tp_ack_num (ports s' ! 0) = 14"
proof -
  let ?segs = "[(data_header 12 24, 3, 2), (data_header 9 24, 0, 3), (data_header 9 24, 0, 3), (data_header 12 24, 3, 2)]"
  have conn: "open_conn 80 5000 (IPv4 192 168 1 1) 0 1 (9 + of_nat 0) stream0"
    by (simp add: open_conn_def find_port_def stream0_def tcp_net.extend_def tcp_state_defs port1_def port_zero_def)
  have segs: "\<forall>seg\<in>set ?segs. data_segment 9 80 5000 [1, 2, 3, 4, 5] seg" by simp
  have env: "\<forall>h d t n. open_conn 80 5000 (IPv4 192 168 1 1) 0 1 n t \<longrightarrow> (\<exists>t'. serve h d t = Inr t' \<and>
      arrived kview.truncate 0 (IPv4 192 168 1 1) h d t' \<and> open_conn 80 5000 (IPv4 192 168 1 1) 0 1 n t' \<and>
      tcp_net.more t' = tcp_net.more t)"
    using serve_arrived by blast
  have "5 = fold advance ?segs 0" by simp
  from tcp_stream_in_order[OF refk.rtos_contract_axioms conn _ _ segs log_records env this]
  obtain s' where s': "receive_all ref_rtos log_app serve (map (segment_data [1, 2, 3, 4, 5]) ?segs) stream0 = Inr s'"
    "tcp_net.more s' = tcp_net.more stream0 @ take (5 - 0) (drop 0 [1, 2, 3, 4, 5])"
    "open_conn 80 5000 (IPv4 192 168 1 1) 0 1 (9 + of_nat 5) s'" by auto
  from s'(2) have "tcp_net.more s' = [1, 2, 3, 4, 5]" by (simp add: stream0_def tcp_net.extend_def)
  moreover from s'(3) have "tp_ack_num (ports s' ! 0) = 14" by (simp add: open_conn_def)
  ultimately show ?thesis using s'(1) by blast
qed

end
