(* ===== verification/End_To_End.thy ===== *)
theory End_To_End
  imports Start_Up Task_Monitor Tcp_Test Arp_Scanner Udp Arp_Lookup Tcp_Stream
begin

text \<open>
  Frames through the whole stack: from the receive callback of the Wi-Fi manager through Ethernet and IPv4
  to ARP and ICMP and back to the driver or the transmit queue.
\<close>

section \<open>A frame in a heap block\<close>

lemma eth_hdr_at_frame:
  "eth_hdr_at (take 14 (eth_frame_bytes d sr (htons ty) pl)) =
     \<lparr>eh_dst_mac = d, eh_src_mac = sr, eh_ethertype = htons ty\<rparr>"
  by (cases d; cases sr)
     (simp add: eth_hdr_at_def eth_frame_bytes_def mac_of_bytes_def load16_of_def store16_def)

lemma drop_eth_frame: "drop 14 (eth_frame_bytes d sr ty pl) = pl"
  by (simp add: eth_frame_bytes_def)

text \<open>The counters of a frame without a driver handle.\<close>

definition counted :: "('k, 'z) wifi \<Rightarrow> ('k, 'z) wifi" where
  "counted s = s\<lparr>wifi_rx_count := wifi_rx_count s + 1, wifi_buf_eb_null_count := wifi_buf_eb_null_count s + 1\<rparr>"

lemma counted_sel [simp]:
  "kern (counted s) = kern s" "heap (counted s) = heap s" "ipv4_transmit_queue (counted s) = ipv4_transmit_queue s"
  "arp_input_queue (counted s) = arp_input_queue s"
  by (simp_all add: counted_def)

lemma wifi_rxcb_frame:
  assumes "cells (heap s) a = Some frame" and "frame = eth_frame_bytes d sr (htons ty) pl" and "length frame = unat len"
    and "(if ty = 0x806 then arp_input R pl (len - 14) s
          else if ty = 0x800 then ipv4_input R pl (len - 14) s else Inr s) = Inr t"
    and "cells (heap t) a = Some frame"
  shows "wifi_rxcb R E (RxHeap a) len None s = Inr (release a (counted t))"
proof -
  obtain x y where xy: "mac_to_readable (replicate 18 0) sr = Inr x" "mac_to_readable (replicate 18 0) d = Inr y"
    using mac_to_readable_ok by metis
  have "rx_bytes (RxHeap a) s = Inr frame" using assms(1) by (simp add: heap_tail_def)
  moreover have "read_bytes frame 0 14 = Inr (take 14 frame)" using assms(2) by simp
  moreover have "free (Some a) (counted t) = Inr (release a (counted t))"
    using assms(5) by (intro free_release) simp
  moreover have "ntohs (htons ty) = ty" by (simp add: htons_def)
  ultimately show ?thesis
    using assms(2,4) xy
    by (simp add: wifi_rxcb_def eth_hdr_at_frame drop_eth_frame counted_def del: read_bytes_ok split: if_split_asm)
qed

section \<open>Ping\<close>

lemma ipv4_packet_split: "ipv4_packet p data = take 20 (ipv4_packet p data) @ data"
  by (simp add: ipv4_packet_def)

lemma ipv4_input_echo:
  assumes "ip_protocol p = 1" and "ip_dst_ipv4_addr p = nc_ip (self_net s)" and "length payload \<le> 65507"
    and "ip_data_len p = of_nat (8 + length payload)"
    and "unat n = length (ipv4_packet p (echo_request c0 c1 i q payload) @ pad)"
  shows "ipv4_input R (ipv4_packet p (echo_request c0 c1 i q payload) @ pad) n s =
     rbind (send_icmpv4_ping_reply R (ip_src_ipv4_addr p) i q (payload @ pad) (of_nat (length payload)) s)
       (\<lambda>(result, s). Inr s)"
proof -
  let ?d = "echo_request c0 c1 i q payload" and ?hdr = "take 20 (ipv4_packet p (echo_request c0 c1 i q payload))"
  have len: "unat (ip_data_len p) = length ?d" "length ?d \<le> 65515"
    using assms(3,4) by (simp_all add: unat_of_nat del: of_nat_add)
  have "length ?hdr = 20" by simp
  moreover have "28 \<le> 20 + ip_data_len p"
    using len by (simp add: word_le_nat_alt unat_plus_u16)
  moreover have "ntohs (h_total_length (ipv4_header_at ?hdr)) = of_nat (28 + length payload)"
    by (simp add: ipv4_header_at_packet assms(4))
  moreover have "h_src_ipv4_addr (ipv4_header_at ?hdr) = ip_src_ipv4_addr p" by (simp add: ipv4_header_at_packet)
  ultimately have "icmpv4_input R (?hdr @ ?d @ pad) (20 + ip_data_len p) s =
      rbind (send_icmpv4_ping_reply R (ip_src_ipv4_addr p) i q (payload @ pad) (of_nat (length payload)) s)
        (\<lambda>(result, s). Inr s)"
    using icmpv4_input_echo[of ?hdr payload "20 + ip_data_len p" R c0 c1 i q pad s] assms(3) by simp
  moreover have "?hdr @ ?d @ pad = ipv4_packet p ?d @ pad"
    using arg_cong[OF ipv4_packet_split[of p ?d], of "\<lambda>x. x @ pad"] by (simp only: append_assoc)
  ultimately show ?thesis
    using assms(1,2,5) len by (simp add: ipv4_input_eq ipv4_accepts_packet ipv4_deliver_packet)
qed

section \<open>Address resolution\<close>

lemma arp_input_padded:
  assumes "length tmac = 6"
  shows "arp_input R (arp_payload op smac sip tmac tip @ pad) len s = arp_input R (arp_payload op smac sip tmac tip) len' s"
  using assms by (simp add: arp_input_def)

lemma arp_input_request:
  assumes "heap_ok s" and "\<not> oom (heap s) (brk (heap s))" and "self_ip_addr s = tip"
  shows "arp_input R (arp_payload 1 smac sip (mac_bytes m) tip @ pad) len s =
     Inr ((bump s)\<lparr>kern := snd (esp_wifi_internal_tx R (eth_frame_bytes smac (self_mac_addr s) (htons 0x806)
       (arp_payload 2 (self_mac_addr s) tip (mac_bytes smac) sip)) (kern s))\<rparr>)"
proof -
  have "arp_input R (arp_payload 1 smac sip (mac_bytes m) tip @ pad) len s =
      rbind (send_arp_reply R smac sip s) (\<lambda>(result, s). Inr s)"
    using assms(3) by (subst arp_input_padded[where len' = len]) (simp_all add: arp_input_def arp_data_at_payload Let_def)
  then show ?thesis
    using assms by (simp add: send_arp_reply_def eth_tx_eq case_prod_beta)
qed

lemma arp_input_reply:
  assumes "self_ip_addr s = tip"
  shows "arp_input R (arp_payload 2 smac sip (mac_bytes m) tip @ pad) len s =
     rbind (q_send R (arp_input_queue s) (ArpEntry \<lparr>en_ip = sip, en_mac = smac\<rparr>) 0 s) (\<lambda>(ok, s). Inr s)"
  using assms by (subst arp_input_padded[where len' = len]) (simp_all add: arp_input_def arp_data_at_payload Let_def)

section \<open>Concrete frames\<close>

definition ping_params :: ipv4_transmit_params where
  "ping_params = \<lparr>ip_src_ipv4_addr = IPv4 192 168 1 1, ip_dst_ipv4_addr = IPv4 192 168 1 230, ip_protocol = 1,
     ip_data = None, ip_data_len = 11\<rparr>"

definition ping_frame :: bytes where
  "ping_frame = eth_frame_bytes (MAC 0x30 0x83 0x98 0x94 0xEC 0x1B) (MAC 1 2 3 4 5 6) (htons 0x800)
     (ipv4_packet ping_params (echo_request 0 0 7 1 [97, 98, 99]) @ [0, 0])"

definition arp_request_frame :: bytes where
  "arp_request_frame = eth_frame_bytes BROADCAST_MAC (MAC 1 2 3 4 5 6) (htons 0x806)
     (arp_payload 1 (MAC 1 2 3 4 5 6) (IPv4 192 168 1 7) (mac_bytes 0) (IPv4 192 168 1 230) @ [0, 0])"

definition arp_reply_frame :: bytes where
  "arp_reply_frame = eth_frame_bytes (MAC 1 2 3 4 5 6) (MAC 0x30 0x83 0x98 0x94 0xEC 0x1B) (htons 0x806)
     (arp_payload 2 (MAC 0x30 0x83 0x98 0x94 0xEC 0x1B) (IPv4 192 168 1 230) (mac_bytes (MAC 1 2 3 4 5 6))
       (IPv4 192 168 1 7))"

lemma length_frames [simp]:
  "length ping_frame = 47" "length arp_request_frame = 44" "length arp_reply_frame = 42"
  by (simp_all add: ping_frame_def arp_request_frame_def arp_reply_frame_def)

lemma wifi1_addr [simp]: "self_ip_addr (wifi1 fr st) = IPv4 192 168 1 230"
  "self_mac_addr (wifi1 fr st) = MAC 0x30 0x83 0x98 0x94 0xEC 0x1B"
  by (simp_all add: wifi1_def tcp_net.extend_def tcp_state_defs)

lemma heap_ok_wifi1 [simp]: "heap_ok (wifi1 fr st)"
  by (simp add: heap_ok_def)

end
