(* ===== verification/Spec2Isabelle.thy ===== *)
theory Spec2Isabelle
  imports End_To_End
begin

text \<open>
  A verification of the network stack of an ESP8266 firmware: Ethernet, ARP, IPv4, ICMP, UDP and TCP over
  the driver of the SDK and FreeRTOS, with the applications that use it. Paths below are relative to
  \<^verbatim>\<open>src/components/\<close>.

  \<^bold>\<open>How the parts interact.\<close> The driver calls \<^verbatim>\<open>wifi_rxcb\<close> (\<^verbatim>\<open>wifi_manager\<close>) for every frame; it dispatches
  on the EtherType to \<^verbatim>\<open>arp_input\<close> or \<^verbatim>\<open>ipv4_input\<close>, and IPv4 to \<^verbatim>\<open>icmpv4_input\<close> or \<^verbatim>\<open>input_tcp\<close>. These run in
  the context of the driver and only post to queues. Three worker tasks own the state: \<^verbatim>\<open>arp_task\<close> the cache
  and the pending requests, \<^verbatim>\<open>tcp_task\<close> the ports, \<^verbatim>\<open>ipv4_task\<close> the transmission; a fourth, \<^verbatim>\<open>udp_task\<close>, belongs to
  UDP. Data travels between them in heap blocks whose ownership changes with the queue item. Sending goes
  down through \<^verbatim>\<open>send_ipv4_packet\<close>, \<^verbatim>\<open>ipv4_task\<close>, \<^verbatim>\<open>arp_get_mac_addr\<close> (which may block), \<^verbatim>\<open>eth_tx\<close> and
  \<^verbatim>\<open>wifi_tx_raw\<close>.

  \<^bold>\<open>How C is modelled.\<close> Machine integers are words of their width. A function returns a value of
  \<open>'a exec\<close>: a result, or the reason why it does not return, \<open>Fault\<close> (undefined behaviour: an access outside
  a buffer, a null call, an invalid \<^verbatim>\<open>free\<close>), \<open>Blocked\<close> (waiting in the kernel with no one to wake it) or
  \<open>Abort\<close> (a failed \<^verbatim>\<open>ESP_ERROR_CHECK\<close>). The heap has explicit addresses, allocation may fail at any
  address (\<open>oom\<close>) and returns arbitrary bytes (\<open>junk\<close>), so a leak, a double free and an overrun are
  visible in every theorem. The globals of the components are nested records, \<open>net_base\<close>, \<open>arp_net\<close>,
  \<open>tcp_net\<close> and then \<open>wifi_net\<close> or \<open>monitor_net\<close>, so a function of a lower component applies to the state of
  a higher one. A task is one iteration of its loop, a function of the queue that the select returned; where
  a call sleeps, what the rest of the system does meanwhile is an argument (\<open>wait\<close>, \<open>others\<close>).

  \<^bold>\<open>What is a parameter.\<close> FreeRTOS (\<open>'k rtos\<close>, theory \<open>Rtos\<close>), the SDK (\<open>'k esp_idf\<close>, \<open>Wifi_Manager\<close>), what
  the kernel tells about its tasks (\<open>'k task_info\<close>, \<open>Task_Monitor\<close>), application callbacks (\<open>app\<close>). The
  documented behaviour of the kernel objects is the locale \<open>rtos_contract\<close>: seen through a view, the calls are
  operations on bounded queues, counting semaphores, task notifications and the list of created tasks.
  \<open>esp_contract\<close> extends it with the calls of the SDK, made with the arguments the source passes: they leave
  these objects alone and act on the view of the driver, which has the hardware address, the receive buffers
  not yet given back, the receive callback and the event handlers, the functions known by their C names. A
  sleeping task is woken only by a notification: \<^verbatim>\<open>ulTaskNotifyTake\<close> of a task without one is \<open>Blocked\<close>. Both
  locales are interpreted on a reference kernel on which the witnesses run.

  \<^bold>\<open>The theories.\<close>
  \<^item> \<open>Net_Prelude\<close>: integers, \<open>exec\<close>, checked buffers, array searches, word lemmas. \<open>Slot_Table\<close>: the contract of
    a static table whose first vacant slot is taken, interpreted for the ports of UDP and TCP.
  \<^item> \<open>Endian\<close>, \<open>Checksum\<close>, \<open>Debug_Format\<close> (\<^verbatim>\<open>net_stack/utility\<close>): byte order; \<^verbatim>\<open>net_checksum\<close> equals the one's
    complement sum, its folding loop ends, a stamped message verifies, a corrupted word is noticed;
    printing addresses fits the buffers and can be read back.
  \<^item> \<open>Net_Types\<close>, \<open>Rtos\<close>, \<open>Net_State\<close>: the structs of the headers, the kernel, the heap.
  \<^item> \<open>Eth\<close>, \<open>Arp\<close>, \<open>Arp_Lookup\<close>, \<open>Ipv4_Tx\<close>, \<open>Icmp\<close>, \<open>Ipv4_Rx\<close>, \<open>Udp\<close> (\<^verbatim>\<open>net_stack/protocols\<close>): the frame on the
    air and its bounds; the invariant of the ARP task, that no waiting task is lost, that the cache answers
    with the last entry stored, timeouts, the blocking lookup against any interleaving of worker
    iterations and packets; the IPv4 packet and the ownership of its data on every path; the echo
    reply; the acceptance test of received packets, round trips, corrupted and truncated headers; UDP
    datagrams, the port table, and which created ports a datagram reaches.
  \<^item> \<open>Tcp_Types\<close>, \<open>Tcp\<close> (all operations of \<^verbatim>\<open>tcp.c\<close>), \<open>Tcp_Segment\<close>, \<open>Tcp_Input\<close>, \<open>Tcp_Slots\<close>, \<open>Tcp_Connection\<close>,
    \<open>Tcp_Ports\<close>, \<open>Tcp_Stream\<close>: the segment that is sent and remembered; the handler of received segments refines an abstract
    state machine (\<open>tcp_trans\<close>); delivery of data in order, for one segment and for any sequence of segments of
    a stream, late, repeated or lost; acknowledgement, reset and retransmission
    account for every slot and block; opening, handshake, closing and TIME\_WAIT.
  \<^item> \<open>Rx_Safety\<close>, \<open>Wifi_Manager\<close>, \<open>Start_Up\<close>: every handler of the receive path returns, keeps all older blocks
    and the other globals; hence the receive callback is memory safe on every frame that satisfies
    \<open>frame_safe\<close>, and gives its buffer back exactly once; start-up creates the state it needs when the calls
    of the kernel and the driver succeed (\<open>boots\<close>), and stores the address the driver reports in any case.
  \<^item> \<open>Task_Monitor\<close>, \<open>Tcp_Test\<close>, \<open>Arp_Scanner\<close>: the report never overruns its buffer; the scan ends after 254
    addresses; the test application.
  \<^item> \<open>End_To_End\<close> and this theory: frames through all layers.

  \<^bold>\<open>Bounds.\<close> Nothing uses fuel: loops over arrays are recursions over their index lists (8 ports, 8 slots,
  8 pending requests, 16 cache rows), \<^verbatim>\<open>fold_carry\<close> and \<open>scan_loop\<close> have termination proofs. Hypotheses on
  lengths (65501, 65503, 65507, 65515, 65521, 65527 bytes) are the largest values for which a 16-bit length
  field does not wrap; where the code wraps beyond them a theorem says what happens.

  \<^bold>\<open>Reads of headers.\<close> A header is read from a buffer as a whole, which faults when the buffer ends inside it;
  \<^verbatim>\<open>input_tcp_internal\<close> looks at the data offset (byte 12) first, as the code does, so that a block of 13 to 19
  bytes with a small offset is dropped; with a larger offset the model faults where the code may stop at an
  unknown port. This errs on the side of reporting a fault.

  \<^bold>\<open>Not modelled.\<close> Logging; build files; the code that the sources have commented out (the deferred
  release of receive buffers, the heartbeat task, \<^verbatim>\<open>app_main\<close>); preemption inside an operation, since a task
  runs from one blocking call to the next; \<^verbatim>\<open>udp.c\<close> together with \<^verbatim>\<open>tcp.c\<close>, whose global names clash, so UDP has a
  state of its own.
\<close>

section \<open>Properties\<close>

text \<open>
  C7: Ping through the whole stack: an Ethernet frame with an IPv4 packet for this host that carries an
  echo request, received in a heap block, makes the receive callback queue exactly one packet to the
  sender, an echo reply with the request's identifier, sequence number and payload; the frame is released
  and the reply is the only new block. When the transmit queue is full only the frame is released.
\<close>

theorem ping_end_to_end:
  assumes "rtos_contract R view" and "heap_ok s" and "\<not> oom (heap s) (brk (heap s))"
    and "queue_holds P (view (kern s)) (ipv4_transmit_queue s)"
    and "ip_protocol p = 1" and "ip_dst_ipv4_addr p = nc_ip (self_net s)" and "length payload \<le> 65493"
    and "ip_data_len p = of_nat (8 + length payload)"
    and "frame = eth_frame_bytes dst src (htons 0x800) (ipv4_packet p (echo_request c0 c1 i q payload) @ pad)"
    and "length frame = unat len" and "cells (heap s) a = Some frame"
    and "reply = icmp_message 0 0 i q payload"
    and "r = \<lparr>ip_src_ipv4_addr = nc_ip (self_net s), ip_dst_ipv4_addr = ip_src_ipv4_addr p,
        ip_protocol = 1, ip_data = Some (brk (heap s)), ip_data_len = of_nat (length reply)\<rparr>"
  shows "\<exists>s'. wifi_rxcb R E (RxHeap a) len None s = Inr s' \<and>
     (if queue_room (view (kern s)) (ipv4_transmit_queue s)
      then cells (heap s') = (cells (heap s))(a := None, brk (heap s) \<mapsto> reply) \<and>
        queue_items (view (kern s')) (ipv4_transmit_queue s) =
        queue_items (view (kern s)) (ipv4_transmit_queue s) @ [Ipv4Tx r]
      else cells (heap s') = (cells (heap s))(a := None) \<and> view (kern s') = view (kern s))"
proof -
  let ?b = "brk (heap s)" and ?pkt = "ipv4_packet p (echo_request c0 c1 i q payload) @ pad"
  let ?s = "with_block ?b reply s"
  have ab: "a < ?b" using assms(2,11) by (rule heap_ok_live)
  have n: "unat (of_nat (length payload) :: u16) = length payload" using assms(7) by (simp add: unat_of_nat)
  have "14 \<le> unat len" using assms(9,10) by simp
  then have len: "unat (len - 14) = length ?pkt" using assms(9,10) by (simp add: unat_minus_u16)
  have run: "ipv4_input R ?pkt (len - 14) s = rbind (send_ipv4_packet R r ?s) (\<lambda>(result, s). Inr s)"
    using assms(7,12,13) n ipv4_input_echo[OF assms(5,6) _ assms(8) len]
    by (simp add: ping_reply_eq[OF assms(2,3)])
  have q: "queue_holds P (view (kern ?s)) (ipv4_transmit_queue ?s)" "cells (heap ?s) ?b = Some reply"
    "ip_data r = Some ?b"
    using assms(4,13) by simp_all
  have undo: "(cells (heap s))(?b := None) = cells (heap s)"
    using heap_ok_fresh[OF assms(2)] by (simp add: fun_upd_idem)
  have frame: "wifi_rxcb R E (RxHeap a) len None s = Inr (release a (counted t))"
    if "ipv4_input R ?pkt (len - 14) s = Inr t" "cells (heap t) a = Some frame" for t
    by (rule wifi_rxcb_frame[OF assms(11,9,10) _ that(2)]) (simp add: that(1))
  show ?thesis
  proof (rule rtos_contract.send_ipv4_packet_cases[OF assms(1) q])
    fix k qh cap ms
    assume s: "send_ipv4_packet R r ?s = Inr (ESP_OK, ?s\<lparr>kern := k\<rparr>)" and
      "queue_room (view (kern ?s)) (ipv4_transmit_queue ?s)" "ipv4_transmit_queue ?s = Some qh"
      "kv_queues (view (kern ?s)) qh = Some (cap, ms)"
      "view k = (view (kern ?s))\<lparr>kv_queues := (kv_queues (view (kern ?s)))(qh \<mapsto> (cap, ms @ [Ipv4Tx r]))\<rparr>"
    then show ?thesis
      using frame[of "?s\<lparr>kern := k\<rparr>"] run ab assms(11)
      by (auto simp: queue_items_def fun_upd_twist)
  next
    fix k
    assume "send_ipv4_packet R r ?s = Inr (ESP_FAIL, release ?b (?s\<lparr>kern := k\<rparr>))"
      "\<not> queue_room (view (kern ?s)) (ipv4_transmit_queue ?s)" "view k = view (kern ?s)"
    then show ?thesis
      using frame[of "release ?b (?s\<lparr>kern := k\<rparr>)"] run ab assms(11) by (auto simp: undo)
  qed
qed

theorem ping_end_to_end_witness:
  "\<exists>s'. wifi_rxcb ref_rtos ref_esp (RxHeap 0) 47 None (wifi1 ping_frame ESTABLISHED) = Inr s' \<and>
     cells (heap s') = [1 \<mapsto> icmp_message 0 0 7 1 [97, 98, 99]]"
proof -
  let ?s = "wifi1 ping_frame ESTABLISHED"
  have room: "queue_room (kview.truncate (kern ?s)) (ipv4_transmit_queue ?s)"
    by (simp add: queue_room_def kview.truncate_def)
  have "queue_holds (\<lambda>_. True) (kview.truncate (kern ?s)) (ipv4_transmit_queue ?s)"
    by (simp add: queue_holds_def kview.truncate_def)
  moreover have "\<not> oom (heap ?s) (brk (heap ?s))" "ip_protocol ping_params = 1"
    "ip_dst_ipv4_addr ping_params = nc_ip (self_net ?s)" "length [97, 98, 99 :: u8] \<le> 65493"
    "ip_data_len ping_params = of_nat (8 + length [97, 98, 99 :: u8])" "length ping_frame = unat (47 :: u16)"
    "cells (heap ?s) 0 = Some ping_frame"
    by (simp_all add: ping_params_def)
  ultimately have "\<exists>s'. wifi_rxcb ref_rtos ref_esp (RxHeap 0) 47 None ?s = Inr s' \<and>
      cells (heap s') = (cells (heap ?s))(0 := None, brk (heap ?s) \<mapsto> icmp_message 0 0 7 1 [97, 98, 99])"
    using ping_end_to_end[OF refk.rtos_contract_axioms heap_ok_wifi1 _ _ _ _ _ _ ping_frame_def _ _ refl refl] room
    by (metis (no_types, lifting))
  then show ?thesis by simp
qed

text \<open>
  C8: Address resolution between two hosts: when host \<open>a\<close> receives the request frame that host \<open>b\<close>
  broadcasts for its address, its receive callback hands the driver exactly one frame for \<open>b\<close>, and that
  frame, with any padding, makes the receive callback of \<open>b\<close> pass the address pair of \<open>a\<close> to its ARP task.
  Both release the frame they received and leave nothing else on their heap.
\<close>

theorem arp_resolution_end_to_end:
  assumes "heap_ok a" and "\<not> oom (heap a) (brk (heap a))" and "cells (heap a) x = Some request"
    and "request = eth_frame_bytes BROADCAST_MAC mac_b (htons 0x806)
        (arp_payload 1 mac_b ip_b (mac_bytes stk) (self_ip_addr a) @ pad)"
    and "length request = unat len"
    and "reply = eth_frame_bytes mac_b (self_mac_addr a) (htons 0x806)
        (arp_payload 2 (self_mac_addr a) (self_ip_addr a) (mac_bytes mac_b) ip_b)"
    and "rtos_contract Rb view" and "self_ip_addr b = ip_b"
    and "queue_holds P (view (kern b)) (arp_input_queue b)" and "queue_room (view (kern b)) (arp_input_queue b)"
    and "cells (heap b) y = Some (reply @ pad')" and "length (reply @ pad') = unat len'"
  shows "(\<exists>a'. wifi_rxcb Ra Ea (RxHeap x) len None a = Inr a' \<and>
       kern a' = snd (esp_wifi_internal_tx Ra reply (kern a)) \<and> cells (heap a') = (cells (heap a))(x := None)) \<and>
     (\<exists>b'. wifi_rxcb Rb Eb (RxHeap y) len' None b = Inr b' \<and> cells (heap b') = (cells (heap b))(y := None) \<and>
       queue_items (view (kern b')) (arp_input_queue b) = queue_items (view (kern b)) (arp_input_queue b)
         @ [ArpEntry \<lparr>en_ip = self_ip_addr a, en_mac = self_mac_addr a\<rparr>])"
proof
  let ?a = "(bump a)\<lparr>kern := snd (esp_wifi_internal_tx Ra reply (kern a))\<rparr>"
  have "wifi_rxcb Ra Ea (RxHeap x) len None a = Inr (release x (counted ?a))"
    by (rule wifi_rxcb_frame[OF assms(3,4,5)])
       (simp_all add: arp_input_request[OF assms(1,2)] assms(3,6))
  then show "\<exists>a'. wifi_rxcb Ra Ea (RxHeap x) len None a = Inr a' \<and>
       kern a' = snd (esp_wifi_internal_tx Ra reply (kern a)) \<and> cells (heap a') = (cells (heap a))(x := None)"
    by simp
next
  let ?m = "ArpEntry \<lparr>en_ip = self_ip_addr a, en_mac = self_mac_addr a\<rparr>"
  let ?pl = "arp_payload 2 (self_mac_addr a) (self_ip_addr a) (mac_bytes mac_b) ip_b @ pad'"
  obtain k where k: "q_send Rb (arp_input_queue b) ?m 0 b = Inr (True, b\<lparr>kern := k\<rparr>)"
    "view k = kv_push (arp_input_queue b) ?m (view (kern b))"
    using rtos_contract.q_send_room[OF assms(7,10) disjI1[OF refl]] by blast
  have "reply @ pad' = eth_frame_bytes mac_b (self_mac_addr a) (htons 0x806) ?pl"
    using assms(6) by (simp add: eth_frame_bytes_def)
  then have "wifi_rxcb Rb Eb (RxHeap y) len' None b = Inr (release y (counted (b\<lparr>kern := k\<rparr>)))"
    by (rule wifi_rxcb_frame[OF assms(11) _ assms(12)])
       (simp_all add: arp_input_reply[OF assms(8)] k(1) assms(11))
  then show "\<exists>b'. wifi_rxcb Rb Eb (RxHeap y) len' None b = Inr b' \<and> cells (heap b') = (cells (heap b))(y := None) \<and>
       queue_items (view (kern b')) (arp_input_queue b) = queue_items (view (kern b)) (arp_input_queue b) @ [?m]"
    using assms(10) by (simp add: k(2) queue_items_push)
qed

theorem arp_resolution_end_to_end_witness:
  "\<exists>b'. wifi_rxcb ref_rtos ref_esp (RxHeap 0) 42 None
       ((wifi1 arp_reply_frame ESTABLISHED)\<lparr>self_ip_addr := IPv4 192 168 1 7\<rparr>) = Inr b' \<and>
     queue_items (kview.truncate (kern b')) (Some 1) =
       [ArpEntry \<lparr>en_ip = IPv4 192 168 1 230, en_mac = MAC 0x30 0x83 0x98 0x94 0xEC 0x1B\<rparr>]"
proof -
  let ?a = "wifi1 arp_request_frame ESTABLISHED" and ?b = "(wifi1 arp_reply_frame ESTABLISHED)\<lparr>self_ip_addr := IPv4 192 168 1 7\<rparr>"
  have q: "queue_holds (\<lambda>_. True) (kview.truncate (kern ?b)) (arp_input_queue ?b)"
    "queue_room (kview.truncate (kern ?b)) (arp_input_queue ?b)"
    "queue_items (kview.truncate (kern ?b)) (arp_input_queue ?b) = []"
    by (simp_all add: queue_holds_def queue_room_def queue_items_def kview.truncate_def)
  have f: "arp_request_frame = eth_frame_bytes BROADCAST_MAC (MAC 1 2 3 4 5 6) (htons 0x806)
      (arp_payload 1 (MAC 1 2 3 4 5 6) (IPv4 192 168 1 7) (mac_bytes 0) (self_ip_addr ?a) @ [0, 0])"
    "arp_reply_frame = eth_frame_bytes (MAC 1 2 3 4 5 6) (self_mac_addr ?a) (htons 0x806)
      (arp_payload 2 (self_mac_addr ?a) (self_ip_addr ?a) (mac_bytes (MAC 1 2 3 4 5 6)) (IPv4 192 168 1 7))"
    by (simp_all add: arp_request_frame_def arp_reply_frame_def)
  have "\<not> oom (heap ?a) (brk (heap ?a))" "cells (heap ?a) 0 = Some arp_request_frame"
    "length arp_request_frame = unat (44 :: u16)" "self_ip_addr ?b = IPv4 192 168 1 7"
    "cells (heap ?b) 0 = Some (arp_reply_frame @ [])" "length (arp_reply_frame @ []) = unat (42 :: u16)"
    by simp_all
  from arp_resolution_end_to_end[OF heap_ok_wifi1 this(1,2) f(1) this(3) f(2) refk.rtos_contract_axioms this(4) q(1,2) this(5,6),
      of ref_rtos ref_esp ref_esp] q(3)
  show ?thesis by auto
qed

end
